(* ===== verification/Prelude.thy ===== *)
theory Prelude
  imports Complex_Main "HOL-Library.List_Lexorder" "HOL-Library.Sublist"
begin

text \<open>
  What every component shares: Python strings as lists of code points with the string
  operations the source calls, decoded JSON values, results with errors, instants as
  microseconds, and database tables as lists of rows with the SQL statements the source uses.
\<close>

named_theorems py_eval \<open>definitions to unfold when a closed term is evaluated\<close>
named_theorems table_simps \<open>what a table operation keeps and changes\<close>

unbundle bit_operations_syntax

section \<open>Strings: lists of Unicode code points\<close>

type_synonym pystr = "nat list"

definition u :: "string \<Rightarrow> pystr" where
  [py_eval]: "u s = map of_char s"

text \<open>The code points for which \<open>str.isspace\<close> holds, and those \<open>str.splitlines\<close> breaks at.\<close>

definition is_space :: "nat \<Rightarrow> bool" where
  [py_eval]: "is_space c \<longleftrightarrow> c \<in> set [9, 10, 11, 12, 13, 28, 29, 30, 31, 32, 133, 160, 5760, 8192, 8193, 8194,
     8195, 8196, 8197, 8198, 8199, 8200, 8201, 8202, 8232, 8233, 8239, 8287, 12288]"

definition is_line_break :: "nat \<Rightarrow> bool" where
  [py_eval]: "is_line_break c \<longleftrightarrow> c \<in> set [10, 11, 12, 13, 28, 29, 30, 133, 8232, 8233]"

definition lstrip :: "pystr \<Rightarrow> pystr" where
  [py_eval]: "lstrip s = dropWhile is_space s"

definition strip :: "pystr \<Rightarrow> pystr" where
  [py_eval]: "strip s = rev (lstrip (rev (lstrip s)))"

fun lines_from :: "pystr \<Rightarrow> pystr \<Rightarrow> pystr list" where
  "lines_from cur [] = (if cur = [] then [] else [rev cur])"
| "lines_from cur (c # d # cs) =
     (if c = 13 \<and> d = 10 then rev cur # lines_from [] cs
      else if is_line_break c then rev cur # lines_from [] (d # cs)
      else lines_from (c # cur) (d # cs))"
| "lines_from cur [c] = (if is_line_break c then [rev cur] else [rev (c # cur)])"

definition splitlines :: "pystr \<Rightarrow> pystr list" where
  [py_eval]: "splitlines s = lines_from [] s"

text \<open>\<open>sep.join(parts)\<close> and \<open>s.partition(c)\<close> with a one-character separator.\<close>

fun join :: "pystr \<Rightarrow> pystr list \<Rightarrow> pystr" where
  "join sep [] = []"
| "join sep [x] = x"
| "join sep (x # y # ys) = x @ sep @ join sep (y # ys)"

definition partition_at :: "nat \<Rightarrow> pystr \<Rightarrow> pystr \<times> bool \<times> pystr" where
  [py_eval]: "partition_at c s =
     (takeWhile (\<lambda>x. x \<noteq> c) s, c \<in> set s, drop 1 (dropWhile (\<lambda>x. x \<noteq> c) s))"

definition contains :: "pystr \<Rightarrow> pystr \<Rightarrow> bool" where
  [py_eval]: "contains s t \<longleftrightarrow> list_ex (\<lambda>i. take (length t) (drop i s) = t) [0..<Suc (length s)]"

definition endswith :: "pystr \<Rightarrow> pystr \<Rightarrow> bool" where
  [py_eval]: "endswith s t \<longleftrightarrow> suffix t s"

definition startswith :: "pystr \<Rightarrow> pystr \<Rightarrow> bool" where
  [py_eval]: "startswith s t \<longleftrightarrow> prefix t s"

definition removesuffix :: "pystr \<Rightarrow> pystr \<Rightarrow> pystr" where
  [py_eval]: "removesuffix s t = (if t \<noteq> [] \<and> suffix t s then take (length s - length t) s else s)"

text \<open>
  Decimal digits: category Nd of Unicode 15.0 (Python 3.12) is made of runs of ten code points,
  one per script; these are the zeros. \<open>re\<close>'s \<open>\d\<close> and \<open>int\<close> accept all of them.
\<close>

definition nd_zeros :: "nat list" where
  [py_eval]: "nd_zeros = [48, 1632, 1776, 1984, 2406, 2534, 2662, 2790, 2918, 3046, 3174, 3302, 3430, 3558,
     3664, 3792, 3872, 4160, 4240, 6112, 6160, 6470, 6608, 6784, 6800, 6992, 7088, 7232, 7248,
     42528, 43216, 43264, 43472, 43504, 43600, 44016, 65296, 66720, 68912, 69734, 69872, 69942,
     70096, 70384, 70736, 70864, 71248, 71360, 71472, 71904, 72016, 72784, 73040, 73120, 73552,
     92768, 92864, 93008, 120782, 120792, 120802, 120812, 120822, 123200, 123632, 124144,
     125264, 130032]"

definition digit_value :: "nat \<Rightarrow> int option" where
  [py_eval]: "digit_value c = map_option (\<lambda>z. int (c - z)) (List.find (\<lambda>z. z \<le> c \<and> c \<le> z + 9) nd_zeros)"

definition is_digit :: "nat \<Rightarrow> bool" where
  [py_eval]: "is_digit c \<longleftrightarrow> digit_value c \<noteq> None"

definition is_ascii_digit :: "nat \<Rightarrow> bool" where
  [py_eval]: "is_ascii_digit c \<longleftrightarrow> 48 \<le> c \<and> c \<le> 57"

text \<open>\<open>int(text)\<close>: optional sign, digits with single underscores between them, at most 4300 digits.\<close>

fun digits_val :: "int \<Rightarrow> bool \<Rightarrow> pystr \<Rightarrow> int option" where
  "digits_val acc after_digit [] = (if after_digit then Some acc else None)"
| "digits_val acc after_digit (c # cs) =
     (case digit_value c of
        Some d \<Rightarrow> digits_val (10 * acc + d) True cs
      | None \<Rightarrow> if c = 95 \<and> after_digit then digits_val acc False cs else None)"

definition py_int_of_str :: "pystr \<Rightarrow> int option" where
  [py_eval]: "py_int_of_str s =
     (let t = strip s in
      if 4300 < length (filter is_digit t) then None
      else case t of
        [] \<Rightarrow> None
      | c # cs \<Rightarrow> if c = 43 then digits_val 0 False cs
                  else if c = 45 then map_option uminus (digits_val 0 False cs)
                  else digits_val 0 False t)"

text \<open>Decimal output, and \<open>f"{n:02d}"\<close> style padding.\<close>

fun dec_nat :: "nat \<Rightarrow> pystr" where
  "dec_nat n = (if n < 10 then [48 + n] else dec_nat (n div 10) @ [48 + n mod 10])"

declare dec_nat.simps [simp del]

definition dec :: "int \<Rightarrow> pystr" where
  [py_eval]: "dec i = (if i < 0 then 45 # dec_nat (nat (- i)) else dec_nat (nat i))"

definition zpad :: "nat \<Rightarrow> int \<Rightarrow> pystr" where
  [py_eval]: "zpad w i = (let d = dec i in replicate (w - length d) 48 @ d)"

section \<open>Decoded JSON values\<close>

text \<open>
  What a request body or a stored JSON document decodes to. A float is a rational: NaN and
  the infinities, which JSON cannot express, are left out.
\<close>

datatype pyval = PNone | PBool bool | PInt int | PFloat rat | PStr pystr
  | PList "pyval list" | PDict "(pystr \<times> pyval) list"

text \<open>
  What the interpreter and the cryptographic libraries supply: SHA-256 of the UTF-8 encoding as
  a hex digest, HMAC-SHA256, \<open>str\<close> of floats, lists and dicts, and the case mappings of the
  Unicode database. They are parameters of the model.
\<close>

record pyenv =
  sha256_hex :: "pystr \<Rightarrow> pystr"
  hmac_hex :: "pystr \<Rightarrow> pystr \<Rightarrow> pystr"
  py_repr :: "pyval \<Rightarrow> pystr"
  py_lower :: "pystr \<Rightarrow> pystr"
  py_upper :: "pystr \<Rightarrow> pystr"

fun truthy :: "pyval \<Rightarrow> bool" where
  "truthy PNone = False"
| "truthy (PBool b) = b"
| "truthy (PInt i) = (i \<noteq> 0)"
| "truthy (PFloat r) = (r \<noteq> 0)"
| "truthy (PStr s) = (s \<noteq> [])"
| "truthy (PList xs) = (xs \<noteq> [])"
| "truthy (PDict kvs) = (kvs \<noteq> [])"

definition py_or :: "pyval \<Rightarrow> pyval \<Rightarrow> pyval" where
  [py_eval]: "py_or a b = (if truthy a then a else b)"

fun py_str :: "pyenv \<Rightarrow> pyval \<Rightarrow> pystr" where
  "py_str E PNone = u ''None''"
| "py_str E (PBool b) = (if b then u ''True'' else u ''False'')"
| "py_str E (PInt i) = dec i"
| "py_str E (PStr s) = s"
| "py_str E v = py_repr E v"

text \<open>\<open>d.get(key)\<close>, with \<open>None\<close> for a missing key.\<close>

definition dget :: "(pystr \<times> pyval) list \<Rightarrow> pystr \<Rightarrow> pyval" where
  [py_eval]: "dget d k = (case map_of d k of Some v \<Rightarrow> v | None \<Rightarrow> PNone)"

text \<open>\<open>str(value or "")\<close>.\<close>

definition str_or_empty :: "pyenv \<Rightarrow> pyval \<Rightarrow> pystr" where
  [py_eval]: "str_or_empty E v = py_str E (py_or v (PStr []))"

section \<open>Results\<close>

text \<open>A computation that may raise: \<open>Inl\<close> carries the exception.\<close>

definition ebind :: "'e + 'a \<Rightarrow> ('a \<Rightarrow> 'e + 'b) \<Rightarrow> 'e + 'b" where
  [py_eval]: "ebind m f = (case m of Inl e \<Rightarrow> Inl e | Inr x \<Rightarrow> f x)"

fun emap :: "('a \<Rightarrow> 'e + 'b) \<Rightarrow> 'a list \<Rightarrow> 'e + 'b list" where
  "emap f [] = Inr []"
| "emap f (x # xs) = ebind (f x) (\<lambda>y. ebind (emap f xs) (\<lambda>ys. Inr (y # ys)))"

text \<open>A \<open>for\<close> loop whose body may raise.\<close>

fun efold :: "('a \<Rightarrow> 's \<Rightarrow> 'e + 's) \<Rightarrow> 'a list \<Rightarrow> 's \<Rightarrow> 'e + 's" where
  "efold f [] s = Inr s"
| "efold f (x # xs) s = ebind (f x s) (efold f xs)"

lemma ebind_simps [simp]: "ebind (Inl e) f = Inl e" "ebind (Inr x) f = f x"
  by (simp_all add: ebind_def)

lemma ebind_Inr_iff: "ebind m f = Inr y \<longleftrightarrow> (\<exists>x. m = Inr x \<and> f x = Inr y)"
  by (cases m) auto

lemma ebind_Inl_iff: "ebind m f = Inl e \<longleftrightarrow> m = Inl e \<or> (\<exists>x. m = Inr x \<and> f x = Inl e)"
  by (cases m) auto

lemma emap_Inr_iff: "emap f xs = Inr ys \<longleftrightarrow> list_all2 (\<lambda>x y. f x = Inr y) xs ys"
  by (induction xs arbitrary: ys) (auto simp: ebind_Inr_iff list_all2_Cons1)

lemma if_Some_iff: "(if P then Some x else None) = Some y \<longleftrightarrow> P \<and> x = y"
  by simp

lemma efold_invariant:
  assumes "efold f xs s = Inr s'" "P s" "\<And>x a b. x \<in> set xs \<Longrightarrow> P a \<Longrightarrow> f x a = Inr b \<Longrightarrow> P b"
  shows "P s'"
  using assms
proof (induction xs arbitrary: s)
  case (Cons x xs)
  then obtain b where b: "f x s = Inr b" "efold f xs b = Inr s'" by (auto simp: ebind_Inr_iff)
  have "P b" by (rule Cons.prems(3) [OF _ Cons.prems(2) b(1)]) simp
  with b(2) show ?case by (rule Cons.IH) (rule Cons.prems(3), auto)
qed simp

lemma efold_establishes:
  assumes "efold f xs s = Inr s'" "x \<in> set xs" "J s"
    and J: "\<And>y a b. y \<in> set xs \<Longrightarrow> J a \<Longrightarrow> f y a = Inr b \<Longrightarrow> J b"
    and P: "\<And>a b. J a \<Longrightarrow> f x a = Inr b \<Longrightarrow> P b"
    and keep: "\<And>y a b. y \<in> set xs \<Longrightarrow> P a \<Longrightarrow> f y a = Inr b \<Longrightarrow> P b"
  shows "P s'"
  using assms
proof (induction xs arbitrary: s)
  case (Cons y ys)
  obtain b where b: "f y s = Inr b" "efold f ys b = Inr s'" using Cons.prems(1) by (auto simp: ebind_Inr_iff)
  show ?case
  proof (cases "y = x")
    case True
    then have "P b" using Cons.prems(3,5) b(1) by blast
    with b(2) show ?thesis by (rule efold_invariant) (use Cons.prems(6) in auto)
  next
    case False
    with Cons.prems(2) have "x \<in> set ys" by simp
    moreover have "J b" using Cons.prems(3,4) b(1) by auto
    ultimately show ?thesis
    proof (rule Cons.IH [OF b(2)])
      show "J b'" if "z \<in> set ys" "J a" "f z a = Inr b'" for z a b' using Cons.prems(4) [of z a b'] that by simp
      show "P b'" if "J a" "f x a = Inr b'" for a b' using Cons.prems(5) that by blast
      show "P b'" if "z \<in> set ys" "P a" "f z a = Inr b'" for z a b' using Cons.prems(6) [of z a b'] that by simp
    qed
  qed
qed simp

section \<open>Instants and durations\<close>

text \<open>
  An aware \<open>datetime\<close> is its number of microseconds since 1970-01-01T00:00Z; \<open>timedelta\<close>s
  are differences of such numbers.
\<close>

type_synonym instant = int

definition seconds :: "int \<Rightarrow> int" where
  [py_eval]: "seconds n = n * 1000000"

definition minutes :: "int \<Rightarrow> int" where
  [py_eval]: "minutes n = seconds (60 * n)"

definition hours :: "int \<Rightarrow> int" where
  [py_eval]: "hours n = minutes (60 * n)"

definition days :: "int \<Rightarrow> int" where
  [py_eval]: "days n = hours (24 * n)"

lemmas duration_defs = seconds_def minutes_def hours_def days_def

section \<open>Tables\<close>

text \<open>
  A table is the list of its rows. \<open>UPDATE\<close> maps the rows that satisfy its condition;
  \<open>INSERT ... ON CONFLICT (key) DO NOTHING\<close> appends unless a row with that key exists;
  \<open>ON CONFLICT (key) DO UPDATE\<close> merges the excluded row into the existing one.
\<close>

definition sql_update :: "('r \<Rightarrow> bool) \<Rightarrow> ('r \<Rightarrow> 'r) \<Rightarrow> 'r list \<Rightarrow> 'r list" where
  [py_eval]: "sql_update p f t = map (\<lambda>r. if p r then f r else r) t"

definition has_key :: "('r \<Rightarrow> 'k) \<Rightarrow> 'k \<Rightarrow> 'r list \<Rightarrow> bool" where
  [py_eval]: "has_key key k t \<longleftrightarrow> list_ex (\<lambda>r. key r = k) t"

definition insert_or_ignore :: "('r \<Rightarrow> 'k) \<Rightarrow> 'r \<Rightarrow> 'r list \<Rightarrow> 'r list" where
  [py_eval]: "insert_or_ignore key r t = (if has_key key (key r) t then t else t @ [r])"

definition upsert :: "('r \<Rightarrow> 'k) \<Rightarrow> ('r \<Rightarrow> 'r \<Rightarrow> 'r) \<Rightarrow> 'r \<Rightarrow> 'r list \<Rightarrow> 'r list" where
  [py_eval]: "upsert key merge r t =
     (if has_key key (key r) t then sql_update (\<lambda>old. key old = key r) (\<lambda>old. merge old r) t
      else t @ [r])"

definition find_row :: "('r \<Rightarrow> 'k) \<Rightarrow> 'k \<Rightarrow> 'r list \<Rightarrow> 'r option" where
  [py_eval]: "find_row key k t = List.find (\<lambda>r. key r = k) t"

text \<open>SQL comparisons with a possibly NULL column are not true when it is NULL.\<close>

definition le_opt :: "'a::linorder option \<Rightarrow> 'a \<Rightarrow> bool" where
  [py_eval]: "le_opt x y = (case x of None \<Rightarrow> False | Some v \<Rightarrow> v \<le> y)"

definition ge_opt :: "'a::linorder option \<Rightarrow> 'a \<Rightarrow> bool" where
  [py_eval]: "ge_opt x y = (case x of None \<Rightarrow> False | Some v \<Rightarrow> v \<ge> y)"

definition lt_opt :: "'a::linorder option \<Rightarrow> 'a \<Rightarrow> bool" where
  [py_eval]: "lt_opt x y = (case x of None \<Rightarrow> False | Some v \<Rightarrow> v < y)"

lemma has_key_iff: "has_key key k t \<longleftrightarrow> k \<in> key ` set t"
  by (auto simp: has_key_def list_ex_iff)

lemma set_sql_update: "set (sql_update p f t) = (\<lambda>r. if p r then f r else r) ` set t"
  by (simp add: sql_update_def)

lemma sql_update_append [table_simps]: "sql_update p f (t @ t') = sql_update p f t @ sql_update p f t'"
  by (simp add: sql_update_def)

lemma length_sql_update [simp]: "length (sql_update p f t) = length t"
  by (simp add: sql_update_def)

lemma map_key_sql_update [table_simps]:
  "(\<And>r. key (f r) = key r) \<Longrightarrow> map key (sql_update p f t) = map key t"
  by (auto simp: sql_update_def)

lemma has_key_sql_update [table_simps]:
  "(\<And>r. key (f r) = key r) \<Longrightarrow> has_key key k (sql_update p f t) = has_key key k t"
  by (auto simp: has_key_def sql_update_def list_ex_iff)

lemma distinct_insert_or_ignore [table_simps]:
  "distinct (map key (insert_or_ignore key r t)) = distinct (map key t)"
  by (auto simp: insert_or_ignore_def has_key_iff)

lemma distinct_upsert [table_simps]:
  "(\<And>a b. key a = key b \<Longrightarrow> key (merge a b) = key b) \<Longrightarrow>
   distinct (map key t) \<Longrightarrow> distinct (map key (upsert key merge r t))"
proof -
  assume keep: "\<And>a b. key a = key b \<Longrightarrow> key (merge a b) = key b" and d: "distinct (map key t)"
  have "map key (sql_update (\<lambda>old. key old = key r) (\<lambda>old. merge old r) t) = map key t"
    by (auto simp: sql_update_def keep)
  with d show ?thesis by (auto simp: upsert_def has_key_iff)
qed

lemma has_key_upsert [table_simps]:
  "(\<And>a. key (merge a r) = key a) \<Longrightarrow> has_key key k (upsert key merge r t) \<longleftrightarrow> k = key r \<or> has_key key k t"
  by (auto simp: upsert_def has_key_sql_update) (auto simp: has_key_iff)

lemma in_sql_update: "r \<in> set (sql_update p f t) \<Longrightarrow> \<exists>q \<in> set t. r = (if p q then f q else q)"
  by (auto simp: set_sql_update)

lemma find_row_Some: "find_row key k t = Some r \<Longrightarrow> r \<in> set t \<and> key r = k"
  by (auto simp: find_row_def find_Some_iff)

lemma find_row_None: "find_row key k t = None \<longleftrightarrow> \<not> has_key key k t"
  by (auto simp: find_row_def find_None_iff has_key_iff)

lemma key_unique: "distinct (map key t) \<Longrightarrow> a \<in> set t \<Longrightarrow> b \<in> set t \<Longrightarrow> key a = key b \<Longrightarrow> a = b"
  by (metis distinct_map inj_onD)

lemma find_row_unique:
  "distinct (map key t) \<Longrightarrow> r \<in> set t \<Longrightarrow> find_row key (key r) t = Some r"
  by (induction t) (auto simp: find_row_def)

lemma find_row_append:
  "find_row key k (t @ t') = (case find_row key k t of Some r \<Rightarrow> Some r | None \<Rightarrow> find_row key k t')"
  by (induction t) (auto simp: find_row_def)

lemma find_row_sql_update:
  "(\<And>r. key (f r) = key r) \<Longrightarrow>
   find_row key k (sql_update p f t) = map_option (\<lambda>r. if p r then f r else r) (find_row key k t)"
  by (induction t) (auto simp: find_row_def sql_update_def)

lemma has_key_append [table_simps]: "has_key key k (t @ t') \<longleftrightarrow> has_key key k t \<or> has_key key k t'"
  by (simp add: has_key_def)

lemma has_key_insert: "has_key key k (insert_or_ignore key r t) \<longleftrightarrow> k = key r \<or> has_key key k t"
  by (auto simp: insert_or_ignore_def has_key_def)

lemma find_row_upsert:
  assumes "\<And>a. key (merge a r) = key r"
  shows "find_row key (key r) (upsert key merge r t) = Some (case find_row key (key r) t of None \<Rightarrow> r | Some old \<Rightarrow> merge old r)"
proof (induction t)
  case (Cons x xs)
  then show ?case using assms by (auto simp: upsert_def has_key_def sql_update_def find_row_def split: if_splits)
qed (simp add: upsert_def has_key_def find_row_def)

lemma sql_update_eq_id: "(\<And>r. r \<in> set t \<Longrightarrow> \<not> p r) \<Longrightarrow> sql_update p f t = t"
  by (induction t) (auto simp: sql_update_def)

section \<open>Stripping and lines\<close>

lemma lstrip_idem [simp]: "lstrip (lstrip s) = lstrip s"
  by (simp add: lstrip_def)

lemma lstrip_id: "s = [] \<or> \<not> is_space (hd s) \<Longrightarrow> lstrip s = s"
  by (cases s) (auto simp: lstrip_def)

lemma lstrip_head: "lstrip s = [] \<or> \<not> is_space (hd (lstrip s))"
  by (metis hd_dropWhile lstrip_def)

lemma strip_last: "strip s = [] \<or> \<not> is_space (last (strip s))"
  using lstrip_head [of "rev (lstrip s)"] by (auto simp: strip_def last_rev)

lemma strip_head: "strip s = [] \<or> \<not> is_space (hd (strip s))"
proof (cases "strip s")
  case (Cons c cs)
  have "suffix (lstrip (rev (lstrip s))) (rev (lstrip s))"
    unfolding lstrip_def by (rule suffix_dropWhile)
  then have "prefix (strip s) (lstrip s)"
    by (simp add: strip_def suffix_to_prefix)
  with Cons have "hd (strip s) = hd (lstrip s)" "lstrip s \<noteq> []"
    by (auto simp: prefix_def)
  with lstrip_head [of s] show ?thesis by auto
qed simp

lemma strip_fixed: "s = [] \<or> (\<not> is_space (hd s) \<and> \<not> is_space (last s)) \<Longrightarrow> strip s = s"
  by (auto simp: strip_def lstrip_id hd_rev)

lemma strip_idem [simp]: "strip (strip s) = strip s"
  using strip_head [of s] strip_last [of s] by (intro strip_fixed) auto

lemma strip_Nil [simp]: "strip [] = []"
  by (simp add: strip_def lstrip_def)

section \<open>Transition systems\<close>

inductive reachable :: "('s \<Rightarrow> bool) \<Rightarrow> ('s \<Rightarrow> 's \<Rightarrow> bool) \<Rightarrow> 's \<Rightarrow> bool" for init step where
  reach_init: "init s \<Longrightarrow> reachable init step s"
| reach_step: "reachable init step s \<Longrightarrow> step s s' \<Longrightarrow> reachable init step s'"

text \<open>A component run as a transition system with an invariant its steps keep.\<close>

locale transition_system =
  fixes init :: "'s \<Rightarrow> bool"
    and step :: "'s \<Rightarrow> 's \<Rightarrow> bool"
    and inv :: "'s \<Rightarrow> bool"
  assumes init_inv: "init s \<Longrightarrow> inv s"
    and step_inv: "inv s \<Longrightarrow> step s s' \<Longrightarrow> inv s'"
begin

lemma reachable_inv: "reachable init step s \<Longrightarrow> inv s"
  by (induction rule: reachable.induct) (auto intro: init_inv step_inv)

lemma run_inv: "step\<^sup>*\<^sup>* s s' \<Longrightarrow> inv s \<Longrightarrow> inv s'"
  by (induction rule: rtranclp_induct) (auto intro: step_inv)

end

text \<open>
  A system whose states hold keyed entries with a status: a step never drops an entry and changes
  a status only along \<open>follows\<close>, and nothing follows a final status but itself.
\<close>

locale status_lifecycle = transition_system init step inv
  for init :: "'s \<Rightarrow> bool" and step :: "'s \<Rightarrow> 's \<Rightarrow> bool" and inv :: "'s \<Rightarrow> bool" +
  fixes entry :: "'s \<Rightarrow> 'k \<Rightarrow> 'v \<Rightarrow> bool"
    and follows :: "'v \<Rightarrow> 'v \<Rightarrow> bool"
    and is_final :: "'v \<Rightarrow> bool"
  assumes entry_step: "inv s \<Longrightarrow> step s s' \<Longrightarrow> entry s k v \<Longrightarrow> \<exists>v'. entry s' k v' \<and> follows v v'"
    and final_follows: "follows v v' \<Longrightarrow> is_final v \<Longrightarrow> v' = v"
begin

lemma entry_run: "step\<^sup>*\<^sup>* s s' \<Longrightarrow> inv s \<Longrightarrow> entry s k v \<Longrightarrow> \<exists>v'. entry s' k v' \<and> follows\<^sup>*\<^sup>* v v'"
proof (induction rule: rtranclp_induct)
  case (step y z)
  then show ?case using entry_step [OF run_inv] rtranclp.rtrancl_into_rtrancl by metis
qed auto

lemma final_run: "step\<^sup>*\<^sup>* s s' \<Longrightarrow> inv s \<Longrightarrow> entry s k v \<Longrightarrow> is_final v \<Longrightarrow> entry s' k v"
proof (induction rule: rtranclp_induct)
  case (step y z)
  then show ?case using entry_step [OF run_inv] final_follows by metis
qed auto

end

section \<open>Lines of a text\<close>

lemma lines_from_single: "list_all (\<lambda>c. \<not> is_line_break c) s \<Longrightarrow> lines_from cur s = (if cur = [] \<and> s = [] then [] else [rev cur @ s])"
  by (induction cur s rule: lines_from.induct) (auto simp: is_line_break_def)

definition unbroken :: "pystr \<Rightarrow> bool" where
  [py_eval]: "unbroken s \<longleftrightarrow> s \<noteq> [] \<and> list_all (\<lambda>x. \<not> is_line_break x) s"

lemma lines_from_join: "list_all (\<lambda>x. \<not> is_line_break x) s \<Longrightarrow> lines_from cur (s @ 10 # rest) = (rev cur @ s) # lines_from [] rest"
proof (induction s arbitrary: cur)
  case Nil
  then show ?case by (cases rest) (simp_all add: is_line_break_def)
next
  case (Cons x s)
  then have x: "x \<noteq> 13" "\<not> is_line_break x" by (auto simp: is_line_break_def)
  obtain y ys where e: "s @ 10 # rest = y # ys" by (cases s) auto
  have "lines_from cur (x # s @ 10 # rest) = lines_from (x # cur) (s @ 10 # rest)" unfolding e using x by simp
  with Cons show ?case by simp
qed

lemma splitlines_join: "list_all unbroken ls \<Longrightarrow> splitlines (join [10] ls) = ls"
proof (induction "[10 :: nat]" ls rule: join.induct)
  case (2 x)
  then show ?case by (simp add: splitlines_def lines_from_single unbroken_def)
next
  case (3 x y ys)
  then show ?case by (simp add: splitlines_def lines_from_join unbroken_def)
qed (simp add: splitlines_def)

lemma strip_Cons_nonblank: "\<not> is_space x \<Longrightarrow> strip (x # xs) \<noteq> []"
  by (simp add: strip_def lstrip_def dropWhile_eq_Nil_conv)

lemma hd_join: "x \<noteq> [] \<Longrightarrow> hd (join sep (x # xs)) = hd x"
  by (cases xs) simp_all

lemma last_join: "list_all (\<lambda>l. l \<noteq> []) ls \<Longrightarrow> ls \<noteq> [] \<Longrightarrow> join sep ls \<noteq> [] \<and> last (join sep ls) = last (last ls)"
  by (induction sep ls rule: join.induct) auto

lemma strip_join:
  assumes "ls \<noteq> []" "\<And>l. l \<in> set ls \<Longrightarrow> l \<noteq> [] \<and> strip l = l"
  shows "strip (join sep ls) = join sep ls"
proof (rule strip_fixed, rule disjI2)
  obtain x xs where ls: "ls = x # xs" using assms(1) by (cases ls) auto
  have "\<not> is_space (hd x)" "\<not> is_space (last (last ls))"
    using assms(2) [of x] assms(2) [OF last_in_set [OF assms(1)]] strip_head [of x] strip_last [of "last ls"] ls by auto
  then show "\<not> is_space (hd (join sep ls)) \<and> \<not> is_space (last (join sep ls))"
    using hd_join [of x sep xs] last_join [of ls sep] assms ls by (simp add: list_all_iff del: last.simps)
qed

end
