(* ===== verification/PyDate.thy ===== *)
theory PyDate
  imports Prelude
begin

text \<open>
  Calendar dates of the standard library as the source uses them. A date is its day number
  counted from 1970-01-01; \<open>civil_of_day\<close> and \<open>day_of_civil\<close> convert to year, month
  and day of the proleptic Gregorian calendar. \<open>Asia/Shanghai\<close> is UTC+08:00 (since 1991).
\<close>

type_synonym pydate = int

definition day_of_civil :: "int \<Rightarrow> int \<Rightarrow> int \<Rightarrow> pydate" where
  [py_eval]: "day_of_civil y m d =
     (let y' = (if m \<le> 2 then y - 1 else y);
          yoe = y' mod 400;
          doy = (153 * ((m + 9) mod 12) + 2) div 5 + d - 1
      in (y' div 400) * 146097 + (yoe * 365 + yoe div 4 - yoe div 100 + doy) - 719468)"

text \<open>
  Years count from March here, so that a leap day ends its year: eras of 400 years, centuries of
  36524 days (the last one a day longer), cycles of 1461 days, years of 365 (the last one 366).
\<close>

definition civil_of_day :: "pydate \<Rightarrow> int \<times> int \<times> int" where
  [py_eval]: "civil_of_day n =
     (let z = n + 719468;
          doe = z mod 146097;
          c = min (doe div 36524) 3;
          r = doe - 36524 * c;
          y = min ((r mod 1461) div 365) 3;
          yoe = 100 * c + 4 * (r div 1461) + y;
          doy = r mod 1461 - 365 * y;
          mp = (5 * doy + 2) div 153;
          d = doy - (153 * mp + 2) div 5 + 1;
          m = (if mp < 10 then mp + 3 else mp - 9)
      in (yoe + (z div 146097) * 400 + (if m \<le> 2 then 1 else 0), m, d))"

definition is_leap :: "int \<Rightarrow> bool" where
  [py_eval]: "is_leap y \<longleftrightarrow> y mod 4 = 0 \<and> (y mod 100 \<noteq> 0 \<or> y mod 400 = 0)"

definition days_in_month :: "int \<Rightarrow> int \<Rightarrow> int" where
  [py_eval]: "days_in_month y m =
     (if m = 2 then (if is_leap y then 29 else 28) else if m \<in> {4, 6, 9, 11} then 30 else 31)"

definition make_date :: "int \<Rightarrow> int \<Rightarrow> int \<Rightarrow> pydate option" where
  [py_eval]: "make_date y m d =
     (if 1 \<le> y \<and> y \<le> 9999 \<and> 1 \<le> m \<and> m \<le> 12 \<and> 1 \<le> d \<and> d \<le> days_in_month y m
      then Some (day_of_civil y m d) else None)"

text \<open>\<open>date.isoweekday()\<close>: Monday is 1; 1970-01-01 was a Thursday.\<close>

definition isoweekday :: "pydate \<Rightarrow> int" where
  [py_eval]: "isoweekday n = (n + 3) mod 7 + 1"

definition isoformat :: "pydate \<Rightarrow> pystr" where
  [py_eval]: "isoformat n = (case civil_of_day n of (y, m, d) \<Rightarrow>
     zpad 4 y @ u ''-'' @ zpad 2 m @ u ''-'' @ zpad 2 d)"

text \<open>\<open>strftime("%m-%d")\<close>.\<close>

definition month_day :: "pydate \<Rightarrow> pystr" where
  [py_eval]: "month_day n = (case civil_of_day n of (y, m, d) \<Rightarrow> zpad 2 m @ u ''-'' @ zpad 2 d)"

text \<open>
  \<open>date.fromisoformat\<close> of Python 3.11 and later: \<open>YYYY-MM-DD\<close>, \<open>YYYYMMDD\<close> and the week
  forms \<open>YYYY-Www[-D]\<close>, \<open>YYYYWww[D]\<close>. Only ASCII digits count.
\<close>

fun ascii_num :: "int \<Rightarrow> pystr \<Rightarrow> int option" where
  "ascii_num acc [] = Some acc"
| "ascii_num acc (c # cs) = (if is_ascii_digit c then ascii_num (10 * acc + int (c - 48)) cs else None)"

definition ascii_field :: "nat \<Rightarrow> nat \<Rightarrow> pystr \<Rightarrow> int option" where
  [py_eval]: "ascii_field i w s =
     (if i + w \<le> length s then ascii_num 0 (take w (drop i s)) else None)"

definition isoweek_date :: "int \<Rightarrow> int \<Rightarrow> int \<Rightarrow> pydate option" where
  [py_eval]: "isoweek_date y w d =
     (let jan1 = day_of_civil y 1 1;
          first = isoweekday jan1;
          long_year = (first = 4 \<or> (first = 3 \<and> is_leap y));
          week1 = jan1 - (first - 1) + (if first > 4 then 7 else 0);
          n = week1 + (w - 1) * 7 + (d - 1)
      in if 1 \<le> y \<and> y \<le> 9999 \<and> 1 \<le> w \<and> (w < 53 \<or> (w = 53 \<and> long_year)) \<and> 1 \<le> d \<and> d \<le> 7
            \<and> day_of_civil 1 1 1 \<le> n \<and> n \<le> day_of_civil 9999 12 31
         then Some n else None)"

definition date_fromisoformat :: "pystr \<Rightarrow> pydate option" where
  [py_eval]: "date_fromisoformat s =
     (if length s \<notin> {7, 8, 10} then None
      else case ascii_field 0 4 s of
        None \<Rightarrow> None
      | Some y \<Rightarrow>
          let has_sep = (s ! 4 = 45); p = (if has_sep then 5 else 4) in
          if p < length s \<and> s ! p = 87 then
            (case ascii_field (p + 1) 2 s of
               None \<Rightarrow> None
             | Some w \<Rightarrow>
                 if length s = p + 3 then isoweek_date y w 1
                 else if (s ! (p + 3) = 45) \<noteq> has_sep then None
                 else let q = (if has_sep then p + 4 else p + 3) in
                   if length s \<noteq> q + 1 then None
                   else Option.bind (ascii_field q 1 s) (isoweek_date y w))
          else
            (case ascii_field p 2 s of
               None \<Rightarrow> None
             | Some m \<Rightarrow>
                 if p + 2 < length s \<and> (s ! (p + 2) = 45) = has_sep then
                   let q = (if has_sep then p + 3 else p + 2) in
                   if length s \<noteq> q + 2 then None
                   else Option.bind (ascii_field q 2 s) (make_date y m)
                 else None))"

text \<open>
  \<open>datetime.fromisoformat\<close>: the place of the date-time separator, the time
  \<open>HH[:MM[:SS[.F+]]]\<close> (with or without colons; the fraction may follow a comma and is cut
  to microseconds) and the offset \<open>Z\<close> or a sign and a time below 24 hours. The result is
  the local time in microseconds and the offset, \<open>None\<close> for a naive datetime.
\<close>

definition separator_at :: "pystr \<Rightarrow> nat option" where
  [py_eval]: "separator_at s =
     (let n = length s in
      if n < 7 then None
      else if n = 7 then Some 7
      else if s ! 4 = 45 then
        (if s ! 5 = 87 then
           (if 8 < n \<and> s ! 8 = 45 then
              (if n = 9 then None
               else if 10 < n \<and> is_ascii_digit (s ! 10) then Some 8 else Some 10)
            else Some 8)
         else Some 10)
      else if s ! 4 = 87 then
        (let p = 7 + length (takeWhile is_ascii_digit (drop 7 s)) in
         if p < 9 then Some p else if even p then Some 8 else Some 7)
      else Some 8)"

definition micros_of_fraction :: "pystr \<Rightarrow> int option" where
  [py_eval]: "micros_of_fraction f =
     (if f = [] \<or> \<not> list_all is_ascii_digit f then None
      else ascii_num 0 (take 6 (f @ replicate 6 48)))"

definition hms_fields :: "pystr \<Rightarrow> (int \<times> int \<times> int \<times> int) option" where
  [py_eval]: "hms_fields s =
     Option.bind (ascii_field 0 2 s) (\<lambda>h.
       if length s = 2 then Some (h, 0, 0, 0)
       else let colon = (s ! 2 = 58); p = (if colon then 3 else 2) in
         Option.bind (ascii_field p 2 s) (\<lambda>m.
           if length s = p + 2 then Some (h, m, 0, 0)
           else if colon \<and> s ! (p + 2) \<noteq> 58 then None
           else let q = (if colon then p + 3 else p + 2) in
             Option.bind (ascii_field q 2 s) (\<lambda>sec.
               if length s = q + 2 then Some (h, m, sec, 0)
               else if s ! (q + 2) \<notin> {46, 44} then None
               else map_option (\<lambda>us. (h, m, sec, us)) (micros_of_fraction (drop (q + 3) s)))))"

definition micros_of_fields :: "int \<times> int \<times> int \<times> int \<Rightarrow> int" where
  [py_eval]: "micros_of_fields f = (case f of (h, m, sec, us) \<Rightarrow> seconds (h * 3600 + m * 60 + sec) + us)"

definition time_of_day :: "pystr \<Rightarrow> int option" where
  [py_eval]: "time_of_day s =
     Option.bind (hms_fields s) (\<lambda>f. case f of (h, m, sec, us) \<Rightarrow>
       if h < 24 \<and> m < 60 \<and> sec < 60 then Some (micros_of_fields f) else None)"

definition utc_offset :: "pystr \<Rightarrow> int option" where
  [py_eval]: "utc_offset s =
     (case s of
        [] \<Rightarrow> None
      | c # cs \<Rightarrow>
          if c = 90 then (if cs = [] then Some 0 else None)
          else Option.bind (hms_fields cs) (\<lambda>f.
            let off = micros_of_fields f in
            if off < days 1 then Some (if c = 45 then - off else off) else None))"

definition datetime_fromisoformat :: "pystr \<Rightarrow> (int \<times> int option) option" where
  [py_eval]: "datetime_fromisoformat s =
     Option.bind (separator_at s) (\<lambda>p.
       Option.bind (date_fromisoformat (take p s)) (\<lambda>day.
         if length s \<le> Suc p then Some (day * days 1, None)
         else
           let rest = drop (Suc p) s;
               clock = takeWhile (\<lambda>c. c \<notin> {43, 45, 90}) rest;
               zone = drop (length clock) rest
           in Option.bind (time_of_day clock) (\<lambda>t.
                if zone = [] then Some (day * days 1 + t, None)
                else map_option (\<lambda>off. (day * days 1 + t, Some off)) (utc_offset zone))))"

text \<open>The range of \<open>datetime\<close>, and the instant of a parsed datetime, naive ones read as UTC.\<close>

definition min_instant :: instant where
  [py_eval]: "min_instant = day_of_civil 1 1 1 * days 1"

definition max_instant :: instant where
  [py_eval]: "max_instant = (day_of_civil 9999 12 31 + 1) * days 1 - 1"

definition instant_of :: "int \<times> int option \<Rightarrow> instant" where
  [py_eval]: "instant_of p = fst p - (case snd p of None \<Rightarrow> 0 | Some off \<Rightarrow> off)"

text \<open>Shanghai wall-clock time: the local day of an instant, and the instant a local day starts.\<close>

definition shanghai_offset :: int where
  [py_eval]: "shanghai_offset = hours 8"

definition shanghai_date :: "instant \<Rightarrow> pydate" where
  [py_eval]: "shanghai_date t = (t + shanghai_offset) div days 1"

definition shanghai_midnight :: "pydate \<Rightarrow> instant" where
  [py_eval]: "shanghai_midnight n = n * days 1 - shanghai_offset"

definition shanghai_hour :: "instant \<Rightarrow> int" where
  [py_eval]: "shanghai_hour t = ((t + shanghai_offset) mod days 1) div hours 1"

text \<open>The number a digit string denotes, read back by the proofs about padded numbers.\<close>

definition num_of :: "pystr \<Rightarrow> nat" where
  "num_of s = foldl (\<lambda>a c. 10 * a + (c - 48)) 0 s"

lemma isoweekday_range: "1 \<le> isoweekday n \<and> isoweekday n \<le> 7"
  unfolding isoweekday_def by presburger

lemma shanghai_midnight_le: "shanghai_midnight (shanghai_date t) \<le> t"
  by (simp add: shanghai_midnight_def shanghai_date_def duration_defs shanghai_offset_def)

lemma shanghai_midnight_next: "t < shanghai_midnight (shanghai_date t) + days 1"
  by (simp add: shanghai_midnight_def shanghai_date_def duration_defs shanghai_offset_def)

lemma shanghai_date_midnight [simp]: "shanghai_date (shanghai_midnight n) = n"
  by (simp add: shanghai_midnight_def shanghai_date_def duration_defs shanghai_offset_def)

lemma shanghai_date_mono: "s \<le> t \<Longrightarrow> shanghai_date s \<le> shanghai_date t"
  by (simp add: shanghai_date_def duration_defs zdiv_mono1)

lemma shanghai_date_le_iff: "n \<le> shanghai_date t \<longleftrightarrow> shanghai_midnight n \<le> t"
  using shanghai_midnight_le [of t] shanghai_midnight_next [of t]
  by (auto simp: shanghai_midnight_def duration_defs)

section \<open>The calendar round trip\<close>

lemma day_of_civil_split:
  assumes "0 \<le> mp" "mp \<le> 11" "0 \<le> yoe" "yoe < 400"
    and "m = (if mp < 10 then mp + 3 else mp - 9)"
  shows "day_of_civil (yoe + era * 400 + (if m \<le> 2 then 1 else 0)) m d =
    era * 146097 + (yoe * 365 + yoe div 4 - yoe div 100 + ((153 * mp + 2) div 5 + d - 1)) - 719468"
proof -
  have "(m + 9) mod 12 = mp" using assms by (auto simp: mod_pos_pos_trivial)
  moreover have "(if m \<le> 2 then yoe + era * 400 + (if m \<le> 2 then 1 else 0) - 1
     else yoe + era * 400 + (if m \<le> 2 then 1 else 0)) = yoe + era * 400" by simp
  moreover have "(yoe + era * 400) mod 400 = yoe" "(yoe + era * 400) div 400 = era"
    using assms by simp_all
  ultimately show ?thesis by (simp add: day_of_civil_def Let_def)
qed

lemma century_split:
  fixes doe :: int
  assumes "0 \<le> doe" "doe < 146097"
  defines "c \<equiv> min (doe div 36524) 3"
  defines "r \<equiv> doe - 36524 * c"
  defines "q \<equiv> r div 1461"
  defines "y \<equiv> min ((r mod 1461) div 365) 3"
  shows "0 \<le> c" "c \<le> 3" "0 \<le> q" "q \<le> 24" "0 \<le> y" "y \<le> 3" "0 \<le> r mod 1461 - 365 * y"
    "r mod 1461 - 365 * y \<le> 365" "doe = 36524 * c + 1461 * q + r mod 1461"
proof -
  show c: "0 \<le> c" "c \<le> 3" using assms by (auto simp: c_def)
  have r: "0 \<le> r" "r \<le> 36524" using assms unfolding r_def c_def by (auto simp: min_def)
  then show "0 \<le> q" "q \<le> 24" unfolding q_def by auto
  have rm: "0 \<le> r mod 1461" "r mod 1461 \<le> 1460" by (simp, smt (verit) pos_mod_bound)
  then show "0 \<le> y" "y \<le> 3" unfolding y_def by auto
  show "0 \<le> r mod 1461 - 365 * y" "r mod 1461 - 365 * y \<le> 365" using rm unfolding y_def min_def by auto
  have "1461 * q + r mod 1461 = r" unfolding q_def by simp
  then show "doe = 36524 * c + 1461 * q + r mod 1461" unfolding r_def by linarith
qed

lemma civil_of_day_parts:
  "\<exists>yoe mp doy. civil_of_day n =
      (let m = (if mp < 10 then mp + 3 else mp - 9) in
       (yoe + ((n + 719468) div 146097) * 400 + (if m \<le> 2 then 1 else 0), m, doy - (153 * mp + 2) div 5 + 1))
     \<and> 0 \<le> mp \<and> mp \<le> 11 \<and> 0 \<le> yoe \<and> yoe < 400 \<and> mp = (5 * doy + 2) div 153 \<and> 0 \<le> doy \<and> doy \<le> 365
     \<and> yoe * 365 + yoe div 4 - yoe div 100 + doy = (n + 719468) mod 146097"
proof -
  define z where "z = n + 719468"
  define doe where "doe = z mod 146097"
  define c where "c = min (doe div 36524) 3"
  define r where "r = doe - 36524 * c"
  define q where "q = r div 1461"
  define y where "y = min ((r mod 1461) div 365) 3"
  define doy where "doy = r mod 1461 - 365 * y"
  define mp where "mp = (5 * doy + 2) div 153"
  define yoe where "yoe = 100 * c + 4 * q + y"
  have doe: "0 \<le> doe" "doe < 146097" by (simp_all add: doe_def)
  note cs = century_split [OF doe, folded c_def, folded r_def, folded q_def y_def, folded doy_def]
  have yoe: "0 \<le> yoe" "yoe < 400" "yoe div 4 = 25 * c + q" "yoe div 100 = c"
    using cs unfolding yoe_def by auto
  have mp: "0 \<le> mp" "mp \<le> 11" using cs(7,8) unfolding mp_def by auto
  have "civil_of_day n = (let m = (if mp < 10 then mp + 3 else mp - 9) in
      (yoe + (z div 146097) * 400 + (if m \<le> 2 then 1 else 0), m, doy - (153 * mp + 2) div 5 + 1))"
    unfolding civil_of_day_def Let_def z_def [symmetric] doe_def [symmetric] c_def [symmetric]
      r_def [symmetric] q_def [symmetric] y_def [symmetric] doy_def [symmetric] mp_def [symmetric]
      yoe_def [symmetric] by (rule refl)
  moreover have "yoe * 365 + yoe div 4 - yoe div 100 + doy = doe"
    using cs(9) yoe unfolding yoe_def doy_def by simp
  ultimately show ?thesis using mp yoe cs(7,8) mp_def doe_def z_def by metis
qed

theorem day_of_civil_of_day: "case civil_of_day n of (y, m, d) \<Rightarrow> day_of_civil y m d = n"
proof -
  obtain yoe mp doy where e: "civil_of_day n = (let m = (if mp < 10 then mp + 3 else mp - 9) in
       (yoe + ((n + 719468) div 146097) * 400 + (if m \<le> 2 then 1 else 0), m, doy - (153 * mp + 2) div 5 + 1))"
    and b: "0 \<le> mp" "mp \<le> 11" "0 \<le> yoe" "yoe < 400"
    and doe: "yoe * 365 + yoe div 4 - yoe div 100 + doy = (n + 719468) mod 146097"
    using civil_of_day_parts [of n] by blast
  show ?thesis
    using day_of_civil_split [OF b refl, of "(n + 719468) div 146097" "doy - (153 * mp + 2) div 5 + 1"] doe
    by (simp add: e Let_def)
qed

lemma civil_of_day_year: "0 \<le> n + 719468 \<Longrightarrow> 0 \<le> fst (civil_of_day n)"
  using civil_of_day_parts [of n] by (auto simp: Let_def)

lemma civil_of_day_inj: "civil_of_day n = civil_of_day n' \<Longrightarrow> n = n'"
  using day_of_civil_of_day [of n] day_of_civil_of_day [of n'] by (simp split: prod.splits)

lemma civil_of_day_md:
  assumes "civil_of_day n = (y, m, d)"
  shows "1 \<le> m \<and> m \<le> 12 \<and> 1 \<le> d \<and> d \<le> 31"
proof -
  obtain yoe mp doy where e: "civil_of_day n = (let m = (if mp < 10 then mp + 3 else mp - 9) in
       (yoe + ((n + 719468) div 146097) * 400 + (if m \<le> 2 then 1 else 0), m, doy - (153 * mp + 2) div 5 + 1))"
    and b: "0 \<le> mp" "mp \<le> 11" and mp: "mp = (5 * doy + 2) div 153"
    using civil_of_day_parts [of n] by blast
  have "d = doy - (153 * mp + 2) div 5 + 1" "m = (if mp < 10 then mp + 3 else mp - 9)"
    using assms e by (auto simp: Let_def)
  moreover have "153 * mp \<le> 5 * doy + 2" "5 * doy + 2 < 153 * mp + 153"
    unfolding mp by auto
  ultimately show ?thesis using b by auto
qed

section \<open>Decimal numbers\<close>

lemma num_of_snoc [simp]: "num_of (s @ [c]) = 10 * num_of s + (c - 48)"
  by (simp add: num_of_def)

lemma num_of_dec_nat: "num_of (dec_nat n) = n"
proof (induction n rule: dec_nat.induct)
  case (1 n)
  then show ?case by (subst dec_nat.simps) (auto simp: num_of_def)
qed

lemma num_of_zeros: "num_of (replicate k 48 @ s) = num_of s"
  by (induction k) (simp_all add: num_of_def)

lemma zpad_inj: "0 \<le> a \<Longrightarrow> 0 \<le> b \<Longrightarrow> zpad w a = zpad w b \<Longrightarrow> a = b"
proof -
  assume nn: "0 \<le> a" "0 \<le> b" and e: "zpad w a = zpad w b"
  have "num_of (zpad w i) = nat i" if "0 \<le> i" for i
    using that by (simp add: zpad_def Let_def num_of_zeros dec_def num_of_dec_nat)
  with nn e show ?thesis by (metis eq_nat_nat_iff)
qed

lemma dec_nat_digits: "c \<in> set (dec_nat n) \<Longrightarrow> 48 \<le> c \<and> c \<le> 57"
proof (induction n rule: dec_nat.induct)
  case (1 n)
  show ?case
  proof (cases "n < 10")
    case True
    then show ?thesis using "1.prems" by (simp add: dec_nat.simps [of n])
  next
    case False
    have "n mod 10 \<le> 9" by simp
    then show ?thesis using "1.prems" "1.IH" [OF False] False by (auto simp: dec_nat.simps [of n])
  qed
qed

lemma zpad_digits: "0 \<le> i \<Longrightarrow> c \<in> set (zpad w i) \<Longrightarrow> 48 \<le> c \<and> c \<le> 57"
  by (auto simp: zpad_def Let_def dec_def dest: dec_nat_digits)

lemma length_zpad2: "0 \<le> i \<Longrightarrow> i < 100 \<Longrightarrow> length (zpad 2 i) = 2"
proof -
  assume i: "0 \<le> i" "i < 100"
  then have "length (dec_nat (nat i)) \<in> {1, 2}"
    by (auto simp: dec_nat.simps [of "nat i"] dec_nat.simps [of "nat i div 10"])
  then show ?thesis using i by (auto simp: zpad_def Let_def dec_def)
qed

lemma isoformat_inj:
  assumes "0 \<le> n + 719468" "0 \<le> n' + 719468" "isoformat n = isoformat n'"
  shows "n = n'"
proof -
  obtain y m d where c: "civil_of_day n = (y, m, d)" by (cases "civil_of_day n")
  obtain y' m' d' where c': "civil_of_day n' = (y', m', d')" by (cases "civil_of_day n'")
  note b = civil_of_day_md [OF c] civil_of_day_md [OF c']
  have y: "0 \<le> y" "0 \<le> y'" using civil_of_day_year assms c c' by fastforce+
  have l: "length (zpad 2 m) = 2" "length (zpad 2 d) = 2" "length (zpad 2 m') = 2" "length (zpad 2 d') = 2"
    using b by (auto intro!: length_zpad2)
  from assms(3) have e: "(zpad 4 y @ u ''-'' @ zpad 2 m) @ u ''-'' @ zpad 2 d =
      (zpad 4 y' @ u ''-'' @ zpad 2 m') @ u ''-'' @ zpad 2 d'"
    by (simp add: isoformat_def c c')
  then have "zpad 2 d = zpad 2 d'" and e2: "zpad 4 y @ u ''-'' @ zpad 2 m = zpad 4 y' @ u ''-'' @ zpad 2 m'"
    using l by (subst (asm) append_eq_append_conv, simp_all)+
  moreover from e2 have "zpad 2 m = zpad 2 m'" "zpad 4 y = zpad 4 y'"
    using l by (subst (asm) append_eq_append_conv, simp_all)+
  ultimately have "y = y'" "m = m'" "d = d'" using zpad_inj y b by auto
  with c c' show ?thesis using civil_of_day_inj by simp
qed

lemma isoformat_chars:
  assumes "0 \<le> n + 719468" "c \<in> set (isoformat n)"
  shows "c = 45 \<or> (48 \<le> c \<and> c \<le> 57)"
proof -
  obtain y m d where civ: "civil_of_day n = (y, m, d)" by (cases "civil_of_day n")
  have "0 \<le> y" "0 \<le> m" "0 \<le> d"
    using civil_of_day_year [OF assms(1)] civil_of_day_md [OF civ] civ by auto
  moreover have "c \<in> set (zpad 4 y) \<or> c \<in> set (zpad 2 m) \<or> c \<in> set (zpad 2 d) \<or> c = 45"
    using assms(2) by (auto simp: isoformat_def civ u_def)
  ultimately show ?thesis using zpad_digits by blast
qed

lemma day_of_civil_lower: "0 \<le> y \<Longrightarrow> 1 \<le> d \<Longrightarrow> (1 \<le> y \<or> 2 < m) \<Longrightarrow> 0 \<le> day_of_civil y m d + 719468"
proof -
  assume a: "0 \<le> y" "1 \<le> d" "1 \<le> y \<or> 2 < m"
  define y' where "y' = (if m \<le> 2 then y - 1 else y)"
  have "0 \<le> y'" using a by (auto simp: y'_def)
  then have "0 \<le> y' div 400" by (simp add: pos_imp_zdiv_nonneg_iff)
  moreover have "y' mod 400 div 100 \<le> y' mod 400 div 4" "0 \<le> y' mod 400" by auto
  moreover have "0 \<le> (153 * ((m + 9) mod 12) + 2) div 5" by (simp add: pos_imp_zdiv_nonneg_iff)
  ultimately show ?thesis using a
    unfolding day_of_civil_def Let_def y'_def [symmetric] by linarith
qed

lemma make_date_lower: "make_date y m d = Some n \<Longrightarrow> 0 \<le> n + 719468"
  using day_of_civil_lower [of y d m] by (auto simp: make_date_def split: if_splits)

lemma isoweek_date_lower: "isoweek_date y w d = Some n \<Longrightarrow> 0 \<le> n + 719468"
proof -
  assume "isoweek_date y w d = Some n"
  then have "day_of_civil 1 1 1 \<le> n" by (simp only: isoweek_date_def Let_def if_Some_iff) blast
  moreover have "day_of_civil 1 1 1 = -719162" by (simp add: day_of_civil_def)
  ultimately show ?thesis by simp
qed

lemma date_fromisoformat_cases:
  assumes "date_fromisoformat s = Some n"
  shows "(\<exists>y m d. make_date y m d = Some n) \<or> (\<exists>y w d. isoweek_date y w d = Some n)"
  using assms unfolding date_fromisoformat_def Let_def
  by (simp only: option.simps bind_eq_Some_conv split: if_split_asm option.split_asm) blast+

lemma date_fromisoformat_lower: "date_fromisoformat s = Some n \<Longrightarrow> 0 \<le> n + 719468"
  using date_fromisoformat_cases make_date_lower isoweek_date_lower by metis

end
