(* ===== verification/PyJson.thy ===== *)
theory PyJson
  imports Prelude
begin

text \<open>
  \<open>json.dumps(value, ensure_ascii=False, sort_keys=True, separators=(",", ":"))\<close>, the
  canonical form whose digest identifies an observation or a send.
\<close>

definition hex_digit :: "nat \<Rightarrow> nat" where
  [py_eval]: "hex_digit n = (if n < 10 then 48 + n else 87 + n)"

definition json_char :: "nat \<Rightarrow> pystr" where
  [py_eval]: "json_char c =
     (if c = 34 then [92, 34]
      else if c = 92 then [92, 92]
      else if c = 10 then [92, 110]
      else if c = 13 then [92, 114]
      else if c = 9 then [92, 116]
      else if c = 8 then [92, 98]
      else if c = 12 then [92, 102]
      else if c < 32 then [92, 117, 48, 48, hex_digit (c div 16), hex_digit (c mod 16)]
      else [c])"

definition json_string :: "pystr \<Rightarrow> pystr" where
  [py_eval]: "json_string s = [34] @ concat (map json_char s) @ [34]"

text \<open>\<open>sort_keys\<close> orders every object by key.\<close>

fun json_dumps :: "pyenv \<Rightarrow> pyval \<Rightarrow> pystr" where
  "json_dumps E PNone = u ''null''"
| "json_dumps E (PBool b) = (if b then u ''true'' else u ''false'')"
| "json_dumps E (PInt i) = dec i"
| "json_dumps E (PFloat r) = py_repr E (PFloat r)"
| "json_dumps E (PStr s) = json_string s"
| "json_dumps E (PList xs) = [91] @ join [44] (map (json_dumps E) xs) @ [93]"
| "json_dumps E (PDict kvs) =
     [123] @ join [44] (map (\<lambda>(k, t). json_string k @ [58] @ t)
       (sort_key fst (map (\<lambda>(k, v). (k, json_dumps E v)) kvs))) @ [125]"

text \<open>
  Strings: the escaped form can be read back, so the canonical form of two different strings
  differs. \<open>read_string\<close> reads up to the closing quote.
\<close>

fun unescape :: "pystr \<Rightarrow> (pystr \<times> pystr) option" where
  "unescape [] = None"
| "unescape (c # cs) =
     (if c = 34 then Some ([], cs)
      else if c = 92 then
        (case cs of
           e # ds \<Rightarrow>
             (if e = 117 then
                (case ds of
                   _ # _ # h # l # rest \<Rightarrow>
                     map_option (map_prod ((#) ((if h < 58 then h - 48 else h - 87) * 16
                       + (if l < 58 then l - 48 else l - 87))) id) (unescape rest)
                 | _ \<Rightarrow> None)
              else map_option (map_prod ((#)
                (if e = 110 then 10 else if e = 114 then 13 else if e = 116 then 9
                 else if e = 98 then 8 else if e = 102 then 12 else e)) id) (unescape ds))
         | [] \<Rightarrow> None)
      else map_option (map_prod ((#) c) id) (unescape cs))"

lemma hex_digit_back:
  assumes "n < 16"
  shows "(if hex_digit n < 58 then hex_digit n - 48 else hex_digit n - 87) = n"
  using assms by (auto simp: hex_digit_def)

lemma unescape_json_char: "unescape (json_char c @ rest) = map_option (map_prod ((#) c) id) (unescape rest)"
proof -
  consider "c \<in> {34, 92, 10, 13, 9, 8, 12}" | "c < 32" "c \<notin> {10, 13, 9, 8, 12}" | "32 \<le> c" "c \<notin> {34, 92}"
    by fastforce
  then show ?thesis
  proof cases
    case 2
    then have hi: "c div 16 < 16" and lo: "c mod 16 < 16" by simp_all
    have "unescape (json_char c @ rest) =
      map_option (map_prod ((#) ((c div 16) * 16 + c mod 16)) id) (unescape rest)"
      using 2 hex_digit_back [OF hi] hex_digit_back [OF lo] by (auto simp: json_char_def)
    then show ?thesis by simp
  qed (auto simp: json_char_def)
qed

lemma unescape_json_string: "unescape (concat (map json_char s) @ [34] @ rest) = Some (s, rest)"
proof (induction s)
  case Nil
  then show ?case by simp
next
  case (Cons c s)
  then show ?case using unescape_json_char [of c "concat (map json_char s) @ [34] @ rest"] by simp
qed

lemma json_string_inj: "json_string s @ r = json_string t @ r' \<Longrightarrow> s = t \<and> r = r'"
  using unescape_json_string [of s r] unescape_json_string [of t r'] by (simp add: json_string_def)

end
