(* ===== verification/Domain.thy ===== *)
theory Domain
  imports PyDate PyJson
begin

text \<open>
  The value types and pure rules of \<open>host_core/domain.py\<close>: the venue catalogue, e-mail
  addresses, times of day, weekday masks, subscription input, court slots and observations,
  event keys, digests and term codes.
\<close>

section \<open>Catalogue and constants\<close>

record venue =
  v_id :: pystr
  v_name :: pystr
  v_wechat_name :: pystr
  v_dag_id :: pystr

definition VENUE_CATALOG :: "venue list" where
  "VENUE_CATALOG =
    [\<lparr>v_id = u ''szw'', v_name = [28145, 22323, 28286], v_wechat_name = [28145, 22323, 28286, 32593, 29699, 22330],
       v_dag_id = [28145, 22323, 28286, 32593, 29699, 22330, 24033, 26816]\<rparr>,
     \<lparr>v_id = u ''gba'', v_name = [22823, 28286, 21306, 32593, 29699, 22330], v_wechat_name = [22823, 28286, 21306, 32593, 29699, 22330],
       v_dag_id = [22823, 28286, 21306, 32593, 29699, 22330, 24033, 26816]\<rparr>,
     \<lparr>v_id = u ''dsh_free'', v_name = [22823, 27801, 27827, 20813, 36153, 22330], v_wechat_name = [22823, 27801, 27827, 20813, 36153, 22330],
       v_dag_id = [22823, 27801, 27827, 20813, 36153, 22330, 24033, 26816]\<rparr>,
     \<lparr>v_id = u ''dsh'', v_name = [22823, 27801, 27827, 22269, 38469, 32593, 29699, 20013, 24515], v_wechat_name = [22823, 27801, 27827, 22269, 38469, 32593, 29699, 20013, 24515],
       v_dag_id = [22823, 27801, 27827, 22269, 38469, 32593, 29699, 20013, 24515, 24033, 26816]\<rparr>,
     \<lparr>v_id = u ''sysh'', v_name = [19978, 36234, 27801, 27827], v_wechat_name = [19978, 36234, 27801, 27827, 32593, 29699, 22330],
       v_dag_id = [19978, 36234, 27801, 27827, 32593, 29699, 22330, 24033, 26816]\<rparr>,
     \<lparr>v_id = u ''tops'', v_name = u ''TOPS '' @ [31185, 25216, 22253], v_wechat_name = u ''TOPS'' @ [31185, 25216, 22253, 32593, 29699, 22330],
       v_dag_id = u ''TOPS'' @ [31185, 25216, 22253, 32593, 29699, 22330, 24033, 26816]\<rparr>,
     \<lparr>v_id = u ''fsb'', v_name = [27867, 24605, 21338, 29305, 31119, 20013, 31119], v_wechat_name = [27867, 24605, 21338, 29305, 31119, 20013, 31119, 32593, 29699, 22330],
       v_dag_id = [27867, 24605, 21338, 29305, 31119, 20013, 31119, 32593, 29699, 22330, 24033, 26816]\<rparr>,
     \<lparr>v_id = u ''fsb_shenyun'', v_name = [27867, 24605, 21338, 29305, 28145, 20113], v_wechat_name = [27867, 24605, 21338, 29305, 28145, 20113, 32593, 29699, 22330],
       v_dag_id = [27867, 24605, 21338, 29305, 28145, 20113, 32593, 29699, 22330, 24033, 26816]\<rparr>,
     \<lparr>v_id = u ''fsb_shekou'', v_name = [27867, 24605, 21338, 29305, 34503, 21475], v_wechat_name = [27867, 24605, 21338, 29305, 34503, 21475, 32593, 29699, 22330],
       v_dag_id = [27867, 24605, 21338, 29305, 34503, 21475, 32593, 29699, 22330, 24033, 26816]\<rparr>,
     \<lparr>v_id = u ''fsb_xinan'', v_name = [27867, 24605, 21338, 29305, 26032, 23433], v_wechat_name = [27867, 24605, 21338, 29305, 26032, 23433, 32593, 29699, 22330],
       v_dag_id = [27867, 24605, 21338, 29305, 26032, 23433, 32593, 29699, 22330, 24033, 26816]\<rparr>,
     \<lparr>v_id = u ''fsb_zhengzhong'', v_name = [27867, 24605, 21338, 29305, 27491, 20013], v_wechat_name = [27867, 24605, 21338, 29305, 27491, 20013, 32593, 29699, 22330],
       v_dag_id = [27867, 24605, 21338, 29305, 27491, 20013, 32593, 29699, 22330, 24033, 26816]\<rparr>,
     \<lparr>v_id = u ''fsb_atuoshan'', v_name = [27867, 24605, 21338, 29305, 23433, 25176, 23665], v_wechat_name = [27867, 24605, 21338, 29305, 23433, 25176, 23665, 32593, 29699, 22330],
       v_dag_id = [27867, 24605, 21338, 29305, 23433, 25176, 23665, 32593, 29699, 22330, 24033, 26816]\<rparr>,
     \<lparr>v_id = u ''fsb_zonglvquan'', v_name = [27867, 24605, 21338, 29305, 26837, 27016, 27849], v_wechat_name = [27867, 24605, 21338, 29305, 26837, 27016, 27849, 32593, 29699, 22330],
       v_dag_id = [27867, 24605, 21338, 29305, 26837, 27016, 27849, 32593, 29699, 22330, 24033, 26816]\<rparr>,
     \<lparr>v_id = u ''fsb_guanhu'', v_name = [27867, 24605, 21338, 29305, 35266, 28246], v_wechat_name = [27867, 24605, 21338, 29305, 35266, 28246, 32593, 29699, 22330],
       v_dag_id = [27867, 24605, 21338, 29305, 35266, 28246, 32593, 29699, 22330, 24033, 26816]\<rparr>,
     \<lparr>v_id = u ''fsb_bantian'', v_name = [27867, 24605, 21338, 29305, 22338, 30000], v_wechat_name = [27867, 24605, 21338, 29305, 22338, 30000, 32593, 29699, 22330],
       v_dag_id = [27867, 24605, 21338, 29305, 22338, 30000, 32593, 29699, 22330, 24033, 26816]\<rparr>,
     \<lparr>v_id = u ''fsb_shahe'', v_name = [27867, 24605, 21338, 29305, 27801, 27827], v_wechat_name = [27867, 24605, 21338, 29305, 27801, 27827, 32593, 29699, 22330],
       v_dag_id = [27867, 24605, 21338, 29305, 27801, 27827, 32593, 29699, 22330, 24033, 26816]\<rparr>,
     \<lparr>v_id = u ''fsb_baoshui'', v_name = [27867, 24605, 21338, 29305, 20445, 31246], v_wechat_name = [27867, 24605, 21338, 29305, 20445, 31246, 32593, 29699, 22330],
       v_dag_id = [27867, 24605, 21338, 29305, 20445, 31246, 32593, 29699, 22330, 24033, 26816]\<rparr>,
     \<lparr>v_id = u ''fsb_nanyou'', v_name = [27867, 24605, 21338, 29305, 21335, 27833], v_wechat_name = [27867, 24605, 21338, 29305, 21335, 27833, 32593, 29699, 22330],
       v_dag_id = [27867, 24605, 21338, 29305, 21335, 27833, 32593, 29699, 22330, 24033, 26816]\<rparr>,
     \<lparr>v_id = u ''fsb_xinqiao'', v_name = [27867, 24605, 21338, 29305, 26032, 26725], v_wechat_name = [27867, 24605, 21338, 29305, 26032, 26725, 32593, 29699, 22330],
       v_dag_id = [27867, 24605, 21338, 29305, 26032, 26725, 32593, 29699, 22330, 24033, 26816]\<rparr>,
     \<lparr>v_id = u ''fsb_yifangcheng'', v_name = [27867, 24605, 21338, 29305, 22777, 26041, 22478], v_wechat_name = [27867, 24605, 21338, 29305, 22777, 26041, 22478, 32593, 29699, 22330],
       v_dag_id = [27867, 24605, 21338, 29305, 22777, 26041, 22478, 32593, 29699, 22330, 24033, 26816]\<rparr>,
     \<lparr>v_id = u ''fsb_qilin'', v_name = [27867, 24605, 21338, 29305, 40594, 40607], v_wechat_name = [27867, 24605, 21338, 29305, 40594, 40607, 32593, 29699, 22330],
       v_dag_id = [27867, 24605, 21338, 29305, 40594, 40607, 32593, 29699, 22330, 24033, 26816]\<rparr>,
     \<lparr>v_id = u ''fsb_maozhouhe'', v_name = [27867, 24605, 21338, 29305, 33541, 27954, 27827], v_wechat_name = [27867, 24605, 21338, 29305, 33541, 27954, 27827, 32593, 29699, 22330],
       v_dag_id = [27867, 24605, 21338, 29305, 33541, 27954, 27827, 32593, 29699, 22330, 24033, 26816]\<rparr>,
     \<lparr>v_id = u ''fft_qianhai'', v_name = u ''FFTENNIS'' @ [21069, 28023, 22269, 38469, 32593, 29699, 20013, 24515], v_wechat_name = u ''FFTENNIS'' @ [21069, 28023, 22269, 38469, 32593, 29699, 20013, 24515],
       v_dag_id = u ''FFTENNIS'' @ [21069, 28023, 22269, 38469, 32593, 29699, 20013, 24515, 24033, 26816]\<rparr>,
     \<lparr>v_id = u ''ppba'', v_name = u ''PICKLE POP'' @ [23453, 23433], v_wechat_name = u ''PICKLEPOP'' @ [23453, 23433, 32593, 29699, 22330],
       v_dag_id = u ''PICKLEPOP'' @ [23453, 23433, 32593, 29699, 22330, 24033, 26816]\<rparr>,
     \<lparr>v_id = u ''tyzx'', v_name = [28145, 22323, 24066, 20307, 32946, 20013, 24515], v_wechat_name = [28145, 22323, 24066, 20307, 32946, 20013, 24515, 32593, 29699, 22330],
       v_dag_id = [28145, 22323, 24066, 20307, 32946, 20013, 24515, 32593, 29699, 22330, 24033, 26816]\<rparr>,
     \<lparr>v_id = u ''jdwx'', v_name = [37329, 22320, 23041, 26032], v_wechat_name = [37329, 22320, 23041, 26032, 32593, 29699, 22330],
       v_dag_id = [28145, 22323, 37329, 22320, 32593, 29699, 22330, 24033, 26816]\<rparr>,
     \<lparr>v_id = u ''swjj'', v_name = [28145, 28286, 31454, 30028], v_wechat_name = [28145, 28286, 31454, 30028, 32593, 29699, 22330],
       v_dag_id = [28145, 28286, 31454, 30028, 32593, 29699, 22330, 24033, 26816]\<rparr>]"

definition VENUES :: "(pystr \<times> pystr) list" where
  "VENUES = map (\<lambda>v. (v_id v, v_name v)) VENUE_CATALOG"

definition RETIRED_VENUES :: "(pystr \<times> pystr) list" where
  "RETIRED_VENUES = [(u ''baoti'', [23453, 23433, 32593, 29699, 20013, 24515])]"

definition DURABLE_VENUES :: "(pystr \<times> pystr) list" where
  "DURABLE_VENUES = VENUES @ RETIRED_VENUES"

definition is_venue :: "pystr \<Rightarrow> bool" where
  "is_venue v \<longleftrightarrow> v \<in> set (map fst VENUES)"

definition STANDARD_TERMS :: "pystr list" where
  "STANDARD_TERMS = map (\<lambda>n. dec n @ u ''d'') [7, 8, 9, 10, 11, 12, 13, 14]"

definition PRIORITY_TERMS :: "pystr list" where
  "PRIORITY_TERMS = STANDARD_TERMS @ [u ''30d'', u ''90d'', u ''180d'', u ''long_term'']"

definition TERM_DAYS :: "(pystr \<times> int) list" where
  "TERM_DAYS = [(u ''7d'', 7), (u ''8d'', 8), (u ''9d'', 9), (u ''10d'', 10), (u ''11d'', 11),
     (u ''12d'', 12), (u ''13d'', 13), (u ''14d'', 14), (u ''30d'', 30), (u ''90d'', 90), (u ''180d'', 180)]"

definition ALL_WEEKDAY_MASK :: int where
  [py_eval]: "ALL_WEEKDAY_MASK = 127"

definition LONG_TERM_LEASE_DAYS :: int where
  [py_eval]: "LONG_TERM_LEASE_DAYS = 90"

lemmas catalog_defs = VENUE_CATALOG_def VENUES_def RETIRED_VENUES_def DURABLE_VENUES_def is_venue_def

section \<open>Errors and records\<close>

text \<open>One constructor per message of the \<open>ValueError\<close>s the module raises.\<close>

datatype value_error =
    InvalidEmail | UnpackError | InvalidTime | NoWeekday | InvalidWeekday | InvalidSubscription
  | NoVenue | InvalidVenue | EndBeforeStart | PriorityTermOnly | InvalidTerm | InvalidSlot
  | InvalidSlotTimes | EmptyDigest | InvalidInvite | CatalogMismatch | DateOverflow

type_synonym 'a result = "value_error + 'a"

record slot_observation =
  booking_date :: pydate
  court_name :: pystr
  start_time :: pystr
  end_time :: pystr

record venue_observation =
  vo_venue_id :: pystr
  vo_venue_name :: pystr
  vo_scope :: pystr
  vo_healthy :: bool
  vo_checked_at :: instant
  vo_error :: "pystr option"
  vo_slots :: "slot_observation list"

record subscription_input =
  si_venue_ids :: "pystr list"
  si_weekdays :: "int list"
  si_start_time :: pystr
  si_end_time :: pystr
  si_term_code :: pystr

record resolved_term =
  rt_term_code :: pystr
  rt_duration_days :: int
  rt_auto_renew :: bool
  rt_active_until :: instant

section \<open>Dictionaries\<close>

text \<open>
  A Python dict built from a sequence of pairs: a repeated key keeps its place and takes the
  last value.
\<close>

fun dict_put :: "'k \<Rightarrow> 'v \<Rightarrow> ('k \<times> 'v) list \<Rightarrow> ('k \<times> 'v) list" where
  "dict_put k v [] = [(k, v)]"
| "dict_put k v ((k', v') # d) = (if k = k' then (k, v) # d else (k', v') # dict_put k v d)"

definition dict_of :: "('k \<times> 'v) list \<Rightarrow> ('k \<times> 'v) list" where
  [py_eval]: "dict_of kvs = foldl (\<lambda>d kv. dict_put (fst kv) (snd kv) d) [] kvs"

text \<open>\<open>list(dict.fromkeys(xs))\<close>: the first occurrence of every element, in order.\<close>

fun dedupe :: "'a list \<Rightarrow> 'a list" where
  "dedupe [] = []"
| "dedupe (x # xs) = x # dedupe (filter (\<lambda>y. y \<noteq> x) xs)"

section \<open>Venue status rows\<close>

text \<open>\<open>active_venue_status\<close> over rows of any type, given their venue id.\<close>

definition active_venue_status :: "('r \<Rightarrow> pystr) \<Rightarrow> 'r list \<Rightarrow> 'r list result" where
  "active_venue_status vid rows =
     (let identifiers = map vid rows in
      if \<not> distinct identifiers
         \<or> \<not> set identifiers \<subseteq> set (map fst DURABLE_VENUES)
         \<or> \<not> set (map fst VENUES) \<subseteq> set identifiers
      then Inl CatalogMismatch
      else Inr (filter (\<lambda>r. is_venue (vid r)) rows))"

section \<open>E-mail addresses\<close>

text \<open>\<open>EMAIL_PATTERN\<close>: one at-sign, no whitespace, and a dot inside the domain.\<close>

definition email_match :: "pystr \<Rightarrow> bool" where
  [py_eval]: "email_match s \<longleftrightarrow>
     (let local = takeWhile (\<lambda>c. c \<noteq> 64) s; domain = drop (Suc (length local)) s in
      64 \<in> set s \<and> local \<noteq> [] \<and> 64 \<notin> set domain \<and> \<not> list_ex is_space s
      \<and> list_ex (\<lambda>i. domain ! i = 46) [1..<length domain - 1])"

definition normalize_email :: "pyenv \<Rightarrow> pyval \<Rightarrow> pystr result" where
  "normalize_email E v =
     (let email = py_lower E (strip (str_or_empty E v)) in
      if 254 < length email \<or> \<not> email_match email then Inl InvalidEmail else Inr email)"

definition mask_email :: "pystr \<Rightarrow> pystr result" where
  "mask_email email =
     (case partition_at 64 email of (local, found, domain) \<Rightarrow>
        if \<not> found then Inl UnpackError
        else let visible_length = (if 1 < length local then min 2 (length local) else length local) in
          Inr (take visible_length local @ replicate (max 3 (length local - visible_length)) 42
               @ u ''@'' @ domain))"

section \<open>Times of day\<close>

definition time_match :: "pystr \<Rightarrow> bool" where
  [py_eval]: "time_match s \<longleftrightarrow>
     (case s of
        [a, b, c, d, e] \<Rightarrow>
          ((a \<in> {48, 49} \<and> is_digit b) \<or> (a = 50 \<and> 48 \<le> b \<and> b \<le> 51))
          \<and> c = 58 \<and> 48 \<le> d \<and> d \<le> 53 \<and> is_digit e
      | _ \<Rightarrow> False)"

definition parse_time_str :: "pystr \<Rightarrow> int result" where
  [py_eval]: "parse_time_str s =
     (if \<not> time_match s then Inl InvalidTime
      else case partition_at 58 s of (h, _, m) \<Rightarrow>
        (case (py_int_of_str h, py_int_of_str m) of
           (Some hour, Some minute) \<Rightarrow> Inr (hour * 60 + minute)
         | _ \<Rightarrow> Inl InvalidTime))"

definition parse_time :: "pyenv \<Rightarrow> pyval \<Rightarrow> int result" where
  [py_eval]: "parse_time E v = parse_time_str (str_or_empty E v)"

section \<open>Weekdays\<close>

definition weekday_item :: "pyval \<Rightarrow> int result" where
  "weekday_item v =
     (case v of
        PInt i \<Rightarrow> Inr i
      | PStr s \<Rightarrow> (case py_int_of_str s of Some i \<Rightarrow> Inr i | None \<Rightarrow> Inl InvalidWeekday)
      | _ \<Rightarrow> Inl InvalidWeekday)"

definition normalize_weekdays :: "pyval \<Rightarrow> int list result" where
  "normalize_weekdays v =
     (case v of
        PNone \<Rightarrow> Inr [1, 2, 3, 4, 5, 6, 7]
      | PList items \<Rightarrow>
          ebind (emap weekday_item items) (\<lambda>parsed.
            let weekdays = sort (remdups parsed) in
            if weekdays = [] \<or> list_ex (\<lambda>i. i < 1 \<or> 7 < i) weekdays then Inl InvalidWeekday
            else Inr weekdays)
      | _ \<Rightarrow> Inl NoWeekday)"

fun mask_loop :: "int \<Rightarrow> int list \<Rightarrow> int result" where
  "mask_loop m [] = (if m = 0 then Inl NoWeekday else Inr m)"
| "mask_loop m (w # ws) =
     (if w < 1 \<or> 7 < w then Inl InvalidWeekday
      else mask_loop (m OR push_bit (nat (w - 1)) 1) ws)"

definition weekday_mask :: "int list \<Rightarrow> int result" where
  "weekday_mask ws = mask_loop 0 ws"

definition weekday_in_mask :: "int \<Rightarrow> int \<Rightarrow> bool" where
  [py_eval]: "weekday_in_mask m w \<longleftrightarrow> m AND push_bit (nat (w - 1)) 1 \<noteq> 0"

definition weekdays_from_mask :: "pyval \<Rightarrow> int list" where
  "weekdays_from_mask v =
     (let raw = (case v of
                   PInt i \<Rightarrow> i
                 | PStr s \<Rightarrow> (case py_int_of_str s of Some i \<Rightarrow> i | None \<Rightarrow> ALL_WEEKDAY_MASK)
                 | _ \<Rightarrow> ALL_WEEKDAY_MASK);
          m = (if raw < 1 \<or> ALL_WEEKDAY_MASK < raw then ALL_WEEKDAY_MASK else raw)
      in filter (weekday_in_mask m) [1, 2, 3, 4, 5, 6, 7])"

section \<open>Digest text\<close>

definition SUBSCRIBER_DIGEST_NOTE :: pystr where
  "SUBSCRIBER_DIGEST_NOTE =
     [36825, 20123, 31354, 22330, 19982, 20320, 35746, 38405, 30340, 25171, 29699, 26102, 38388,
      27573, 26377, 20132, 21472, 12290, 24494, 20449, 32676, 28040, 24687, 20173, 25353, 22330,
      22320, 21457, 36865, 65292, 19981, 25353, 20010, 20154, 26102, 27573, 36807, 28388, 12290]"

definition with_subscriber_digest_note :: "pystr \<Rightarrow> pystr" where
  "with_subscriber_digest_note body =
     (if contains body SUBSCRIBER_DIGEST_NOTE then body
      else body @ [10, 10] @ SUBSCRIBER_DIGEST_NOTE)"

section \<open>Subscriptions and terms\<close>

text \<open>\<open>int(x)\<close> of a decoded value; \<open>None\<close> where it raises TypeError or ValueError.\<close>

definition py_int :: "pyval \<Rightarrow> int option" where
  [py_eval]: "py_int v =
     (case v of
        PInt i \<Rightarrow> Some i
      | PBool b \<Rightarrow> Some (if b then 1 else 0)
      | PFloat r \<Rightarrow> Some (if r < 0 then - \<lfloor>- r\<rfloor> else \<lfloor>r\<rfloor>)
      | PStr s \<Rightarrow> py_int_of_str s
      | _ \<Rightarrow> None)"

text \<open>\<open>value.get(first, value.get(second))\<close>: the second key only counts when the first is absent.\<close>

definition dget2 :: "(pystr \<times> pyval) list \<Rightarrow> pystr \<Rightarrow> pystr \<Rightarrow> pyval" where
  [py_eval]: "dget2 d k k' = (case map_of d k of Some v \<Rightarrow> v | None \<Rightarrow> dget d k')"

definition raw_term_code :: "pyenv \<Rightarrow> (pystr \<times> pyval) list \<Rightarrow> pystr" where
  [py_eval]: "raw_term_code E d =
     (let raw = py_lower E (strip (str_or_empty E (dget d (u ''termCode'')))) in
      if raw \<noteq> [] then raw
      else case py_int (py_or (dget d (u ''durationDays'')) (PInt 7)) of
        Some n \<Rightarrow> dec n @ u ''d'' | None \<Rightarrow> u ''7d'')"

definition validate_subscription :: "pyenv \<Rightarrow> pyval \<Rightarrow> bool \<Rightarrow> subscription_input result" where
  "validate_subscription E v priority =
     (case v of
        PDict d \<Rightarrow>
          (case dget d (u ''venueIds'') of
             PList raw_venues \<Rightarrow>
               (let venue_ids = sort (remdups (map (\<lambda>item. strip (py_str E item)) raw_venues)) in
                if venue_ids = [] \<or> length venue_ids \<noteq> length raw_venues
                   \<or> list_ex (\<lambda>v. \<not> is_venue v) venue_ids
                then Inl InvalidVenue
                else
                  let start = str_or_empty E (dget2 d (u ''startTime'') (u ''start_time''));
                      fin = str_or_empty E (dget2 d (u ''endTime'') (u ''end_time''))
                  in ebind (parse_time_str start) (\<lambda>s. ebind (parse_time_str fin) (\<lambda>e.
                       if s \<ge> e then Inl EndBeforeStart
                       else ebind (normalize_weekdays (dget d (u ''weekdays''))) (\<lambda>weekdays.
                         let raw_term = raw_term_code E d in
                         if raw_term \<notin> set (if priority then PRIORITY_TERMS else STANDARD_TERMS)
                         then Inl (if raw_term \<in> set PRIORITY_TERMS then PriorityTermOnly else InvalidTerm)
                         else Inr \<lparr>si_venue_ids = venue_ids, si_weekdays = weekdays,
                           si_start_time = start, si_end_time = fin, si_term_code = raw_term\<rparr>))))
           | _ \<Rightarrow> Inl NoVenue)
      | _ \<Rightarrow> Inl InvalidSubscription)"

definition resolve_term :: "pystr \<Rightarrow> instant \<Rightarrow> resolved_term result" where
  "resolve_term term_code now =
     (if term_code = u ''long_term''
      then Inr \<lparr>rt_term_code = term_code, rt_duration_days = 0, rt_auto_renew = True,
             rt_active_until = now + days LONG_TERM_LEASE_DAYS\<rparr>
      else case map_of TERM_DAYS term_code of
        None \<Rightarrow> Inl InvalidTerm
      | Some n \<Rightarrow> Inr \<lparr>rt_term_code = term_code, rt_duration_days = n, rt_auto_renew = False,
             rt_active_until = now + days n\<rparr>)"

section \<open>Slots and observations\<close>

definition text_field :: "pyenv \<Rightarrow> (pystr \<times> pyval) list \<Rightarrow> pystr \<Rightarrow> pystr \<Rightarrow> pystr" where
  [py_eval]: "text_field E d k k' = str_or_empty E (py_or (dget d k) (dget d k'))"

definition validate_slot :: "pyenv \<Rightarrow> pyval \<Rightarrow> slot_observation result" where
  "validate_slot E v =
     (case v of
        PDict d \<Rightarrow>
          (let raw_date = str_or_empty E (dget d (u ''date''));
               court = strip (text_field E d (u ''court_name'') (u ''courtName''));
               start = text_field E d (u ''start_time'') (u ''startTime'');
               fin = text_field E d (u ''end_time'') (u ''endTime'')
           in case date_fromisoformat raw_date of
                None \<Rightarrow> Inl InvalidSlot
              | Some day \<Rightarrow>
                  if court = [] \<or> 100 < length court then Inl InvalidSlot
                  else ebind (parse_time_str start) (\<lambda>s. ebind (parse_time_str fin) (\<lambda>e.
                    if s \<ge> e then Inl InvalidSlotTimes
                    else Inr \<lparr>booking_date = day, court_name = court, start_time = start,
                               end_time = fin\<rparr>)))
      | _ \<Rightarrow> Inl InvalidSlot)"

text \<open>The text whose hash is the key of a slot.\<close>

definition slot_identity :: "pystr \<Rightarrow> slot_observation \<Rightarrow> pystr" where
  "slot_identity venue_id s = join (u ''|'') [venue_id, isoformat (booking_date s), court_name s, start_time s, end_time s]"

definition slot_event_key :: "pyenv \<Rightarrow> pystr \<Rightarrow> slot_observation \<Rightarrow> pystr" where
  "slot_event_key E venue_id s = sha256_hex E (slot_identity venue_id s)"

text \<open>\<open>str(raw).replace("Z", "+00:00")\<close>.\<close>

definition replace_zulu :: "pystr \<Rightarrow> pystr" where
  [py_eval]: "replace_zulu s = concat (map (\<lambda>c. if c = 90 then u ''+00:00'' else [c]) s)"

text \<open>The instant of \<open>checked_at\<close>: the current time when it does not parse.\<close>

definition checked_instant :: "pyenv \<Rightarrow> pyval \<Rightarrow> instant \<Rightarrow> instant result" where
  [py_eval]: "checked_instant E raw now =
     (case datetime_fromisoformat (replace_zulu (py_str E raw)) of
        None \<Rightarrow> Inr now
      | Some p \<Rightarrow> if instant_of p < min_instant \<or> max_instant < instant_of p then Inl DateOverflow
                  else Inr (instant_of p))"

definition unique_slots :: "pyenv \<Rightarrow> pystr \<Rightarrow> slot_observation list \<Rightarrow> slot_observation list" where
  "unique_slots E venue_id slots =
     (let by_key = dict_of (map (\<lambda>s. (slot_event_key E venue_id s, s)) slots)
      in map snd (sort_key fst by_key))"

definition nonempty :: "pystr \<Rightarrow> pystr option" where
  [py_eval]: "nonempty s = (if s = [] then None else Some s)"

definition validate_observation :: "pyenv \<Rightarrow> pyval \<Rightarrow> instant \<Rightarrow> venue_observation result" where
  "validate_observation E v now =
     (case v of
        PDict d \<Rightarrow>
          (let venue_id = strip (text_field E d (u ''venue_id'') (u ''venueId'')) in
           case map_of VENUES venue_id of
             None \<Rightarrow> Inl InvalidSlot
           | Some default_name \<Rightarrow>
               let venue_name = strip (py_str E (py_or (dget d (u ''venue_name''))
                     (py_or (dget d (u ''venueName'')) (PStr default_name))));
                   scope = take 120 (strip (py_str E (py_or (dget d (u ''observation_scope''))
                     (py_or (dget d (u ''observationScope'')) (PStr (u ''default''))))));
                   healthy = (dget d (u ''healthy'') = PBool True)
               in ebind (case dget d (u ''slots'') of
                           PList raw_slots \<Rightarrow> emap (validate_slot E) raw_slots
                         | _ \<Rightarrow> Inr []) (\<lambda>slots.
                    ebind (checked_instant E (py_or (dget d (u ''checked_at'')) (dget d (u ''checkedAt''))) now)
                    (\<lambda>checked_at.
                      Inr \<lparr>vo_venue_id = venue_id, vo_venue_name = take 100 venue_name,
                        vo_scope = (if scope = [] then u ''default'' else scope),
                        vo_healthy = healthy, vo_checked_at = checked_at,
                        vo_error = nonempty (take 300 (strip (str_or_empty E (dget d (u ''error''))))),
                        vo_slots = unique_slots E venue_id slots\<rparr>)))
      | _ \<Rightarrow> Inl InvalidSlot)"

definition as_public_dict :: "slot_observation \<Rightarrow> pyval" where
  [py_eval]: "as_public_dict s = PDict [(u ''date'', PStr (isoformat (booking_date s))),
     (u ''court_name'', PStr (court_name s)), (u ''start_time'', PStr (start_time s)),
     (u ''end_time'', PStr (end_time s))]"

definition observation_fingerprint :: "pyenv \<Rightarrow> venue_observation \<Rightarrow> pystr" where
  "observation_fingerprint E ob = sha256_hex E (json_dumps E (PDict
     [(u ''venue_id'', PStr (vo_venue_id ob)), (u ''venue_name'', PStr (vo_venue_name ob)),
      (u ''scope'', PStr (vo_scope ob)), (u ''healthy'', PBool (vo_healthy ob)),
      (u ''error'', case vo_error ob of None \<Rightarrow> PNone | Some e \<Rightarrow> PStr e),
      (u ''slots'', PList (map as_public_dict (vo_slots ob)))]))"

definition slot_matches :: "slot_observation \<Rightarrow> int \<Rightarrow> pystr \<Rightarrow> pystr \<Rightarrow> bool result" where
  "slot_matches s mask_value sub_start sub_end =
     (if \<not> weekday_in_mask mask_value (isoweekday (booking_date s)) then Inr False
      else ebind (parse_time_str (start_time s)) (\<lambda>ss. ebind (parse_time_str sub_end) (\<lambda>e.
        if \<not> ss < e then Inr False
        else ebind (parse_time_str (end_time s)) (\<lambda>se. ebind (parse_time_str sub_start) (\<lambda>st.
          Inr (se > st))))))"

section \<open>Lines and digests\<close>

definition WEEKDAY_NAMES :: pystr where
  [py_eval]: "WEEKDAY_NAMES = [19968, 20108, 19977, 22235, 20116, 20845, 26085]"

definition format_slot_line :: "pystr \<Rightarrow> slot_observation \<Rightarrow> pystr" where
  "format_slot_line venue_name s =
     (let weekday = WEEKDAY_NAMES ! nat (isoweekday (booking_date s) - 1);
          location = (if startswith (court_name s) venue_name then court_name s
                      else venue_name @ court_name s)
      in location @ u '' '' @ month_day (booking_date s) @ u '' '' @ [26143, 26399, weekday] @ u '' ''
         @ start_time s @ u ''-'' @ end_time s)"

definition format_digest :: "pystr list \<Rightarrow> (pystr \<times> pystr) result" where
  "format_digest lines =
     (case dedupe (filter (\<lambda>l. l \<noteq> []) (map strip lines)) of
        [] \<Rightarrow> Inl EmptyDigest
      | x # xs \<Rightarrow>
          Inr ((if xs = [] then x
                else x @ u '' '' @ [31561] @ u '' '' @ dec (int (Suc (length xs))) @ u '' '' @ [20010, 26102, 27573]),
               join [10] (x # xs)))"

definition subscription_dedupe_key ::
    "pyenv \<Rightarrow> pystr \<Rightarrow> pystr list \<Rightarrow> pystr \<Rightarrow> pystr \<Rightarrow> int \<Rightarrow> pystr" where
  "subscription_dedupe_key E email venue_ids start fin mask_value =
     sha256_hex E (join (u ''|'') [email, join (u '','') (sort venue_ids), start, fin, dec mask_value])"

definition hash_verification_code :: "pyenv \<Rightarrow> pystr \<Rightarrow> pystr \<Rightarrow> pystr \<Rightarrow> pystr" where
  "hash_verification_code E challenge_id code pepper =
     sha256_hex E (challenge_id @ u '':'' @ code @ u '':'' @ pepper)"

text \<open>\<open>random_verification_code\<close>, from the number \<open>secrets.randbelow(1_000_000)\<close> draws.\<close>

definition random_verification_code :: "nat \<Rightarrow> pystr" where
  "random_verification_code n = zpad 6 (int (n mod 1000000))"

definition constant_time_equal :: "pystr \<Rightarrow> pystr \<Rightarrow> bool" where
  "constant_time_equal l r \<longleftrightarrow> l = r"

section \<open>Weekday masks\<close>

lemma weekday_in_mask_bit: "1 \<le> w \<Longrightarrow> weekday_in_mask m w \<longleftrightarrow> bit m (nat (w - 1))"
  by (simp add: weekday_in_mask_def bit_iff_and_push_bit_not_eq_0)

lemma mask_loop_bits:
  "mask_loop m ws = Inr r \<Longrightarrow> (\<forall>w \<in> set ws. 1 \<le> w \<and> w \<le> 7) \<and> r \<noteq> 0 \<and>
     (\<forall>i. bit r i \<longleftrightarrow> bit m i \<or> int (Suc i) \<in> set ws)"
proof (induction ws arbitrary: m)
  case Nil
  then show ?case by (auto split: if_splits)
next
  case (Cons w ws)
  then have w: "1 \<le> w" "w \<le> 7" and rec: "mask_loop (m OR push_bit (nat (w - 1)) 1) ws = Inr r"
    by (auto split: if_splits)
  have "bit (push_bit (nat (w - 1)) (1::int)) i \<longleftrightarrow> int (Suc i) = w" for i
    using w by (auto simp: bit_simps)
  with Cons.IH [OF rec] w show ?case by (auto simp: bit_or_iff)
qed

lemma mask_of_low_bits:
  fixes m :: int
  assumes "\<forall>i. bit m i \<longrightarrow> i < 7"
  shows "0 \<le> m \<and> m \<le> 127"
proof -
  have "take_bit 7 m = m"
    using assms by (intro bit_eqI) (auto simp: bit_take_bit_iff)
  then show ?thesis using take_bit_int_less_exp [of 7 m] take_bit_nonnegative [of 7 m] by simp
qed

lemma mask_loop_range:
  assumes "mask_loop 0 ws = Inr m"
  shows "1 \<le> m \<and> m \<le> 127"
proof -
  have "\<forall>i. bit m i \<longrightarrow> i < 7" using mask_loop_bits [OF assms] by force
  with mask_of_low_bits mask_loop_bits [OF assms] show ?thesis by fastforce
qed

lemma filter_week_eq: 
  fixes ws :: "int list"
  shows "\<forall>w \<in> set ws. 1 \<le> w \<and> w \<le> 7 \<Longrightarrow> filter (\<lambda>w. w \<in> set ws) [1, 2, 3, 4, 5, 6, 7] = sort (remdups ws)"
proof (rule sorted_distinct_set_unique)
  assume r: "\<forall>w \<in> set ws. 1 \<le> w \<and> w \<le> 7"
  have "w \<in> {1, 2, 3, 4, 5, 6, 7}" if "w \<in> set ws" for w
    using r that by force
  then show "set (filter (\<lambda>w. w \<in> set ws) [1, 2, 3, 4, 5, 6, 7]) = set (sort (remdups ws))"
    by (simp only: set_filter set_sort set_remdups list.set) blast
  show "sorted (filter (\<lambda>w. w \<in> set ws) [1, 2, 3, 4, 5, 6, 7])" "distinct (filter (\<lambda>w. w \<in> set ws) [1, 2, 3, 4, 5, 6, 7])"
    by (rule sorted_wrt_filter, simp) (rule distinct_filter, simp)
qed simp_all

theorem weekday_mask_roundtrip:
  assumes "weekday_mask ws = Inr m"
  shows "weekdays_from_mask (PInt m) = sort (remdups ws)"
proof -
  from assms have ml: "mask_loop 0 ws = Inr m" by (simp add: weekday_mask_def)
  note b = mask_loop_bits [OF ml] and r = mask_loop_range [OF ml]
  have "filter (weekday_in_mask m) [1, 2, 3, 4, 5, 6, 7] = filter (\<lambda>w. w \<in> set ws) [1, 2, 3, 4, 5, 6, 7]"
    by (rule filter_cong) (use b in \<open>auto simp: weekday_in_mask_bit\<close>)
  with r filter_week_eq b show ?thesis
    by (simp add: weekdays_from_mask_def ALL_WEEKDAY_MASK_def)
qed

lemma normalize_weekdays_Inr:
  assumes "normalize_weekdays v = Inr ws"
  shows "ws \<noteq> [] \<and> sorted ws \<and> distinct ws \<and> (\<forall>w \<in> set ws. 1 \<le> w \<and> w \<le> 7)"
  using assms by (auto simp: normalize_weekdays_def ebind_Inr_iff Let_def list_ex_iff not_less
      split: pyval.splits if_splits)

lemma mask_loop_total:
  "\<forall>w \<in> set ws. 1 \<le> w \<and> w \<le> 7 \<Longrightarrow> ws \<noteq> [] \<or> 0 < m \<Longrightarrow> 0 \<le> m \<Longrightarrow> \<exists>r. mask_loop m ws = Inr r"
proof (induction ws arbitrary: m)
  case (Cons w ws)
  have "0 < push_bit (nat (w - 1)) (1::int)" by (simp add: push_bit_eq_mult)
  then have "0 < m OR push_bit (nat (w - 1)) (1::int)"
    using Cons.prems or_greater_eq[of m "push_bit (nat (w - 1)) 1"] 
    by (metis dual_order.strict_trans1 or.commute or_greater_eq order_less_imp_le)
  with Cons show ?case by simp
qed auto

theorem normalized_weekdays_have_mask:
  assumes "normalize_weekdays v = Inr ws"
  shows "\<exists>m. weekday_mask ws = Inr m \<and> weekdays_from_mask (PInt m) = ws"
proof -
  note n = normalize_weekdays_Inr [OF assms]
  then obtain m where m: "weekday_mask ws = Inr m"
    using mask_loop_total [of ws 0] by (auto simp: weekday_mask_def)
  have "sort (remdups ws) = ws" using n by (simp add: distinct_remdups_id sorted_sort_id)
  with weekday_mask_roundtrip [OF m] m show ?thesis by auto
qed

section \<open>Times of day\<close>

lemma digit_value_range: "digit_value c = Some d \<Longrightarrow> 0 \<le> d \<and> d \<le> 9"
  by (auto simp: digit_value_def find_Some_iff)

lemma digit_not_space: "is_digit c \<Longrightarrow> \<not> is_space c"
  by (auto simp: is_digit_def digit_value_def find_None_iff is_space_def nd_zeros_def)

lemma digit_not_punct: "is_digit c \<Longrightarrow> c \<noteq> 43 \<and> c \<noteq> 45 \<and> c \<noteq> 58 \<and> c \<noteq> 95 \<and> c \<noteq> 124"
  by (auto simp: is_digit_def digit_value_def find_None_iff nd_zeros_def)

lemma digit_value_ascii: "48 \<le> c \<Longrightarrow> c \<le> 57 \<Longrightarrow> digit_value c = Some (int c - 48)"
  by (auto simp: digit_value_def nd_zeros_def)

lemma is_digitE: "is_digit c \<Longrightarrow> (\<And>d. digit_value c = Some d \<Longrightarrow> 0 \<le> d \<Longrightarrow> d \<le> 9 \<Longrightarrow> P) \<Longrightarrow> P"
  using digit_value_range by (auto simp: is_digit_def)

lemma py_int_of_two_digits:
  assumes "digit_value x = Some dx" "digit_value y = Some dy"
  shows "py_int_of_str [x, y] = Some (10 * dx + dy)"
proof -
  have d: "is_digit x" "is_digit y" using assms by (simp_all add: is_digit_def)
  then have "strip [x, y] = [x, y]" by (intro strip_fixed) (auto simp: digit_not_space)
  then show ?thesis using assms d digit_not_punct [OF d(1)] by (simp add: py_int_of_str_def)
qed

lemma time_match_shape:
  assumes "time_match s"
  obtains a b d e where "s = [a, b, 58, d, e]" "is_digit a" "is_digit b" "is_digit d" "is_digit e"
    "48 \<le> a" "a \<le> 50" "a = 50 \<longrightarrow> 48 \<le> b \<and> b \<le> 51" "48 \<le> d" "d \<le> 53"
proof -
  from assms obtain a b c d e where s: "s = [a, b, c, d, e]"
    and ab: "(a \<in> {48, 49} \<and> is_digit b) \<or> (a = 50 \<and> 48 \<le> b \<and> b \<le> 51)"
    and "c = 58" and d: "48 \<le> d" "d \<le> 53" and e: "is_digit e"
    by (auto simp: time_match_def split: list.splits)
  have "is_digit a" "is_digit b" "is_digit d"
    using ab d by (auto simp: is_digit_def digit_value_ascii)
  with s ab \<open>c = 58\<close> d e show ?thesis by (intro that [of a b d e]) auto
qed

lemma parse_time_of_match:
  assumes "time_match s"
  shows "\<exists>h m. parse_time_str s = Inr (h * 60 + m) \<and> 0 \<le> h \<and> h < 24 \<and> 0 \<le> m \<and> m < 60"
proof -
  from assms obtain a b d e where s: "s = [a, b, 58, d, e]"
    and dig: "is_digit a" "is_digit b" "is_digit d" "is_digit e"
    and a: "48 \<le> a" "a \<le> 50" and b: "a = 50 \<longrightarrow> 48 \<le> b \<and> b \<le> 51" and d: "48 \<le> d" "d \<le> 53"
    by (rule time_match_shape)
  from dig(2) obtain vb where vb: "digit_value b = Some vb" "0 \<le> vb" "vb \<le> 9" by (rule is_digitE)
  from dig(4) obtain ve where ve: "digit_value e = Some ve" "0 \<le> ve" "ve \<le> 9" by (rule is_digitE)
  have va: "digit_value a = Some (int a - 48)" and vd: "digit_value d = Some (int d - 48)"
    using a d by (simp_all add: digit_value_ascii)
  have "partition_at 58 s = ([a, b], True, [d, e])"
    using s dig digit_not_punct by (auto simp: partition_at_def)
  then have "parse_time_str s = Inr ((10 * (int a - 48) + vb) * 60 + (10 * (int d - 48) + ve))"
    using assms va vb vd ve by (simp add: parse_time_str_def py_int_of_two_digits)
  moreover have "10 * (int a - 48) + vb < 24"
  proof (cases "a = 50")
    case True
    then have "vb = int b - 48" using b vb(1) digit_value_ascii [of b] by auto
    with True b show ?thesis by auto
  next
    case False
    with a vb show ?thesis by auto
  qed
  ultimately show ?thesis using a vb d ve by (intro exI [of _ "10 * (int a - 48) + vb"] exI [of _ "10 * (int d - 48) + ve"]) auto
qed

lemma parse_time_ascii:
  assumes "time_match [a, b, 58, d, e]" "48 \<le> b" "b \<le> 57" "48 \<le> e" "e \<le> 57"
  shows "parse_time_str [a, b, 58, d, e] = Inr ((10 * (int a - 48) + (int b - 48)) * 60 + (10 * (int d - 48) + (int e - 48)))"
proof -
  have ad: "48 \<le> a" "a \<le> 50" "48 \<le> d" "d \<le> 53" using assms(1) by (auto simp: time_match_def)
  then have v: "digit_value a = Some (int a - 48)" "digit_value b = Some (int b - 48)"
    "digit_value d = Some (int d - 48)" "digit_value e = Some (int e - 48)"
    using assms by (simp_all add: digit_value_ascii)
  have "partition_at 58 [a, b, 58, d, e] = ([a, b], True, [d, e])"
    using ad assms(2,3) by (auto simp: partition_at_def)
  with assms(1) v show ?thesis by (simp add: parse_time_str_def py_int_of_two_digits)
qed

lemma parse_time_match_iff: "(\<exists>t. parse_time_str s = Inr t) \<longleftrightarrow> time_match s"
  using parse_time_of_match by (cases "time_match s") (auto simp: parse_time_str_def)

lemma parse_time_range: "parse_time_str s = Inr t \<Longrightarrow> 0 \<le> t \<and> t < 1440"
proof -
  assume p: "parse_time_str s = Inr t"
  then have "time_match s" using parse_time_match_iff by blast
  then obtain h m where "t = h * 60 + m" "0 \<le> h" "h < 24" "0 \<le> m" "m < 60"
    using parse_time_of_match p by fastforce
  then show ?thesis by simp
qed

lemma parse_time_str_Inl: "parse_time_str s = Inl e \<Longrightarrow> e = InvalidTime"
  by (auto simp: parse_time_str_def split: if_splits prod.splits option.splits)

section \<open>Slots and event keys\<close>

definition slot_ok :: "slot_observation \<Rightarrow> bool" where
  [py_eval]: "slot_ok s \<longleftrightarrow> 0 \<le> booking_date s + 719468 \<and> court_name s \<noteq> [] \<and> length (court_name s) \<le> 100
     \<and> (case (parse_time_str (start_time s), parse_time_str (end_time s)) of
          (Inr a, Inr b) \<Rightarrow> a < b | _ \<Rightarrow> False)"

lemma slot_okE:
  assumes "slot_ok s"
  obtains a b where "parse_time_str (start_time s) = Inr a" "parse_time_str (end_time s) = Inr b" "0 \<le> a" "a < b" "b < 1440"
  using assms that parse_time_range by (fastforce simp: slot_ok_def split: sum.splits)

lemma slot_ok_times: "slot_ok s \<Longrightarrow> time_match (start_time s) \<and> time_match (end_time s)"
  by (metis slot_okE parse_time_match_iff)

lemma validate_slot_ok: "validate_slot E v = Inr s \<Longrightarrow> slot_ok s"
  by (auto simp: validate_slot_def Let_def ebind_Inr_iff slot_ok_def not_le not_less
      dest: date_fromisoformat_lower split: pyval.splits option.splits if_splits)

lemma VENUES_eval: "map fst VENUES = map u [''szw'', ''gba'', ''dsh_free'', ''dsh'', ''sysh'', ''tops'', ''fsb'',
   ''fsb_shenyun'', ''fsb_shekou'', ''fsb_xinan'', ''fsb_zhengzhong'', ''fsb_atuoshan'', ''fsb_zonglvquan'',
   ''fsb_guanhu'', ''fsb_bantian'', ''fsb_shahe'', ''fsb_baoshui'', ''fsb_nanyou'', ''fsb_xinqiao'',
   ''fsb_yifangcheng'', ''fsb_qilin'', ''fsb_maozhouhe'', ''fft_qianhai'', ''ppba'', ''tyzx'', ''jdwx'', ''swjj'']"
  by (simp add: VENUES_def VENUE_CATALOG_def)

lemma venue_no_bar: "is_venue v \<Longrightarrow> 124 \<notin> set v"
  unfolding is_venue_def VENUES_eval by (auto simp: u_def)

lemma split_at_bar:
  assumes "a @ x # r = a' @ x # r'" "x \<notin> set a" "x \<notin> set a'"
  shows "a = a' \<and> r = r'"
  using assms
proof (induction a arbitrary: a')
  case Nil
  then show ?case by (cases a') auto
next
  case (Cons y a)
  then show ?case by (cases a') auto
qed

lemma slot_text_inj:
  assumes e: "join (u ''|'') [v, isoformat n, c, s, t] = join (u ''|'') [v', isoformat n', c', s', t']"
    and "124 \<notin> set v" "124 \<notin> set v'" "0 \<le> n + 719468" "0 \<le> n' + 719468"
    and l: "length s = length s'" "length t = length t'"
  shows "v = v' \<and> n = n' \<and> c = c' \<and> s = s' \<and> t = t'"
proof -
  have iso: "124 \<notin> set (isoformat n)" "124 \<notin> set (isoformat n')"
    using isoformat_chars assms(4,5) by fastforce+
  from e have "v @ 124 # isoformat n @ 124 # (c @ [124] @ s @ [124] @ t) =
      v' @ 124 # isoformat n' @ 124 # (c' @ [124] @ s' @ [124] @ t')"
    by (simp add: u_def)
  from split_at_bar [OF this assms(2,3)] have v: "v = v'"
    and r: "isoformat n @ 124 # (c @ [124] @ s @ [124] @ t) = isoformat n' @ 124 # (c' @ [124] @ s' @ [124] @ t')"
    by auto
  from split_at_bar [OF r iso] have n: "isoformat n = isoformat n'"
    and q: "c @ [124] @ s @ [124] @ t = c' @ [124] @ s' @ [124] @ t'" by auto
  have "length c = length c'" using arg_cong [OF q, of length] l by simp
  with q l v isoformat_inj [OF assms(4,5) n] show ?thesis by simp
qed

lemma slot_identity_inj:
  assumes "is_venue v" "is_venue v'" "slot_ok s" "slot_ok s'" "slot_identity v s = slot_identity v' s'"
  shows "v = v' \<and> s = s'"
proof -
  have "length x = 5" if "time_match x" for x using that by (auto elim: time_match_shape)
  then have l: "length (start_time s) = length (start_time s')" "length (end_time s) = length (end_time s')"
    using slot_ok_times assms(3,4) by simp_all
  from slot_text_inj [OF assms(5) [unfolded slot_identity_def] _ _ _ _ l] assms venue_no_bar show ?thesis
    by (auto simp: slot_ok_def)
qed

section \<open>Observations\<close>

lemma dict_put_keys: "map fst (dict_put k v d) = (if k \<in> fst ` set d then map fst d else map fst d @ [k])"
  by (induction k v d rule: dict_put.induct) auto

lemma dict_put_values: "kv \<in> set (dict_put k v d) \<Longrightarrow> kv = (k, v) \<or> kv \<in> set d"
  by (induction k v d rule: dict_put.induct) (auto split: if_splits)

lemma dict_of_snoc: "dict_of (kvs @ [kv]) = dict_put (fst kv) (snd kv) (dict_of kvs)"
  by (simp add: dict_of_def)

lemma dict_of_Nil [simp]: "dict_of [] = []"
  by (simp add: dict_of_def)

lemma dict_of_distinct: "distinct (map fst (dict_of kvs))"
  by (induction kvs rule: rev_induct) (simp_all add: dict_of_snoc dict_put_keys)

lemma dict_of_keys: "fst ` set (dict_of kvs) = fst ` set kvs"
proof (induction kvs rule: rev_induct)
  case (snoc kv kvs)
  have "fst ` set (dict_of (kvs @ [kv])) = set (map fst (dict_put (fst kv) (snd kv) (dict_of kvs)))"
    by (simp only: dict_of_snoc set_map)
  then show ?case using snoc by (auto simp: dict_put_keys)
qed simp

lemma dict_of_subset: "kv \<in> set (dict_of kvs) \<Longrightarrow> kv \<in> set kvs"
  by (induction kvs rule: rev_induct) (auto simp: dict_of_snoc dest: dict_put_values)

lemma unique_slots_keys:
  fixes E v slots
  defines "ks \<equiv> map (slot_event_key E v) (unique_slots E v slots)"
  shows "sorted_wrt (<) ks" "set ks = slot_event_key E v ` set slots"
    "set (unique_slots E v slots) \<subseteq> set slots"
proof -
  define d where "d = dict_of (map (\<lambda>s. (slot_event_key E v s, s)) slots)"
  have d: "fst p = slot_event_key E v (snd p) \<and> snd p \<in> set slots" if "p \<in> set d" for p
    using that unfolding d_def by (auto dest!: dict_of_subset)
  have "ks = map fst (sort_key fst d)"
    unfolding ks_def unique_slots_def d_def [symmetric] using d by (auto simp: Let_def)
  then have ks: "sorted ks" "distinct ks" "set ks = fst ` set d"
    using dict_of_distinct [of "map (\<lambda>s. (slot_event_key E v s, s)) slots"]
    by (simp_all add: d_def distinct_map)
  then show "sorted_wrt (<) ks" by (simp add: strict_sorted_iff)
  show "set ks = slot_event_key E v ` set slots"
    using ks(3) by (simp add: d_def dict_of_keys image_image)
  show "set (unique_slots E v slots) \<subseteq> set slots"
    unfolding unique_slots_def d_def [symmetric] Let_def using d by auto
qed

definition observation_ok :: "pyenv \<Rightarrow> venue_observation \<Rightarrow> bool" where
  [py_eval]: "observation_ok E ob \<longleftrightarrow> is_venue (vo_venue_id ob) \<and> length (vo_venue_name ob) \<le> 100
     \<and> vo_scope ob \<noteq> [] \<and> length (vo_scope ob) \<le> 120
     \<and> (case vo_error ob of None \<Rightarrow> True | Some e \<Rightarrow> e \<noteq> [] \<and> length e \<le> 300)
     \<and> list_all slot_ok (vo_slots ob)
     \<and> sorted_wrt (<) (map (slot_event_key E (vo_venue_id ob)) (vo_slots ob))"

lemma emap_set: "emap f xs = Inr ys \<Longrightarrow> y \<in> set ys \<Longrightarrow> \<exists>x \<in> set xs. f x = Inr y"
  by (induction xs arbitrary: ys) (auto simp: ebind_Inr_iff)

lemma slot_list_ok:
  "(case x of PList raw \<Rightarrow> emap (validate_slot E) raw | _ \<Rightarrow> Inr []) = Inr slots \<Longrightarrow> \<forall>s \<in> set slots. slot_ok s"
  by (cases x) (auto dest!: emap_set validate_slot_ok)

lemma validate_observation_fields:
  assumes "validate_observation E v now = Inr ob"
  obtains d n name scope c err slots where "v = PDict d" "map_of VENUES (vo_venue_id ob) = Some n" 
    "\<forall>s \<in> set slots. slot_ok s" "scope \<noteq> []" "length scope \<le> 120" 
    "ob = \<lparr>vo_venue_id = vo_venue_id ob, vo_venue_name = take 100 name, vo_scope = scope, vo_healthy = (dget d (u ''healthy'') = PBool True),
       vo_checked_at = c, vo_error = nonempty (take 300 err), vo_slots = unique_slots E (vo_venue_id ob) slots\<rparr>"
proof -
  obtain d where v: "v = PDict d" using assms by (cases v) (auto simp: validate_observation_def)
  let ?id = "strip (text_field E d (u ''venue_id'') (u ''venueId''))"
  let ?scope = "take 120 (strip (py_str E (py_or (dget d (u ''observation_scope''))
                     (py_or (dget d (u ''observationScope'')) (PStr (u ''default''))))))"
  obtain n where n: "map_of VENUES ?id = Some n"
    using assms unfolding v validate_observation_def Let_def by (cases "map_of VENUES ?id") simp_all
  from assms obtain c slots where "(case dget d (u ''slots'') of PList raw \<Rightarrow> emap (validate_slot E) raw | _ \<Rightarrow> Inr []) = Inr slots"
    and ob: "ob = \<lparr>vo_venue_id = ?id, vo_venue_name = take 100 (strip (py_str E (py_or (dget d (u ''venue_name''))
                     (py_or (dget d (u ''venueName'')) (PStr n))))), vo_scope = (if ?scope = [] then u ''default'' else ?scope), 
      vo_healthy = (dget d (u ''healthy'') = PBool True), vo_checked_at = c, 
      vo_error = nonempty (take 300 (strip (str_or_empty E (dget d (u ''error''))))), vo_slots = unique_slots E ?id slots\<rparr>"
    unfolding v validate_observation_def Let_def pyval.case n option.case ebind_Inr_iff sum.inject by blast
  then have ok: "\<forall>s \<in> set slots. slot_ok s" by (blast dest: slot_list_ok)
  show ?thesis
    by (rule that [OF v, of n slots "if ?scope = [] then u ''default'' else ?scope"]) (use n ob ok in \<open>auto simp: u_def\<close>)
qed

lemma map_of_VENUES: "map_of VENUES v \<noteq> None \<longleftrightarrow> is_venue v"
  by (simp add: is_venue_def map_of_eq_None_iff)

lemma validate_observation_ok:
  assumes "validate_observation E v now = Inr ob"
  shows "observation_ok E ob"
  using assms
proof (rule validate_observation_fields)
  fix d n name scope c err slots
  assume "map_of VENUES (vo_venue_id ob) = Some n" and ok: "\<forall>s \<in> set slots. slot_ok s" and sc: "scope \<noteq> []" "length scope \<le> 120" 
    and ob: "ob = \<lparr>vo_venue_id = vo_venue_id ob, vo_venue_name = take 100 name, vo_scope = scope, vo_healthy = (dget d (u ''healthy'') = PBool True),
       vo_checked_at = c, vo_error = nonempty (take 300 err), vo_slots = unique_slots E (vo_venue_id ob) slots\<rparr>"
  then have vid: "is_venue (vo_venue_id ob)" using map_of_VENUES by force
  obtain vid where e: "vo_venue_id ob = vid" "is_venue vid" using vid by blast
  from ob show ?thesis unfolding e(1)
    using e(2) ok sc unique_slots_keys [of E vid slots]
    by (auto simp: observation_ok_def nonempty_def list_all_iff)
qed

section \<open>Matching, terms and subscriptions\<close>

lemma slot_matches_iff:
  assumes "slot_ok s" "parse_time_str st = Inr a" "parse_time_str en = Inr b" "a < b"
    and "parse_time_str (start_time s) = Inr x" "parse_time_str (end_time s) = Inr y"
  shows "slot_matches s m st en = Inr (weekday_in_mask m (isoweekday (booking_date s)) \<and>
           (\<exists>t. x \<le> t \<and> t < y \<and> a \<le> t \<and> t < b))"
proof -
  have xy: "x < y" using assms by (simp add: slot_ok_def)
  have "(\<exists>t. x \<le> t \<and> t < y \<and> a \<le> t \<and> t < b) \<longleftrightarrow> x < b \<and> a < y"
  proof
    assume "x < b \<and> a < y"
    then show "\<exists>t. x \<le> t \<and> t < y \<and> a \<le> t \<and> t < b" using xy assms(4) by (intro exI [of _ "max x a"]) auto
  qed auto
  with assms show ?thesis by (auto simp: slot_matches_def)
qed

lemma term_codes_eval:
  "STANDARD_TERMS = map u [''7d'', ''8d'', ''9d'', ''10d'', ''11d'', ''12d'', ''13d'', ''14d'']"
  "PRIORITY_TERMS = map u [''7d'', ''8d'', ''9d'', ''10d'', ''11d'', ''12d'', ''13d'', ''14d'', ''30d'', ''90d'', ''180d'', ''long_term'']"
  by (simp_all add: PRIORITY_TERMS_def STANDARD_TERMS_def dec_def dec_nat.simps u_def)

lemma resolve_term_priority:
  assumes "t \<in> set PRIORITY_TERMS"
  obtains r where "resolve_term t now = Inr r" "rt_term_code r = t" "now + days 7 \<le> rt_active_until r"
    "rt_active_until r \<le> now + days 180" "rt_auto_renew r \<longleftrightarrow> t = u ''long_term''"
proof -
  have "\<exists>r. resolve_term t now = Inr r \<and> rt_term_code r = t \<and> now + days 7 \<le> rt_active_until r
    \<and> rt_active_until r \<le> now + days 180 \<and> (rt_auto_renew r \<longleftrightarrow> t = u ''long_term'')"
    using assms unfolding term_codes_eval
    by (auto simp: resolve_term_def TERM_DAYS_def u_def duration_defs LONG_TERM_LEASE_DAYS_def)
  with that show ?thesis by blast
qed

lemma resolve_term_standard:
  "t \<in> set STANDARD_TERMS \<Longrightarrow> resolve_term t now = Inr r \<Longrightarrow>
   \<not> rt_auto_renew r \<and> rt_active_until r \<le> now + days 14 \<and> rt_active_until r = now + days (rt_duration_days r)"
  unfolding term_codes_eval by (auto simp: resolve_term_def TERM_DAYS_def u_def duration_defs)

lemma resolve_term_iff: "(\<exists>r. resolve_term t now = Inr r) \<longleftrightarrow> t \<in> set PRIORITY_TERMS"
  unfolding term_codes_eval by (auto simp: resolve_term_def TERM_DAYS_def u_def)

definition subscription_input_ok :: "bool \<Rightarrow> subscription_input \<Rightarrow> bool" where
  [py_eval]: "subscription_input_ok priority si \<longleftrightarrow>
     si_venue_ids si \<noteq> [] \<and> sorted_wrt (<) (si_venue_ids si) \<and> list_all is_venue (si_venue_ids si)
     \<and> si_weekdays si \<noteq> [] \<and> sorted_wrt (<) (si_weekdays si) \<and> list_all (\<lambda>w. 1 \<le> w \<and> w \<le> 7) (si_weekdays si)
     \<and> (case (parse_time_str (si_start_time si), parse_time_str (si_end_time si)) of
          (Inr a, Inr b) \<Rightarrow> a < b | _ \<Rightarrow> False)
     \<and> si_term_code si \<in> set (if priority then PRIORITY_TERMS else STANDARD_TERMS)"

lemma validate_subscription_ok:
  assumes "validate_subscription E v priority = Inr si"
  shows "subscription_input_ok priority si"
proof -
  obtain d where v: "v = PDict d" using assms by (cases v) (auto simp: validate_subscription_def)
  obtain raw where raw: "dget d (u ''venueIds'') = PList raw"
    using assms by (cases "dget d (u ''venueIds'')") (auto simp: validate_subscription_def v)
  let ?ids = "sort (remdups (map (\<lambda>item. strip (py_str E item)) raw))"
  have ids: "?ids \<noteq> []" "\<not> list_ex (\<lambda>v. \<not> is_venue v) ?ids"
    using assms unfolding validate_subscription_def v pyval.case raw Let_def by (auto split: if_splits)
  have "sorted_wrt (<) ?ids" by (simp add: strict_sorted_iff)
  moreover obtain a b ws where "parse_time_str (si_start_time si) = Inr a" "parse_time_str (si_end_time si) = Inr b" "a < b"
    "normalize_weekdays (dget d (u ''weekdays'')) = Inr ws" "si_weekdays si = ws" "si_venue_ids si = ?ids"
    "si_term_code si \<in> set (if priority then PRIORITY_TERMS else STANDARD_TERMS)"
    using assms unfolding validate_subscription_def v pyval.case raw Let_def
    by (simp only: ebind_Inr_iff split: if_split_asm) (auto simp: not_le split: if_split_asm)
  ultimately show ?thesis using ids normalize_weekdays_Inr [of "dget d (u ''weekdays'')" ws]
    by (simp add: subscription_input_ok_def list_all_iff list_ex_iff strict_sorted_iff)
qed

section \<open>Digests\<close>

lemma set_dedupe [simp]: "set (dedupe xs) = set xs"
  by (induction xs rule: dedupe.induct) auto

lemma distinct_dedupe [simp]: "distinct (dedupe xs)"
  by (induction xs rule: dedupe.induct) auto

lemma dedupe_id: "distinct xs \<Longrightarrow> dedupe xs = xs"
proof (induction xs)
  case (Cons x xs)
  then have "filter (\<lambda>y. y \<noteq> x) xs = xs" by (auto intro: filter_True)
  with Cons show ?case by simp
qed simp

lemma contains_appended: "contains (a @ b) b"
  by (auto simp: contains_def list_ex_iff intro!: bexI [of _ "length a"])

lemma digest_note_idem:
  "with_subscriber_digest_note (with_subscriber_digest_note body) = with_subscriber_digest_note body"
  using contains_appended [of "body @ [10, 10]" SUBSCRIBER_DIGEST_NOTE]
  by (simp add: with_subscriber_digest_note_def)

section \<open>Addresses and codes\<close>

lemma length_dec_nat: "k < 10 ^ Suc w \<Longrightarrow> length (dec_nat k) \<le> Suc w"
proof (induction w arbitrary: k)
  case (Suc w)
  then have "k div 10 < 10 ^ Suc w" by auto
  with Suc.IH show ?case by (subst dec_nat.simps) simp
qed (simp add: dec_nat.simps)

lemma random_code_shape:
  "length (random_verification_code n) = 6 \<and> list_all is_ascii_digit (random_verification_code n)"
proof -
  have "length (dec_nat (n mod 1000000)) \<le> 6" using length_dec_nat [of "n mod 1000000" 5] by simp
  then have "length (zpad 6 (int (n mod 1000000))) = 6"
    by (simp add: zpad_def Let_def dec_def nat_int)
  moreover have "c \<in> set (zpad 6 (int (n mod 1000000))) \<Longrightarrow> is_ascii_digit c" for c
    using zpad_digits [of "int (n mod 1000000)" c 6] by (simp add: is_ascii_digit_def)
  ultimately show ?thesis by (auto simp: random_verification_code_def list_all_iff)
qed

end
