(* ===== verification/Tables.thy ===== *)
theory Tables
  imports Domain
begin

text \<open>
  The database of the host core: one record per table of \<open>host_core/schema.py\<close> and
  \<open>host_core/schema_extensions.py\<close>, with its columns in the schema's order, and the record
  of all tables the modelled code reads or writes. Text columns that only ever hold a fixed set of
  words are datatypes. The two e-mail outboxes share the columns the worker updates through
  \<open>f"UPDATE zacks.{table}"\<close>, so their records extend a common one; its message column is
  \<open>message_id\<close> in the one table and \<open>provider_message_id\<close> in the other.
\<close>

section \<open>Words\<close>

datatype status = Pending | Processing | Retry | Dispatching | Submitted | Delivered | Failed
  | Expired | Cancelled | Suppressed | Sent | SubmissionUnknown | DeliveryUnknown

datatype claim_status = Reserved | ClaimSent | ClaimUnknown | Released

datatype tier = Standard | Priority

datatype channel = SystemEmail | SubscriberEmail

fun status_text :: "status \<Rightarrow> pystr" where
  "status_text Pending = u ''pending''"
| "status_text Processing = u ''processing''"
| "status_text Retry = u ''retry''"
| "status_text Dispatching = u ''dispatching''"
| "status_text Submitted = u ''submitted''"
| "status_text Delivered = u ''delivered''"
| "status_text Failed = u ''failed''"
| "status_text Expired = u ''expired''"
| "status_text Cancelled = u ''cancelled''"
| "status_text Suppressed = u ''suppressed''"
| "status_text Sent = u ''sent''"
| "status_text SubmissionUnknown = u ''submission_unknown''"
| "status_text DeliveryUnknown = u ''delivery_unknown''"

fun tier_text :: "tier \<Rightarrow> pystr" where
  "tier_text Standard = u ''standard''"
| "tier_text Priority = u ''priority''"

text \<open>\<open>status IN ('pending', 'retry', 'processing')\<close>: the rows a worker may still claim.\<close>

definition is_open :: "status \<Rightarrow> bool" where
  [py_eval]: "is_open s \<longleftrightarrow> s = Pending \<or> s = Retry \<or> s = Processing"

section \<open>Rows\<close>

record challenge_row =
  ch_id :: pystr
  ch_email :: pystr
  ch_code_hash :: pystr
  ch_ip_hash :: pystr
  ch_expires_at :: instant
  ch_attempts :: int
  ch_consumed_at :: "instant option"
  ch_created_at :: instant

record receipt_row =
  r_token_hash :: pystr
  r_email :: pystr
  r_masked_email :: pystr
  r_expires_at :: instant
  r_last_used_at :: instant
  r_created_at :: instant
  r_revoked_at :: "instant option"

record profile_row =
  up_email :: pystr
  up_masked_email :: pystr
  up_first_verified_at :: instant
  up_last_verified_at :: instant
  up_last_login_at :: instant
  up_last_active_at :: instant
  up_created_at :: instant
  up_updated_at :: instant

record role_row =
  ur_email :: pystr
  ur_role :: pystr
  ur_created_at :: instant
  ur_updated_at :: instant
  ur_revoked_at :: "instant option"

record tier_row =
  t_email :: pystr
  t_tier :: tier
  t_source_invite_id :: "pystr option"
  t_created_at :: instant
  t_updated_at :: instant
  t_revoked_at :: "instant option"

record invite_row =
  iv_id :: pystr
  iv_code_hash :: pystr
  iv_encrypted_code :: "pystr option"
  iv_code_hint :: "pystr option"
  iv_expires_at :: instant
  iv_active :: bool
  iv_note :: "pystr option"
  iv_created_at :: instant
  iv_updated_at :: instant
  iv_redeemed_by :: "pystr option"
  iv_redeemed_at :: "instant option"
  iv_deleted_at :: "instant option"

record invite_attempt_row =
  ia_id :: pystr
  ia_email :: pystr
  ia_ip_hash :: pystr
  ia_success :: bool
  ia_created_at :: instant

record coffee_session_row =
  cs_id :: pystr
  cs_email :: pystr
  cs_ip_hash :: pystr
  cs_shown_at :: instant
  cs_claimable_at :: instant
  cs_expires_at :: instant
  cs_consumed_at :: "instant option"
  cs_created_at :: instant

record coffee_claim_row =
  cc_email :: pystr
  cc_session_id :: pystr
  cc_invite_id :: pystr
  cc_ip_hash :: pystr
  cc_claimed_at :: instant

record subscription_row =
  s_id :: pystr
  s_email :: pystr
  s_venue_ids :: "pystr list"
  s_start_time :: pystr
  s_end_time :: pystr
  s_weekday_mask :: int
  s_duration_days :: int
  s_term_code :: pystr
  s_auto_renew :: bool
  s_dedupe_key :: "pystr option"
  s_active_until :: instant
  s_active :: bool
  s_created_at :: instant
  s_updated_at :: instant

record subscription_venue_row =
  sv_subscription_id :: pystr
  sv_venue_id :: pystr

record generation_row =
  g_venue_id :: pystr
  g_generation :: int
  g_updated_at :: instant

record venue_status_row =
  vs_venue_id :: pystr
  vs_venue_name :: pystr
  vs_healthy :: bool
  vs_last_inspection_at :: "instant option"
  vs_last_notification_at :: "instant option"
  vs_last_error :: "pystr option"
  vs_updated_at :: instant

record observation_state_row =
  os_observation_key :: pystr
  os_venue_id :: pystr
  os_fingerprint :: pystr
  os_subscription_generation :: int
  os_last_seen_at :: instant
  os_last_matched_at :: "instant option"
  os_updated_at :: instant
  os_healthy :: bool

record slot_row =
  sl_event_key :: pystr
  sl_venue_id :: pystr
  sl_court_name :: pystr
  sl_booking_date :: pydate
  sl_start_time :: pystr
  sl_end_time :: pystr
  sl_first_observed_at :: instant
  sl_last_observed_at :: instant

record event_row =
  e_subscription_id :: pystr
  e_event_key :: pystr
  e_created_at :: instant

text \<open>The columns \<open>notification_outbox\<close> and \<open>system_email_outbox\<close> share.\<close>

record outbox_row =
  o_id :: pystr
  o_email :: pystr
  o_subject :: pystr
  o_body :: pystr
  o_status :: status
  o_attempt_count :: int
  o_next_attempt_at :: instant
  o_lease_owner :: "pystr option"
  o_lease_until :: "instant option"
  o_created_at :: instant
  o_updated_at :: instant
  o_submitted_at :: "instant option"
  o_delivered_at :: "instant option"
  o_failed_at :: "instant option"
  o_message_id :: "pystr option"
  o_provider_request_id :: "pystr option"
  o_provider_status :: "pystr option"
  o_provider_checked_at :: "instant option"
  o_provider_error :: "pystr option"
  o_last_error :: "pystr option"
  o_provider_check_count :: int
  o_provider_next_check_at :: "instant option"

record notification_row = outbox_row +
  n_subscription_id :: pystr
  n_event_key :: pystr
  n_venue_id :: pystr
  n_tier :: tier
  n_delivery_claim_id :: "pystr option"
  n_eligible_at :: "instant option"

record system_row = outbox_row +
  y_dedupe_key :: pystr
  y_email_type :: pystr
  y_expires_at :: "instant option"

record claim_row =
  c_id :: pystr
  c_email :: pystr
  c_delivery_day :: pydate
  c_status :: claim_status
  c_message_id :: "pystr option"
  c_created_at :: instant
  c_updated_at :: instant

record incident_row =
  i_id :: pystr
  i_source :: pystr
  i_receiver_hash :: pystr
  i_message_hash :: pystr
  i_error_code :: "pystr option"
  i_error_message :: "pystr option"
  i_first_failed_at :: instant
  i_last_failed_at :: instant
  i_attempt_count :: int
  i_resolved_at :: "instant option"

record heartbeat_row =
  h_component :: pystr
  h_deployment_commit :: pystr
  h_healthy :: bool
  h_details :: pyval
  h_updated_at :: instant

record migration_row =
  m_source :: pystr
  m_source_revision :: "pystr option"
  m_imported_at :: "instant option"
  m_cutover_at :: "instant option"
  m_details :: pyval
  m_updated_at :: instant

record control_row =
  rc_delivery_enabled :: bool
  rc_activated_at :: "instant option"
  rc_deployment_commit :: pystr
  rc_phase :: pystr
  rc_updated_at :: instant
  rc_deployment_started_at :: instant
  rc_acceptance_started_at :: "instant option"
  rc_wechat_enabled :: bool
  rc_api_acceptance :: pyval

record availability_row =
  av_observation_key :: pystr
  av_event_key :: pystr
  av_last_seen_at :: instant

record attempt_row =
  a_id :: pystr
  a_channel :: channel
  a_queue_ids :: "pystr list"
  a_phase :: status
  a_provider_message_id :: "pystr option"
  a_error_code :: "pystr option"
  a_started_at :: instant
  a_finished_at :: "instant option"

record wechat_row =
  w_id :: pystr
  w_venue_id :: pystr
  w_receiver :: pystr
  w_device_name :: pystr
  w_source :: pystr
  w_message :: pystr
  w_event_keys :: "pystr list"
  w_status :: status
  w_attempt_count :: int
  w_next_attempt_at :: instant
  w_expires_at :: instant
  w_lease_owner :: "pystr option"
  w_lease_until :: "instant option"
  w_outbound_message :: "pystr option"
  w_program_id :: "pystr option"
  w_sent_at :: "instant option"
  w_last_error :: "pystr option"
  w_created_at :: instant
  w_updated_at :: instant

record cooldown_row =
  bl_receiver_hash :: pystr
  bl_program_id :: pystr
  bl_sent_at :: instant

record pause_row =
  p_email :: pystr
  p_booking_date :: pydate
  p_paused :: bool
  p_created_at :: instant
  p_updated_at :: instant

section \<open>The database\<close>

record db =
  verification_challenges :: "challenge_row list"
  verified_receipts :: "receipt_row list"
  user_profiles :: "profile_row list"
  user_roles :: "role_row list"
  user_delivery_tiers :: "tier_row list"
  priority_invite_codes :: "invite_row list"
  priority_invite_attempts :: "invite_attempt_row list"
  coffee_invite_sessions :: "coffee_session_row list"
  coffee_invite_claims :: "coffee_claim_row list"
  subscriptions :: "subscription_row list"
  subscription_venues :: "subscription_venue_row list"
  subscription_generations :: "generation_row list"
  venue_status :: "venue_status_row list"
  observation_state :: "observation_state_row list"
  observed_slots :: "slot_row list"
  subscription_events :: "event_row list"
  notification_outbox :: "notification_row list"
  system_email_outbox :: "system_row list"
  email_delivery_claims :: "claim_row list"
  wechat_delivery_incidents :: "incident_row list"
  runtime_heartbeats :: "heartbeat_row list"
  migration_state :: "migration_row list"
  runtime_control :: control_row
  current_availability :: "availability_row list"
  delivery_attempts :: "attempt_row list"
  wechat_outbox :: "wechat_row list"
  booking_link_cooldowns :: "cooldown_row list"
  notification_date_pauses :: "pause_row list"

text \<open>The schema's defaults for a fresh database: empty tables and the singleton control row.\<close>

definition initial_control :: "instant \<Rightarrow> control_row" where
  [py_eval]: "initial_control now = \<lparr>rc_delivery_enabled = False, rc_activated_at = None,
     rc_deployment_commit = u ''unknown'', rc_phase = u ''prepared'', rc_updated_at = now,
     rc_deployment_started_at = now, rc_acceptance_started_at = None, rc_wechat_enabled = False,
     rc_api_acceptance = PNone\<rparr>"

definition empty_db :: "instant \<Rightarrow> db" where
  [py_eval]: "empty_db now = \<lparr>verification_challenges = [], verified_receipts = [], user_profiles = [],
     user_roles = [], user_delivery_tiers = [], priority_invite_codes = [], priority_invite_attempts = [],
     coffee_invite_sessions = [], coffee_invite_claims = [], subscriptions = [],
     subscription_venues = [], subscription_generations = [], venue_status = [],
     observation_state = [], observed_slots = [], subscription_events = [],
     notification_outbox = [], system_email_outbox = [], email_delivery_claims = [],
     wechat_delivery_incidents = [], runtime_heartbeats = [], migration_state = [],
     runtime_control = initial_control now, current_availability = [], delivery_attempts = [],
     wechat_outbox = [], booking_link_cooldowns = [], notification_date_pauses = []\<rparr>"

section \<open>Expressions shared by the statements\<close>

text \<open>
  \<open>LEFT JOIN zacks.user_delivery_tiers t ON t.email = ...\<close> with
  \<open>t.tier = 'priority' AND t.revoked_at IS NULL\<close> (email is the table's primary key).
\<close>

definition is_priority :: "db \<Rightarrow> pystr \<Rightarrow> bool" where
  [py_eval]: "is_priority db email \<longleftrightarrow>
     (case find_row t_email email (user_delivery_tiers db) of
        None \<Rightarrow> False | Some t \<Rightarrow> t_tier t = Priority \<and> t_revoked_at t = None)"

text \<open>\<open>s.active AND s.active_until > now AND (NOT s.auto_renew OR priority)\<close>.\<close>

definition subscription_live :: "db \<Rightarrow> instant \<Rightarrow> subscription_row \<Rightarrow> bool" where
  [py_eval]: "subscription_live db now s \<longleftrightarrow>
     s_active s \<and> now < s_active_until s \<and> (\<not> s_auto_renew s \<or> is_priority db (s_email s))"

text \<open>
  \<open>(slot.booking_date + CAST(slot.start_time AS time)) AT TIME ZONE 'Asia/Shanghai'\<close>.
  PostgreSQL's cast reads ASCII digits only; on any other text it aborts the statement. Which rows
  a plan casts is up to the planner, so a statement is taken to abort when any stored slot would.
\<close>

definition castable :: "pystr \<Rightarrow> bool" where
  [py_eval]: "castable s \<longleftrightarrow> time_match s \<and> list_all (\<lambda>c. c < 128) s"

definition times_castable :: "db \<Rightarrow> bool" where
  [py_eval]: "times_castable db \<longleftrightarrow> list_all (\<lambda>s. castable (sl_start_time s)) (observed_slots db)"

definition start_at :: "pydate \<Rightarrow> pystr \<Rightarrow> instant" where
  [py_eval]: "start_at day start =
     shanghai_midnight day + minutes (case parse_time_str start of Inr m \<Rightarrow> m | Inl _ \<Rightarrow> 0)"

text \<open>A pause in force for a booking day, and an attempt that may have reached the provider.\<close>

definition date_paused :: "db \<Rightarrow> pystr \<Rightarrow> pydate \<Rightarrow> bool" where
  [py_eval]: "date_paused db email day \<longleftrightarrow>
     list_ex (\<lambda>p. p_email p = email \<and> p_booking_date p = day \<and> p_paused p) (notification_date_pauses db)"

definition live_attempt :: "channel \<Rightarrow> pystr \<Rightarrow> attempt_row \<Rightarrow> bool" where
  [py_eval]: "live_attempt c i a \<longleftrightarrow> a_channel a = c \<and> i \<in> set (a_queue_ids a) \<and> a_phase a \<noteq> Retry \<and> a_phase a \<noteq> Failed"

definition has_live_attempt :: "db \<Rightarrow> pystr \<Rightarrow> bool" where
  [py_eval]: "has_live_attempt db i \<longleftrightarrow> list_ex (live_attempt SubscriberEmail i) (delivery_attempts db)"

text \<open>\<open>EXISTS (SELECT 1 FROM current_availability c WHERE c.event_key = ... AND c.last_seen_at > now - 15 minutes)\<close>.\<close>

definition currently_available :: "db \<Rightarrow> instant \<Rightarrow> pystr \<Rightarrow> bool" where
  [py_eval]: "currently_available db now key \<longleftrightarrow>
     list_ex (\<lambda>c. av_event_key c = key \<and> now - minutes 15 < av_last_seen_at c) (current_availability db)"

definition slot_of :: "db \<Rightarrow> pystr \<Rightarrow> slot_row option" where
  [py_eval]: "slot_of db key = find_row sl_event_key key (observed_slots db)"

definition subscription_of :: "db \<Rightarrow> pystr \<Rightarrow> subscription_row option" where
  [py_eval]: "subscription_of db i = find_row s_id i (subscriptions db)"

lemma has_live_attempt_iff:
  "has_live_attempt db i \<longleftrightarrow> (\<exists>a \<in> set (delivery_attempts db). live_attempt SubscriberEmail i a)"
  by (simp add: has_live_attempt_def list_ex_iff)

lemma is_open_simps [simp]:
  "is_open Pending" "is_open Retry" "is_open Processing" "\<not> is_open Dispatching" "\<not> is_open Submitted"
  "\<not> is_open Delivered" "\<not> is_open Failed" "\<not> is_open Expired" "\<not> is_open Cancelled"
  "\<not> is_open Suppressed" "\<not> is_open Sent" "\<not> is_open SubmissionUnknown" "\<not> is_open DeliveryUnknown"
  by (simp_all add: is_open_def)

end
