(* ===== verification/Pauses.thy ===== *)
theory Pauses
  imports Tables
begin

text \<open>
  Booking-date pauses (\<open>host_core/date_pauses.py\<close>): validating a request, changing the
  preference together with the notifications and quota claims it withdraws, and the rules an
  observation has to pass once a day was paused or resumed.
\<close>

section \<open>Requests\<close>

definition MAX_PAUSE_DAYS :: int where
  [py_eval]: "MAX_PAUSE_DAYS = 365"

definition MAX_DATES_PER_REQUEST :: nat where
  [py_eval]: "MAX_DATES_PER_REQUEST = 31"

definition PAUSE_REASON :: pystr where
  [py_eval]: "PAUSE_REASON = u ''booking_date_paused''"

datatype pause_action = Pause | Resume

datatype pause_error = BadRequestShape | BadAction | BadDateCount | BadDateFormat | BadDate | DateOutOfRange

text \<open>\<open>re.fullmatch(r"\d{4}-\d{2}-\d{2}", raw)\<close>.\<close>

definition iso_shape :: "pystr \<Rightarrow> bool" where
  [py_eval]: "iso_shape s \<longleftrightarrow> length s = 10 \<and> s ! 4 = 45 \<and> s ! 7 = 45
     \<and> list_all (\<lambda>i. is_digit (s ! i)) [0, 1, 2, 3, 5, 6, 8, 9]"

definition pause_date :: "pydate \<Rightarrow> pyval \<Rightarrow> pause_error + pydate" where
  [py_eval]: "pause_date today raw =
     (case raw of
        PStr s \<Rightarrow>
          if \<not> iso_shape s then Inl BadDateFormat
          else (case date_fromisoformat s of
                  None \<Rightarrow> Inl BadDate
                | Some d \<Rightarrow> if today \<le> d \<and> d \<le> today + MAX_PAUSE_DAYS then Inr d else Inl DateOutOfRange)
      | _ \<Rightarrow> Inl BadDateFormat)"

definition pause_action_of :: "pyval \<Rightarrow> pause_action option" where
  [py_eval]: "pause_action_of v =
     (if v = PStr (u ''pause'') then Some Pause else if v = PStr (u ''resume'') then Some Resume else None)"

definition validate_pause_request :: "pyval \<Rightarrow> instant \<Rightarrow> pause_error + (pause_action \<times> pydate list)" where
  "validate_pause_request payload now =
     (case payload of
        PDict d \<Rightarrow>
          if set (map fst d) \<noteq> {u ''action'', u ''dates''} then Inl BadRequestShape
          else (case pause_action_of (dget d (u ''action'')) of
                  None \<Rightarrow> Inl BadAction
                | Some action \<Rightarrow>
                    (case dget d (u ''dates'') of
                       PList raw_dates \<Rightarrow>
                         if \<not> (1 \<le> length raw_dates \<and> length raw_dates \<le> MAX_DATES_PER_REQUEST) then Inl BadDateCount
                         else ebind (emap (pause_date (shanghai_date now)) raw_dates)
                                (\<lambda>dates. Inr (action, sort (remdups dates)))
                     | _ \<Rightarrow> Inl BadDateCount))
      | _ \<Rightarrow> Inl BadRequestShape)"

section \<open>Changing the preference\<close>

record pause_view =
  pv_paused_dates :: "pystr list"
  pv_today :: pystr
  pv_timezone :: pystr

definition read_pauses :: "db \<Rightarrow> pystr \<Rightarrow> instant \<Rightarrow> pause_view" where
  "read_pauses db email now =
     (let today = shanghai_date now in
      \<lparr>pv_paused_dates = map isoformat (sort (map p_booking_date
          (filter (\<lambda>p. p_email p = email \<and> p_paused p \<and> today \<le> p_booking_date p) (notification_date_pauses db)))),
       pv_today = isoformat today, pv_timezone = u ''Asia/Shanghai''\<rparr>)"

definition claim_releasable :: "db \<Rightarrow> claim_row \<Rightarrow> bool" where
  [py_eval]: "claim_releasable db claim \<longleftrightarrow>
     c_status claim = Reserved \<and> c_message_id claim = None
     \<and> \<not> list_ex (\<lambda>n. n_delivery_claim_id n = Some (c_id claim)
          \<and> (o_status n \<notin> {Cancelled, Expired, Suppressed, Failed}
             \<or> o_submitted_at n \<noteq> None \<or> o_message_id n \<noteq> None)) (notification_outbox db)
     \<and> \<not> list_ex (\<lambda>n. n_delivery_claim_id n = Some (c_id claim) \<and> has_live_attempt db (o_id n))
          (notification_outbox db)"

definition release_unused_claims :: "pystr list \<Rightarrow> instant \<Rightarrow> db \<Rightarrow> db" where
  "release_unused_claims claim_ids now db = db\<lparr>email_delivery_claims :=
     sql_update (\<lambda>claim. c_id claim \<in> set claim_ids \<and> claim_releasable db claim)
       (\<lambda>claim. claim\<lparr>c_status := Released, c_updated_at := now\<rparr>) (email_delivery_claims db)\<rparr>"

definition pause_key :: "pause_row \<Rightarrow> pystr \<times> pydate" where
  [py_eval]: "pause_key p = (p_email p, p_booking_date p)"

definition pause_merge :: "pause_row \<Rightarrow> pause_row \<Rightarrow> pause_row" where
  [py_eval]: "pause_merge old new =
     (if p_paused old then old else old\<lparr>p_paused := True, p_updated_at := p_updated_at new\<rparr>)"

definition pause_dates :: "pystr \<Rightarrow> pydate list \<Rightarrow> instant \<Rightarrow> pause_row list \<Rightarrow> pause_row list" where
  "pause_dates email dates now t =
     fold (\<lambda>day. upsert pause_key pause_merge
       \<lparr>p_email = email, p_booking_date = day, p_paused = True, p_created_at = now, p_updated_at = now\<rparr>) dates t"

definition pause_cancels :: "db \<Rightarrow> pystr \<Rightarrow> pydate list \<Rightarrow> notification_row \<Rightarrow> bool" where
  [py_eval]: "pause_cancels db email dates n \<longleftrightarrow>
     (case slot_of db (n_event_key n) of None \<Rightarrow> False | Some slot \<Rightarrow> sl_booking_date slot \<in> set dates)
     \<and> o_email n = email \<and> is_open (o_status n)
     \<and> o_submitted_at n = None \<and> o_message_id n = None \<and> \<not> has_live_attempt db (o_id n)"

definition withdraw :: "pystr \<Rightarrow> instant \<Rightarrow> notification_row \<Rightarrow> notification_row" where
  [py_eval]: "withdraw reason now n = n\<lparr>o_status := Cancelled, o_last_error := Some reason, o_updated_at := now,
     o_lease_owner := None, o_lease_until := None\<rparr>"

text \<open>The claims of the withdrawn rows, \<open>sorted({claim for claim in cancelled if claim})\<close>.\<close>

definition withdrawn_claims :: "(notification_row \<Rightarrow> bool) \<Rightarrow> db \<Rightarrow> pystr list" where
  [py_eval]: "withdrawn_claims p db = sort (remdups (filter (\<lambda>c. c \<noteq> [])
     (List.map_filter n_delivery_claim_id (filter p (notification_outbox db)))))"

definition do_pause :: "pystr \<Rightarrow> pydate list \<Rightarrow> instant \<Rightarrow> db \<Rightarrow> db" where
  "do_pause email dates now db =
     (let db1 = db\<lparr>notification_date_pauses := pause_dates email dates now (notification_date_pauses db)\<rparr>;
          cancels = pause_cancels db1 email dates;
          db2 = db1\<lparr>notification_outbox := sql_update cancels (withdraw PAUSE_REASON now) (notification_outbox db1)\<rparr>
      in case withdrawn_claims cancels db1 of
           [] \<Rightarrow> db2
         | c # cs \<Rightarrow> release_unused_claims (c # cs) now db2)"

definition do_resume :: "pystr \<Rightarrow> pydate list \<Rightarrow> instant \<Rightarrow> db \<Rightarrow> db" where
  "do_resume email dates now db = db\<lparr>notification_date_pauses :=
     sql_update (\<lambda>p. p_email p = email \<and> p_booking_date p \<in> set dates \<and> p_paused p)
       (\<lambda>p. p\<lparr>p_paused := False, p_updated_at := now\<rparr>) (notification_date_pauses db)\<rparr>"

text \<open>\<open>RETURNING booking_date\<close>: the days whose row was inserted or flipped.\<close>

definition changed_dates :: "db \<Rightarrow> pystr \<Rightarrow> pause_action \<Rightarrow> pydate list \<Rightarrow> pydate list" where
  [py_eval]: "changed_dates db email action dates =
     (case action of
        Pause \<Rightarrow> filter (\<lambda>day. \<not> date_paused db email day) dates
      | Resume \<Rightarrow> map p_booking_date (filter (\<lambda>p. p_email p = email \<and> p_booking_date p \<in> set dates \<and> p_paused p)
          (notification_date_pauses db)))"

text \<open>\<open>update_pauses\<close>: the new database, the view of it and the changed days in order.\<close>

definition update_pauses ::
    "db \<Rightarrow> pystr \<Rightarrow> pyval \<Rightarrow> instant \<Rightarrow> pause_error + (db \<times> pause_view \<times> pystr list)" where
  "update_pauses db email payload now =
     ebind (validate_pause_request payload now) (\<lambda>(action, dates).
       let db' = (case action of Pause \<Rightarrow> do_pause email dates now db | Resume \<Rightarrow> do_resume email dates now db)
       in Inr (db', read_pauses db' email now, sort (map isoformat (changed_dates db email action dates))))"

section \<open>Rules for observations\<close>

definition observation_rules :: "db \<Rightarrow> pystr list \<Rightarrow> pydate list \<Rightarrow> pause_row list" where
  "observation_rules db emails dates =
     (if emails = [] \<or> dates = [] then []
      else filter (\<lambda>p. p_email p \<in> set emails \<and> p_booking_date p \<in> set dates) (notification_date_pauses db))"

definition rule_for :: "pause_row list \<Rightarrow> pystr \<Rightarrow> pydate \<Rightarrow> pause_row option" where
  [py_eval]: "rule_for rules email day = find_row pause_key (email, day) rules"

definition needs_resume_match :: "pause_row list \<Rightarrow> instant \<Rightarrow> instant \<Rightarrow> bool" where
  "needs_resume_match rules last_seen_at now \<longleftrightarrow>
     list_ex (\<lambda>rule. \<not> p_paused rule \<and> (last_seen_at \<le> p_updated_at rule \<or> last_seen_at < now - minutes 15)) rules"

definition rule_allows_observation :: "pause_row option \<Rightarrow> instant \<Rightarrow> instant \<Rightarrow> bool" where
  "rule_allows_observation rule checked_at now \<longleftrightarrow>
     (case rule of
        None \<Rightarrow> True
      | Some r \<Rightarrow> \<not> p_paused r \<and> p_updated_at r < checked_at \<and> now - minutes 15 < checked_at)"

definition restorable :: "db \<Rightarrow> pystr \<Rightarrow> pystr \<Rightarrow> notification_row \<Rightarrow> bool" where
  [py_eval]: "restorable db subscription_id event_key n \<longleftrightarrow>
     n_subscription_id n = subscription_id \<and> n_event_key n = event_key
     \<and> o_status n = Cancelled \<and> o_last_error n = Some PAUSE_REASON
     \<and> o_submitted_at n = None \<and> o_message_id n = None \<and> \<not> has_live_attempt db (o_id n)"

text \<open>When a notification of a tier becomes due.\<close>

definition due_at :: "tier \<Rightarrow> instant \<Rightarrow> instant" where
  [py_eval]: "due_at tier now = (if tier = Priority then now else now + seconds 10)"

definition restore_paused_notification ::
    "pystr \<Rightarrow> pystr \<Rightarrow> instant \<Rightarrow> instant \<Rightarrow> tier \<Rightarrow> db \<Rightarrow> db \<times> bool" where
  "restore_paused_notification subscription_id event_key checked_at now tier db =
     (let p = restorable db subscription_id event_key in
      (db\<lparr>notification_outbox := sql_update p
          (\<lambda>n. n\<lparr>o_status := Pending, o_last_error := None, n_eligible_at := Some checked_at,
                 o_next_attempt_at := due_at tier now, o_updated_at := now, n_tier := tier,
                 o_lease_owner := None, o_lease_until := None, n_delivery_claim_id := None\<rparr>)
          (notification_outbox db)\<rparr>,
       list_ex p (notification_outbox db)))"

end
