(* ===== verification/Service.thy ===== *)
theory Service
  imports Pauses
begin

text \<open>
  Ingesting observations (\<open>host_core/service.py\<close>): venue status, subscription generations,
  the current availability of an observation key, matching slots against subscriptions and
  queueing at most one notification per subscription and event. A transaction is a function from
  database to database; \<open>utc_now()\<close> and SQL \<open>now()\<close> are arguments, and so are the uuids a
  call draws.
\<close>

section \<open>Subscriptions and generations\<close>

record active_subscription =
  as_id :: pystr
  as_email :: pystr
  as_start_time :: pystr
  as_end_time :: pystr
  as_weekday_mask :: int
  as_tier :: tier

definition venue_subscription_rows :: "db \<Rightarrow> pystr \<Rightarrow> subscription_row list" where
  [py_eval]: "venue_subscription_rows db venue_id =
     List.map_filter (\<lambda>sv. subscription_of db (sv_subscription_id sv))
       (filter (\<lambda>sv. sv_venue_id sv = venue_id) (subscription_venues db))"

definition active_subscriptions :: "db \<Rightarrow> pystr \<Rightarrow> instant \<Rightarrow> active_subscription list" where
  "active_subscriptions db venue_id sqlnow =
     sort_key as_id (map (\<lambda>s. \<lparr>as_id = s_id s, as_email = s_email s, as_start_time = s_start_time s,
         as_end_time = s_end_time s, as_weekday_mask = s_weekday_mask s,
         as_tier = (if is_priority db (s_email s) then Priority else Standard)\<rparr>)
       (filter (subscription_live db sqlnow) (venue_subscription_rows db venue_id)))"

definition active_subscription_for_venue :: "db \<Rightarrow> pystr \<Rightarrow> instant \<Rightarrow> bool" where
  "active_subscription_for_venue db venue_id sqlnow \<longleftrightarrow>
     is_venue venue_id \<and> list_ex (subscription_live db sqlnow) (venue_subscription_rows db venue_id)"

definition generation_of :: "db \<Rightarrow> pystr \<Rightarrow> int" where
  "generation_of db venue_id =
     (case find_row g_venue_id venue_id (subscription_generations db) of None \<Rightarrow> 0 | Some g \<Rightarrow> g_generation g)"

definition increment_subscription_generations :: "pystr list \<Rightarrow> instant \<Rightarrow> db \<Rightarrow> db" where
  "increment_subscription_generations venue_ids now db = db\<lparr>subscription_generations :=
     fold (\<lambda>v. upsert g_venue_id
         (\<lambda>old new. old\<lparr>g_generation := g_generation old + 1, g_updated_at := g_updated_at new\<rparr>)
         \<lparr>g_venue_id = v, g_generation = 1, g_updated_at = now\<rparr>)
       (sort (remdups venue_ids)) (subscription_generations db)\<rparr>"

section \<open>Venue status and the gate\<close>

definition upsert_status :: "venue_observation \<Rightarrow> instant \<Rightarrow> db \<Rightarrow> db" where
  "upsert_status ob now db = db\<lparr>venue_status := upsert vs_venue_id
     (\<lambda>old new. if vs_last_inspection_at old = None \<or> le_opt (vs_last_inspection_at old) (vo_checked_at ob)
        then old\<lparr>vs_venue_name := vs_venue_name new, vs_healthy := vs_healthy new,
               vs_last_inspection_at := vs_last_inspection_at new, vs_last_error := vs_last_error new,
               vs_updated_at := vs_updated_at new\<rparr>
        else old)
     \<lparr>vs_venue_id = vo_venue_id ob, vs_venue_name = vo_venue_name ob, vs_healthy = vo_healthy ob,
      vs_last_inspection_at = Some (vo_checked_at ob), vs_last_notification_at = None,
      vs_last_error = vo_error ob, vs_updated_at = now\<rparr> (venue_status db)\<rparr>"

text \<open>\<open>_gate\<close>; the revision is the millisecond of \<open>now\<close>, without the rounding of floats.\<close>

record gate =
  gate_allowed :: bool
  gate_source :: pystr
  gate_evaluated_at :: instant
  gate_valid_until :: instant
  gate_revision :: int

definition make_gate :: "bool \<Rightarrow> instant \<Rightarrow> gate" where
  "make_gate allowed now = \<lparr>gate_allowed = allowed, gate_source = u ''airflow-host'',
     gate_evaluated_at = now, gate_valid_until = now + seconds 60, gate_revision = now div 1000\<rparr>"

section \<open>Current availability\<close>

definition observation_key :: "venue_observation \<Rightarrow> pystr" where
  [py_eval]: "observation_key ob = vo_venue_id ob @ u '':'' @ vo_scope ob"

definition slot_row_of :: "pyenv \<Rightarrow> venue_observation \<Rightarrow> instant \<Rightarrow> slot_observation \<Rightarrow> slot_row" where
  [py_eval]: "slot_row_of E ob now slot = \<lparr>sl_event_key = slot_event_key E (vo_venue_id ob) slot,
     sl_venue_id = vo_venue_id ob, sl_court_name = court_name slot, sl_booking_date = booking_date slot,
     sl_start_time = start_time slot, sl_end_time = end_time slot, sl_first_observed_at = now,
     sl_last_observed_at = vo_checked_at ob\<rparr>"

definition slot_merge :: "slot_row \<Rightarrow> slot_row \<Rightarrow> slot_row" where
  [py_eval]: "slot_merge old new = old\<lparr>sl_last_observed_at := max (sl_last_observed_at old) (sl_last_observed_at new)\<rparr>"

definition store_slot :: "pyenv \<Rightarrow> venue_observation \<Rightarrow> instant \<Rightarrow> slot_observation \<Rightarrow> db \<Rightarrow> db" where
  "store_slot E ob now slot db =
     db\<lparr>observed_slots := upsert sl_event_key slot_merge (slot_row_of E ob now slot) (observed_slots db),
        current_availability := current_availability db
          @ [\<lparr>av_observation_key = observation_key ob, av_event_key = slot_event_key E (vo_venue_id ob) slot,
              av_last_seen_at = vo_checked_at ob\<rparr>]\<rparr>"

definition replace_availability :: "pyenv \<Rightarrow> venue_observation \<Rightarrow> instant \<Rightarrow> db \<Rightarrow> db" where
  "replace_availability E ob now db =
     (let db1 = db\<lparr>current_availability :=
            filter (\<lambda>c. av_observation_key c \<noteq> observation_key ob) (current_availability db)\<rparr>
      in if vo_healthy ob then fold (store_slot E ob now) (vo_slots ob) db1 else db1)"

definition set_health :: "pystr \<Rightarrow> bool \<Rightarrow> db \<Rightarrow> db" where
  [py_eval]: "set_health key healthy db = db\<lparr>observation_state :=
     sql_update (\<lambda>s. os_observation_key s = key) (\<lambda>s. s\<lparr>os_healthy := healthy\<rparr>) (observation_state db)\<rparr>"

section \<open>Matching\<close>

definition event_key_of :: "event_row \<Rightarrow> pystr \<times> pystr" where
  [py_eval]: "event_key_of e = (e_subscription_id e, e_event_key e)"

definition notification_key :: "notification_row \<Rightarrow> pystr \<times> pystr" where
  [py_eval]: "notification_key n = (n_subscription_id n, n_event_key n)"

definition new_notification ::
    "pystr \<Rightarrow> pystr \<Rightarrow> pystr \<Rightarrow> active_subscription \<Rightarrow> pystr \<Rightarrow> instant \<Rightarrow> notification_row" where
  "new_notification i line event_key sub venue_id now =
     \<lparr>o_id = i, o_email = as_email sub, o_subject = line, o_body = line, o_status = Pending,
      o_attempt_count = 0, o_next_attempt_at = due_at (as_tier sub) now, o_lease_owner = None,
      o_lease_until = None, o_created_at = now, o_updated_at = now, o_submitted_at = None,
      o_delivered_at = None, o_failed_at = None, o_message_id = None, o_provider_request_id = None,
      o_provider_status = None, o_provider_checked_at = None, o_provider_error = None,
      o_last_error = None, o_provider_check_count = 0, o_provider_next_check_at = None,
      n_subscription_id = as_id sub, n_event_key = event_key, n_venue_id = venue_id,
      n_tier = as_tier sub, n_delivery_claim_id = None, n_eligible_at = None\<rparr>"

text \<open>
  The body of the inner loop for one slot and one subscription; \<open>uuid\<close> gives the identifier
  drawn for a pair of subscription and event.
\<close>

definition match_subscription ::
    "pyenv \<Rightarrow> (pystr \<Rightarrow> pystr \<Rightarrow> pystr) \<Rightarrow> venue_observation \<Rightarrow> pause_row list \<Rightarrow> instant \<Rightarrow>
     slot_observation \<Rightarrow> active_subscription \<Rightarrow> db \<times> nat \<Rightarrow> value_error + (db \<times> nat)" where
  "match_subscription E uuid ob rules now slot sub st =
     (case st of (db, matched) \<Rightarrow>
        let rule = rule_for rules (as_email sub) (booking_date slot);
            event_key = slot_event_key E (vo_venue_id ob) slot
        in if \<not> rule_allows_observation rule (vo_checked_at ob) now then Inr (db, matched)
           else ebind (slot_matches slot (as_weekday_mask sub) (as_start_time sub) (as_end_time sub)) (\<lambda>m.
             if \<not> m then Inr (db, matched)
             else if has_key event_key_of (as_id sub, event_key) (subscription_events db) then
               (if rule = None then Inr (db, matched)
                else case restore_paused_notification (as_id sub) event_key (vo_checked_at ob) now (as_tier sub) db of
                       (db', restored) \<Rightarrow> Inr (db', if restored then Suc matched else matched))
             else Inr (db\<lparr>subscription_events := subscription_events db
                          @ [\<lparr>e_subscription_id = as_id sub, e_event_key = event_key, e_created_at = now\<rparr>],
                      notification_outbox := insert_or_ignore notification_key
                          (new_notification (uuid (as_id sub) event_key)
                             (format_slot_line (vo_venue_name ob) slot) event_key sub (vo_venue_id ob) now)
                          (notification_outbox db)\<rparr>, Suc matched)))"

definition match_slot ::
    "pyenv \<Rightarrow> (pystr \<Rightarrow> pystr \<Rightarrow> pystr) \<Rightarrow> venue_observation \<Rightarrow> pause_row list \<Rightarrow> active_subscription list \<Rightarrow>
     instant \<Rightarrow> slot_observation \<Rightarrow> db \<times> nat \<Rightarrow> value_error + (db \<times> nat)" where
  "match_slot E uuid ob rules subs now slot st =
     (if start_at (booking_date slot) (start_time slot) \<le> now then Inr st
      else efold (match_subscription E uuid ob rules now slot) subs st)"

definition match_all ::
    "pyenv \<Rightarrow> (pystr \<Rightarrow> pystr \<Rightarrow> pystr) \<Rightarrow> venue_observation \<Rightarrow> pause_row list \<Rightarrow> active_subscription list \<Rightarrow>
     instant \<Rightarrow> db \<Rightarrow> value_error + (db \<times> nat)" where
  "match_all E uuid ob rules subs now db =
     (if vo_healthy ob then efold (match_slot E uuid ob rules subs now) (vo_slots ob) (db, 0)
      else Inr (db, 0))"

section \<open>Ingesting\<close>

datatype ingest_response =
    OlderIgnored gate
  | Accepted pystr nat nat bool gate

definition save_observation ::
    "venue_observation \<Rightarrow> pystr \<Rightarrow> int \<Rightarrow> instant \<Rightarrow> db \<Rightarrow> db" where
  "save_observation ob fingerprint generation now db =
     db\<lparr>observation_state := upsert os_observation_key
       (\<lambda>old new. new\<lparr>os_healthy := os_healthy old\<rparr>)
       \<lparr>os_observation_key = observation_key ob, os_venue_id = vo_venue_id ob,
        os_fingerprint = fingerprint, os_subscription_generation = generation,
        os_last_seen_at = vo_checked_at ob, os_last_matched_at = Some now, os_updated_at = now,
        os_healthy = False\<rparr> (observation_state db)\<rparr>"

definition touch_observation :: "venue_observation \<Rightarrow> instant \<Rightarrow> db \<Rightarrow> db" where
  "touch_observation ob now db = db\<lparr>observation_state :=
     sql_update (\<lambda>s. os_observation_key s = observation_key ob)
       (\<lambda>s. s\<lparr>os_last_seen_at := vo_checked_at ob, os_updated_at := now\<rparr>) (observation_state db)\<rparr>"

text \<open>
  Whether a stored state makes the observation a repeat: same fingerprint and generation, and no
  resumed day that still waits for its first fresh observation.
\<close>

definition is_unchanged ::
    "observation_state_row option \<Rightarrow> pystr \<Rightarrow> int \<Rightarrow> pause_row list \<Rightarrow> instant \<Rightarrow> bool" where
  [py_eval]: "is_unchanged state fingerprint generation rules now \<longleftrightarrow>
     (case state of
        None \<Rightarrow> False
      | Some s \<Rightarrow> os_fingerprint s = fingerprint \<and> os_subscription_generation s = generation
          \<and> \<not> needs_resume_match rules (os_last_seen_at s) now)"

definition ingest_validated ::
    "pyenv \<Rightarrow> (pystr \<Rightarrow> pystr \<Rightarrow> pystr) \<Rightarrow> venue_observation \<Rightarrow> instant \<Rightarrow> instant \<Rightarrow> db \<Rightarrow>
     value_error + (db \<times> ingest_response)" where
  "ingest_validated E uuid ob now sqlnow db =
     (let fingerprint = observation_fingerprint E ob;
          db1 = upsert_status ob now db;
          generation = generation_of db1 (vo_venue_id ob);
          state = find_row os_observation_key (observation_key ob) (observation_state db1)
      in if (case state of None \<Rightarrow> False | Some s \<Rightarrow> vo_checked_at ob < os_last_seen_at s)
         then Inr (db1, OlderIgnored (make_gate (active_subscriptions db1 (vo_venue_id ob) sqlnow \<noteq> []) now))
         else
           let db2 = set_health (observation_key ob) (vo_healthy ob) (replace_availability E ob now db1);
               subs = active_subscriptions db2 (vo_venue_id ob) sqlnow;
               rules = observation_rules db2 (map as_email subs) (map booking_date (vo_slots ob));
               gate = make_gate (subs \<noteq> []) now
           in if is_unchanged state fingerprint generation rules now
              then Inr (touch_observation ob now db2,
                     Accepted (vo_venue_id ob) (length (vo_slots ob)) 0 True gate)
              else ebind (match_all E uuid ob rules subs now db2) (\<lambda>(db3, matched).
                Inr (set_health (observation_key ob) (vo_healthy ob)
                       (save_observation ob fingerprint generation now db3),
                     Accepted (vo_venue_id ob) (length (vo_slots ob)) matched False gate)))"

definition ingest_observation ::
    "pyenv \<Rightarrow> (pystr \<Rightarrow> pystr \<Rightarrow> pystr) \<Rightarrow> pyval \<Rightarrow> instant \<Rightarrow> instant \<Rightarrow> instant \<Rightarrow> db \<Rightarrow>
     value_error + (db \<times> ingest_response)" where
  "ingest_observation E uuid payload parsed_at now sqlnow db =
     ebind (validate_observation E payload parsed_at) (\<lambda>ob. ingest_validated E uuid ob now sqlnow db)"

section \<open>Incidents and heartbeats\<close>

definition incident_key :: "incident_row \<Rightarrow> pystr \<times> pystr \<times> pystr" where
  [py_eval]: "incident_key i = (i_source i, i_receiver_hash i, i_message_hash i)"

text \<open>
  \<open>record_wechat_incident\<close>; \<open>reason\<close> is \<open>str(error)\<close>. The identifier is derived from the
  full source, the stored source is cut to 120 characters; a failed insert is swallowed, which
  leaves the table as it was.
\<close>

definition record_wechat_incident ::
    "pyenv \<Rightarrow> pystr \<Rightarrow> pystr \<Rightarrow> pystr \<Rightarrow> pystr \<Rightarrow> pystr option \<Rightarrow> instant \<Rightarrow> db \<Rightarrow> db" where
  "record_wechat_incident E source receiver message reason error_code now db =
     (let receiver_hash = sha256_hex E receiver;
          message_hash = sha256_hex E message;
          row = \<lparr>i_id = sha256_hex E (source @ [0] @ receiver_hash @ [0] @ message_hash),
                 i_source = take 120 source, i_receiver_hash = receiver_hash, i_message_hash = message_hash,
                 i_error_code = (case error_code of None \<Rightarrow> None | Some c \<Rightarrow> if c = [] then None else Some (take 120 c)),
                 i_error_message = Some (take 1000 reason), i_first_failed_at = now,
                 i_last_failed_at = now, i_attempt_count = 1, i_resolved_at = None\<rparr>
      in if \<not> has_key incident_key (incident_key row) (wechat_delivery_incidents db)
            \<and> has_key i_id (i_id row) (wechat_delivery_incidents db) then db
         else db\<lparr>wechat_delivery_incidents := upsert incident_key
           (\<lambda>old new. old\<lparr>i_error_code := i_error_code new, i_error_message := i_error_message new,
              i_last_failed_at := i_last_failed_at new, i_attempt_count := i_attempt_count old + 1,
              i_resolved_at := None\<rparr>) row (wechat_delivery_incidents db)\<rparr>)"

definition runtime_heartbeat :: "pystr \<Rightarrow> pystr \<Rightarrow> pyval \<Rightarrow> instant \<Rightarrow> db \<Rightarrow> db" where
  "runtime_heartbeat component commit details now db = db\<lparr>runtime_heartbeats := upsert h_component
     (\<lambda>old new. new) \<lparr>h_component = component, h_deployment_commit = commit, h_healthy = True,
       h_details = details, h_updated_at = now\<rparr> (runtime_heartbeats db)\<rparr>"

end
