(* ===== verification/EmailQueue.thy ===== *)
theory EmailQueue
  imports Service
begin

text \<open>
  The e-mail queue of \<open>host_core/worker.py\<close>: recovering leases, claiming system mail and
  subscriber digests under the daily quotas, and the two transactions around a send. What the
  provider call does in between is an argument of the second one.
\<close>

section \<open>Constants and settings\<close>

definition LEASE_SECONDS :: int where
  [py_eval]: "LEASE_SECONDS = 300"

definition SUBSCRIBER_ROWS_PER_DIGEST :: nat where
  [py_eval]: "SUBSCRIBER_ROWS_PER_DIGEST = 20"

definition MAX_ATTEMPTS :: int where
  [py_eval]: "MAX_ATTEMPTS = 5"

definition PROVIDER_RETENTION_DAYS :: int where
  [py_eval]: "PROVIDER_RETENTION_DAYS = 30"

text \<open>The limits of \<open>HostCoreSettings\<close> and the \<open>WeatherDecision\<close> a claim consults.\<close>

record quota_settings =
  standard_daily_email_limit :: int
  priority_daily_email_limit :: int
  notification_daily_send_limit :: int

record weather_decision =
  wd_send_email :: bool
  wd_forecast_date :: "pystr option"
  wd_precipitation_mm :: "rat option"
  wd_threshold_mm :: rat
  wd_reason :: pystr
  wd_error :: "pystr option"

definition retry_at :: "int \<Rightarrow> instant \<Rightarrow> instant" where
  "retry_at attempt now = now + seconds (min 3600 (60 * 2 ^ nat (max 0 (attempt - 1))))"

definition provider_backoff :: "int \<Rightarrow> int" where
  "provider_backoff check_count =
     (if check_count \<le> 2 then minutes 5 else if check_count \<le> 5 then minutes 15
      else if check_count \<le> 8 then hours 1 else hours 6)"

definition shanghai_day :: "instant \<Rightarrow> pydate \<times> instant" where
  [py_eval]: "shanghai_day now = (shanghai_date now, shanghai_midnight (shanghai_date now))"

section \<open>Leases\<close>

definition lease_over :: "instant \<Rightarrow> 'a outbox_row_scheme \<Rightarrow> bool" where
  [py_eval]: "lease_over now r \<longleftrightarrow> le_opt (o_lease_until r) now"

definition interrupted :: "instant \<Rightarrow> 'a outbox_row_scheme \<Rightarrow> 'a outbox_row_scheme" where
  [py_eval]: "interrupted now r = r\<lparr>o_status := SubmissionUnknown, o_updated_at := now,
     o_last_error := Some (u ''dispatch interrupted; reconcile before replay''),
     o_lease_owner := None, o_lease_until := None\<rparr>"

definition requeued :: "instant \<Rightarrow> 'a outbox_row_scheme \<Rightarrow> 'a outbox_row_scheme" where
  [py_eval]: "requeued now r = r\<lparr>o_status := Retry, o_lease_owner := None, o_lease_until := None,
     o_next_attempt_at := now, o_updated_at := now,
     o_last_error := Some (case o_last_error r of None \<Rightarrow> u ''expired processing lease'' | Some e \<Rightarrow> e)\<rparr>"

definition interrupt_leases :: "instant \<Rightarrow> 'a outbox_row_scheme list \<Rightarrow> 'a outbox_row_scheme list" where
  [py_eval]: "interrupt_leases now = sql_update (\<lambda>r. o_status r = Dispatching \<and> lease_over now r) (interrupted now)"

definition requeue_leases :: "instant \<Rightarrow> 'a outbox_row_scheme list \<Rightarrow> 'a outbox_row_scheme list" where
  [py_eval]: "requeue_leases now = sql_update (\<lambda>r. o_status r = Processing \<and> lease_over now r) (requeued now)"

definition release_expired_leases :: "instant \<Rightarrow> db \<Rightarrow> db" where
  "release_expired_leases now db =
     (let notes = interrupt_leases now (notification_outbox db);
          claims1 = sql_update (\<lambda>c. c_status c = Reserved
              \<and> list_ex (\<lambda>n. n_delivery_claim_id n = Some (c_id c) \<and> o_status n = SubmissionUnknown) notes)
            (\<lambda>c. c\<lparr>c_status := ClaimUnknown, c_updated_at := now\<rparr>) (email_delivery_claims db)
      in db\<lparr>notification_outbox := requeue_leases now notes,
            system_email_outbox := requeue_leases now (interrupt_leases now (system_email_outbox db)),
            email_delivery_claims := sql_update
              (\<lambda>c. c_status c = Reserved \<and> c_updated_at c \<le> now - seconds LEASE_SECONDS)
              (\<lambda>c. c\<lparr>c_status := Released, c_updated_at := now\<rparr>) claims1\<rparr>)"

section \<open>Claiming\<close>

text \<open>
  What a claim hands to the sender: the selected columns, with the attempt already counted.
  \<open>locked\<close> are the rows other transactions hold, which \<open>FOR UPDATE SKIP LOCKED\<close> passes
  over. Rows with equal \<open>created_at\<close> are taken in table order.
\<close>

record job =
  j_id :: pystr
  j_email :: pystr
  j_subject :: pystr
  j_body :: pystr
  j_attempt_count :: int

record system_job = job +
  j_email_type :: pystr

record subscriber_job = job +
  j_venue_id :: pystr
  j_event_key :: pystr
  j_booking_date :: pydate
  j_tier :: tier
  j_claim_id :: pystr

definition claimable :: "instant \<Rightarrow> 'a outbox_row_scheme \<Rightarrow> bool" where
  [py_eval]: "claimable now r \<longleftrightarrow> is_open (o_status r) \<and> o_next_attempt_at r \<le> now
     \<and> (o_lease_until r = None \<or> lease_over now r)"

definition leased :: "pystr \<Rightarrow> instant \<Rightarrow> 'a outbox_row_scheme \<Rightarrow> 'a outbox_row_scheme" where
  [py_eval]: "leased worker now r = r\<lparr>o_status := Processing, o_attempt_count := o_attempt_count r + 1,
     o_lease_owner := Some worker, o_lease_until := Some (now + seconds LEASE_SECONDS), o_updated_at := now\<rparr>"

definition claim_system ::
    "pystr \<Rightarrow> instant \<Rightarrow> (pystr \<Rightarrow> bool) \<Rightarrow> db \<Rightarrow> db \<times> system_job option" where
  "claim_system worker now locked db =
     (case sort_key o_created_at (filter (\<lambda>r. claimable now r \<and> \<not> locked (o_id r)) (system_email_outbox db)) of
        [] \<Rightarrow> (db, None)
      | row # _ \<Rightarrow>
          (db\<lparr>system_email_outbox := sql_update (\<lambda>r. o_id r = o_id row)
               (\<lambda>r. (leased worker now r)\<lparr>o_attempt_count := o_attempt_count row + 1\<rparr>) (system_email_outbox db)\<rparr>,
           Some \<lparr>j_id = o_id row, j_email = o_email row, j_subject = o_subject row, j_body = o_body row,
                 j_attempt_count = o_attempt_count row + 1, j_email_type = y_email_type row\<rparr>))"

record subscriber_target =
  st_email :: pystr
  st_tier :: tier
  st_booking_date :: pydate

text \<open>The day of a notification's slot, when it may be claimed.\<close>

definition claimable_day :: "db \<Rightarrow> instant \<Rightarrow> notification_row \<Rightarrow> pydate option" where
  [py_eval]: "claimable_day db now n =
     (case slot_of db (n_event_key n) of
        None \<Rightarrow> None
      | Some slot \<Rightarrow> if claimable now n \<and> \<not> date_paused db (o_email n) (sl_booking_date slot)
                     then Some (sl_booking_date slot) else None)"

definition next_subscriber_target :: "db \<Rightarrow> instant \<Rightarrow> subscriber_target option" where
  "next_subscriber_target db now =
     (case sort_key (\<lambda>n. if is_priority db (o_email n) then 0 else (1::nat))
             (sort_key o_created_at (filter (\<lambda>n. claimable_day db now n \<noteq> None) (notification_outbox db))) of
        [] \<Rightarrow> None
      | n # _ \<Rightarrow> map_option (\<lambda>day. \<lparr>st_email = o_email n,
            st_tier = (if is_priority db (o_email n) then Priority else Standard),
            st_booking_date = day\<rparr>) (claimable_day db now n))"

definition group_rows ::
    "db \<Rightarrow> instant \<Rightarrow> subscriber_target \<Rightarrow> (pystr \<Rightarrow> bool) \<Rightarrow> notification_row list" where
  [py_eval]: "group_rows db now target locked =
     take SUBSCRIBER_ROWS_PER_DIGEST (sort_key o_created_at
       (filter (\<lambda>n. o_email n = st_email target \<and> claimable_day db now n = Some (st_booking_date target)
          \<and> \<not> locked (o_id n)) (notification_outbox db)))"

text \<open>\<open>count(DISTINCT message_id)\<close> and the reservations that still count, for one user or for all.\<close>

definition submitted_since :: "(notification_row \<Rightarrow> bool) \<Rightarrow> instant \<Rightarrow> db \<Rightarrow> int" where
  [py_eval]: "submitted_since p day_start db = int (length (remdups (List.map_filter o_message_id
     (filter (\<lambda>n. p n \<and> ge_opt (o_submitted_at n) day_start) (notification_outbox db)))))"

definition reserved_for :: "(claim_row \<Rightarrow> bool) \<Rightarrow> pydate \<Rightarrow> instant \<Rightarrow> db \<Rightarrow> int" where
  [py_eval]: "reserved_for p day now db = int (length (filter (\<lambda>c. p c \<and> c_delivery_day c = day
     \<and> (c_status c = ClaimUnknown \<or> (c_status c = Reserved \<and> now - seconds LEASE_SECONDS < c_updated_at c)))
     (email_delivery_claims db)))"

definition user_limit :: "quota_settings \<Rightarrow> tier \<Rightarrow> int" where
  [py_eval]: "user_limit settings tier =
     (if tier = Priority then priority_daily_email_limit settings else standard_daily_email_limit settings)"

definition user_used :: "db \<Rightarrow> pystr \<Rightarrow> instant \<Rightarrow> int" where
  [py_eval]: "user_used db email now =
     submitted_since (\<lambda>n. o_email n = email) (snd (shanghai_day now)) db
     + reserved_for (\<lambda>c. c_email c = email) (fst (shanghai_day now)) now db"

definition global_used :: "db \<Rightarrow> instant \<Rightarrow> int" where
  [py_eval]: "global_used db now =
     submitted_since (\<lambda>n. True) (snd (shanghai_day now)) db
     + reserved_for (\<lambda>c. True) (fst (shanghai_day now)) now db"

definition suppress :: "pystr list \<Rightarrow> pystr \<Rightarrow> instant \<Rightarrow> db \<Rightarrow> db" where
  [py_eval]: "suppress ids reason now db = db\<lparr>notification_outbox :=
     sql_update (\<lambda>n. o_id n \<in> set ids)
       (\<lambda>n. n\<lparr>o_status := Suppressed, o_last_error := Some reason, o_lease_owner := None,
              o_lease_until := None, o_updated_at := now\<rparr>) (notification_outbox db)\<rparr>"

definition weather_reason :: "pyenv \<Rightarrow> weather_decision \<Rightarrow> pystr" where
  "weather_reason E w = u ''weather_suppressed:''
     @ py_str E (case wd_forecast_date w of None \<Rightarrow> PNone | Some d \<Rightarrow> PStr d) @ u '':''
     @ py_str E (case wd_precipitation_mm w of None \<Rightarrow> PNone | Some r \<Rightarrow> PFloat r) @ u ''mm:threshold=''
     @ py_str E (PFloat (wd_threshold_mm w)) @ u ''mm''"

definition quota_reason :: "quota_settings \<Rightarrow> db \<Rightarrow> pystr \<Rightarrow> tier \<Rightarrow> instant \<Rightarrow> pystr" where
  "quota_reason settings db email tier now =
     (let delivery_day = isoformat (fst (shanghai_day now)) in
      if user_limit settings tier \<le> user_used db email now
      then u ''daily_tier_limit:'' @ delivery_day @ u '':tier='' @ tier_text tier
           @ u '':limit='' @ dec (user_limit settings tier)
      else u ''global_daily_limit:'' @ delivery_day
           @ u '':limit='' @ dec (notification_daily_send_limit settings))"

definition subscriber_job_of :: "subscriber_target \<Rightarrow> pystr \<Rightarrow> notification_row \<Rightarrow> subscriber_job" where
  [py_eval]: "subscriber_job_of target claim_id n = \<lparr>j_id = o_id n, j_email = o_email n, j_subject = o_subject n,
     j_body = o_body n, j_attempt_count = o_attempt_count n + 1, j_venue_id = n_venue_id n,
     j_event_key = n_event_key n, j_booking_date = st_booking_date target, j_tier = st_tier target,
     j_claim_id = claim_id\<rparr>"

definition reserve ::
    "pystr \<Rightarrow> pystr \<Rightarrow> pystr list \<Rightarrow> pystr \<Rightarrow> instant \<Rightarrow> db \<Rightarrow> db" where
  [py_eval]: "reserve worker email ids claim_id now db =
     db\<lparr>notification_outbox := sql_update (\<lambda>n. o_id n \<in> set ids)
          (\<lambda>n. (leased worker now n)\<lparr>n_delivery_claim_id := Some claim_id\<rparr>) (notification_outbox db),
        email_delivery_claims := email_delivery_claims db
          @ [\<lparr>c_id = claim_id, c_email = email, c_delivery_day = fst (shanghai_day now), c_status = Reserved,
              c_message_id = None, c_created_at = now, c_updated_at = now\<rparr>]\<rparr>"

definition claim_subscriber_group ::
    "pyenv \<Rightarrow> pystr \<Rightarrow> quota_settings \<Rightarrow> subscriber_target \<Rightarrow> weather_decision \<Rightarrow> instant \<Rightarrow> pystr \<Rightarrow>
     (pystr \<Rightarrow> bool) \<Rightarrow> db \<Rightarrow> db \<times> subscriber_job list" where
  "claim_subscriber_group E worker settings target weather now claim_id locked db =
     (case group_rows db now target locked of
        [] \<Rightarrow> (db, [])
      | row # rows \<Rightarrow>
          let ids = map o_id (row # rows); tier = st_tier target in
          if tier = Standard \<and> \<not> wd_send_email weather
          then (suppress ids (weather_reason E weather) now db, [])
          else if user_limit settings tier \<le> user_used db (st_email target) now
                  \<or> notification_daily_send_limit settings \<le> global_used db now
          then (suppress ids (quota_reason settings db (st_email target) tier now) now db, [])
          else (reserve worker (st_email target) ids claim_id now db,
                map (subscriber_job_of target claim_id) (row # rows)))"

section \<open>Before the send\<close>

definition delivery_enabled :: "db \<Rightarrow> bool" where
  [py_eval]: "delivery_enabled db \<longleftrightarrow> rc_delivery_enabled (runtime_control db)"

text \<open>\<open>COALESCE(expires_at, created_at + 10 minutes or 1 day)\<close>.\<close>

definition system_deadline :: "system_row \<Rightarrow> instant" where
  [py_eval]: "system_deadline r =
     (case y_expires_at r of
        Some t \<Rightarrow> t
      | None \<Rightarrow> o_created_at r + (if y_email_type r = u ''verification'' then minutes 10 else days 1))"

definition system_valid :: "pystr \<Rightarrow> instant \<Rightarrow> system_row \<Rightarrow> bool" where
  [py_eval]: "system_valid worker now r \<longleftrightarrow>
     o_status r = Processing \<and> o_lease_owner r = Some worker \<and> now < system_deadline r"

definition eligible_since :: "notification_row \<Rightarrow> instant" where
  [py_eval]: "eligible_since n = (case n_eligible_at n of Some t \<Rightarrow> t | None \<Rightarrow> o_created_at n)"

text \<open>Whether a claimed notification may still be sent: the query of \<open>_attempt_email\<close>.\<close>

definition subscriber_valid :: "db \<Rightarrow> pystr \<Rightarrow> pystr \<Rightarrow> instant \<Rightarrow> notification_row \<Rightarrow> bool" where
  [py_eval]: "subscriber_valid db worker claim now n \<longleftrightarrow>
     o_status n = Processing \<and> o_lease_owner n = Some worker \<and> n_delivery_claim_id n = Some claim
     \<and> is_venue (n_venue_id n)
     \<and> (case subscription_of db (n_subscription_id n) of None \<Rightarrow> False | Some s \<Rightarrow> subscription_live db now s)
     \<and> now - minutes 15 < eligible_since n
     \<and> (case slot_of db (n_event_key n) of
          None \<Rightarrow> False
        | Some slot \<Rightarrow> \<not> date_paused db (o_email n) (sl_booking_date slot)
            \<and> now < start_at (sl_booking_date slot) (sl_start_time slot))
     \<and> currently_available db now (n_event_key n)"

definition not_eligible :: "instant \<Rightarrow> 'a outbox_row_scheme \<Rightarrow> 'a outbox_row_scheme" where
  [py_eval]: "not_eligible now r = r\<lparr>o_status := Expired, o_last_error := Some (u ''not_eligible_at_dispatch''),
     o_lease_owner := None, o_lease_until := None, o_updated_at := now\<rparr>"

definition new_attempt :: "pystr \<Rightarrow> channel \<Rightarrow> pystr list \<Rightarrow> instant \<Rightarrow> attempt_row" where
  [py_eval]: "new_attempt i channel ids sqlnow = \<lparr>a_id = i, a_channel = channel, a_queue_ids = ids,
     a_phase = Dispatching, a_provider_message_id = None, a_error_code = None, a_started_at = sqlnow,
     a_finished_at = None\<rparr>"

definition dispatch_rows ::
    "pystr list \<Rightarrow> pystr \<Rightarrow> instant \<Rightarrow> 'a outbox_row_scheme list \<Rightarrow> 'a outbox_row_scheme list" where
  [py_eval]: "dispatch_rows ids worker now = sql_update
     (\<lambda>r. o_id r \<in> set ids \<and> o_lease_owner r = Some worker)
     (\<lambda>r. r\<lparr>o_status := Dispatching, o_updated_at := now\<rparr>)"

text \<open>
  The transaction before a send. The result lists the rows to send, none when the transaction
  ended early: delivery disabled, or nothing valid left.
\<close>

definition begin_system ::
    "system_job \<Rightarrow> pystr \<Rightarrow> instant \<Rightarrow> instant \<Rightarrow> pystr \<Rightarrow> db \<Rightarrow> db \<times> system_job list" where
  "begin_system job worker now sqlnow attempt_id db =
     (if \<not> delivery_enabled db then (db, [])
      else
        let valid = list_ex (\<lambda>r. o_id r = j_id job \<and> system_valid worker now r) (system_email_outbox db) in
        if \<not> valid
        then (db\<lparr>system_email_outbox := sql_update
                (\<lambda>r. o_id r = j_id job \<and> o_lease_owner r = Some worker \<and> o_status r = Processing)
                (not_eligible now) (system_email_outbox db)\<rparr>, [])
        else (db\<lparr>delivery_attempts := delivery_attempts db @ [new_attempt attempt_id SystemEmail [j_id job] sqlnow],
                 system_email_outbox := dispatch_rows [j_id job] worker now (system_email_outbox db)\<rparr>, [job]))"

definition valid_job :: "db \<Rightarrow> pystr \<Rightarrow> pystr \<Rightarrow> instant \<Rightarrow> subscriber_job \<Rightarrow> bool" where
  [py_eval]: "valid_job db worker claim now j \<longleftrightarrow>
     list_ex (\<lambda>n. o_id n = j_id j \<and> subscriber_valid db worker claim now n) (notification_outbox db)"

definition dispatch_valid ::
    "subscriber_job list \<Rightarrow> pystr \<Rightarrow> pystr \<Rightarrow> instant \<Rightarrow> instant \<Rightarrow> pystr \<Rightarrow> db \<Rightarrow> db \<times> subscriber_job list" where
  "dispatch_valid jobs claim worker now sqlnow attempt_id db =
     (let valid = filter (valid_job db worker claim now) jobs;
          invalid = map j_id (filter (\<lambda>j. \<not> valid_job db worker claim now j) jobs);
          db1 = db\<lparr>notification_outbox := sql_update
            (\<lambda>n. o_id n \<in> set invalid \<and> o_lease_owner n = Some worker \<and> o_status n = Processing
                 \<and> n_delivery_claim_id n = Some claim)
            (not_eligible now) (notification_outbox db)\<rparr>
      in if valid = [] then (release_unused_claims [claim] now db1, [])
         else (db1\<lparr>delivery_attempts := delivery_attempts db1
                    @ [new_attempt attempt_id SubscriberEmail (map j_id valid) sqlnow],
                  notification_outbox := dispatch_rows (map j_id valid) worker now (notification_outbox db1)\<rparr>,
               valid))"

text \<open>The statement that selects the valid rows casts stored times, so it may abort.\<close>

datatype sql_error = CastAborted

definition begin_subscriber ::
    "subscriber_job list \<Rightarrow> pystr \<Rightarrow> instant \<Rightarrow> instant \<Rightarrow> pystr \<Rightarrow> db \<Rightarrow>
     sql_error + (db \<times> subscriber_job list)" where
  "begin_subscriber jobs worker now sqlnow attempt_id db =
     (case jobs of
        [] \<Rightarrow> Inr (db, [])
      | j # _ \<Rightarrow>
          if \<not> delivery_enabled db then Inr (db, [])
          else if \<not> times_castable db then Inl CastAborted
          else Inr (dispatch_valid jobs (j_claim_id j) worker now sqlnow attempt_id db))"

text \<open>Subject, body and category of the mail.\<close>

definition system_mail :: "system_job \<Rightarrow> pystr \<times> pystr \<times> pystr" where
  "system_mail job = (j_subject job, j_body job,
     if j_email_type job = u ''verification'' then [37038, 31665, 39564, 35777] else [31995, 32479, 36890, 30693])"

definition subscriber_mail :: "subscriber_job list \<Rightarrow> (pystr \<times> pystr \<times> pystr) result" where
  "subscriber_mail jobs =
     ebind (format_digest (map j_body jobs)) (\<lambda>(subject, body).
       let booking_date = isoformat (j_booking_date (hd jobs)) in
       Inr (subject,
            with_subscriber_digest_note body
              @ [10, 10, 24050, 26377, 22330, 22320, 65311, 26242, 20572, 32] @ booking_date
              @ [32, 30340, 25552, 37266, 65306, 10]
              @ u ''https://courts.zacks.vision/?pauseDate='' @ booking_date,
            [32593, 29699, 31354, 22330, 25552, 37266]))"

section \<open>After the send\<close>

text \<open>
  How \<open>send_template_email\<close> ends: with a message and a request identifier, with a
  \<open>TencentSesError\<close> of some code, with \<open>requests.ConnectTimeout\<close>, or with another exception,
  named by its type.
\<close>

datatype send_outcome =
    SendAccepted pystr pystr
  | SendRejected pystr
  | SendConnectTimeout
  | SendRaised pystr

definition RETRYABLE_CODES :: "pystr list" where
  [py_eval]: "RETRYABLE_CODES = map u [''AuthFailure'', ''InvalidParameter'', ''InvalidParameterValue'',
     ''MissingParameter'', ''LimitExceeded'', ''RequestLimitExceeded'', ''UnauthorizedOperation'',
     ''UnsupportedOperation'', ''ResourceNotFound'', ''ResourceUnavailable'']"

definition retryable_send_error :: "send_outcome \<Rightarrow> bool" where
  "retryable_send_error out =
     (case out of
        SendConnectTimeout \<Rightarrow> True
      | SendRejected code \<Rightarrow> takeWhile (\<lambda>c. c \<noteq> 46) code \<in> set RETRYABLE_CODES
      | _ \<Rightarrow> False)"

definition send_phase :: "send_outcome \<Rightarrow> int \<Rightarrow> status" where
  "send_phase out attempts =
     (case out of
        SendAccepted mid _ \<Rightarrow> if mid = [] then SubmissionUnknown else Submitted
      | _ \<Rightarrow> if retryable_send_error out then (if MAX_ATTEMPTS \<le> attempts then Failed else Retry)
             else SubmissionUnknown)"

fun send_reason :: "send_outcome \<Rightarrow> pystr option" where
  "send_reason (SendAccepted mid _) =
     (if mid = [] then Some (u ''provider_acknowledgement_missing_message_id'') else None)"
| "send_reason (SendRejected code) = Some code"
| "send_reason SendConnectTimeout = Some (u ''ConnectTimeout'')"
| "send_reason (SendRaised name) = Some name"

fun sent_message :: "send_outcome \<Rightarrow> pystr option" where
  "sent_message (SendAccepted mid _) = Some mid"
| "sent_message _ = None"

fun sent_request :: "send_outcome \<Rightarrow> pystr option" where
  "sent_request (SendAccepted _ rid) = Some rid"
| "sent_request _ = None"

definition max_attempt :: "'a job_scheme list \<Rightarrow> int" where
  [py_eval]: "max_attempt jobs = Max (set (map j_attempt_count jobs))"

definition finish_attempt :: "pystr \<Rightarrow> status \<Rightarrow> send_outcome \<Rightarrow> instant \<Rightarrow> attempt_row list \<Rightarrow> attempt_row list" where
  [py_eval]: "finish_attempt attempt_id phase out sqlnow = sql_update (\<lambda>a. a_id a = attempt_id)
     (\<lambda>a. a\<lparr>a_phase := phase, a_provider_message_id := sent_message out, a_error_code := send_reason out,
            a_finished_at := Some sqlnow\<rparr>)"

definition finished_row ::
    "status \<Rightarrow> send_outcome \<Rightarrow> instant \<Rightarrow> instant \<Rightarrow> 'a outbox_row_scheme \<Rightarrow> 'a outbox_row_scheme" where
  [py_eval]: "finished_row phase out due sqlnow r =
     r\<lparr>o_status := phase, o_message_id := sent_message out, o_provider_request_id := sent_request out,
       o_provider_status := Some (if phase = Submitted then u ''accepted'' else status_text phase),
       o_submitted_at := (if phase = Submitted then Some sqlnow else o_submitted_at r),
       o_failed_at := (if phase = Failed then Some sqlnow else o_failed_at r),
       o_provider_check_count := 0,
       o_provider_next_check_at := (if phase = Submitted then Some (sqlnow + seconds 30) else None),
       o_next_attempt_at := due, o_lease_owner := None, o_lease_until := None,
       o_last_error := send_reason out, o_updated_at := sqlnow\<rparr>"

definition finish_rows ::
    "pystr list \<Rightarrow> pystr \<Rightarrow> status \<Rightarrow> send_outcome \<Rightarrow> instant \<Rightarrow> instant \<Rightarrow>
     'a outbox_row_scheme list \<Rightarrow> 'a outbox_row_scheme list" where
  [py_eval]: "finish_rows ids worker phase out due sqlnow = sql_update
     (\<lambda>r. o_id r \<in> set ids \<and> o_lease_owner r = Some worker \<and> o_status r = Dispatching)
     (finished_row phase out due sqlnow)"

definition claim_result :: "status \<Rightarrow> claim_status" where
  [py_eval]: "claim_result phase = (if phase = Submitted then ClaimSent
     else if phase = SubmissionUnknown then ClaimUnknown else Released)"

text \<open>The transaction after a send; \<open>now\<close> is the \<open>utc_now()\<close> of \<open>_retry_at\<close>.\<close>

definition finish_system ::
    "system_job list \<Rightarrow> pystr \<Rightarrow> pystr \<Rightarrow> send_outcome \<Rightarrow> instant \<Rightarrow> instant \<Rightarrow> db \<Rightarrow> db" where
  "finish_system jobs worker attempt_id out now sqlnow db =
     (let phase = send_phase out (max_attempt jobs) in
      db\<lparr>delivery_attempts := finish_attempt attempt_id phase out sqlnow (delivery_attempts db),
         system_email_outbox := finish_rows (map j_id jobs) worker phase out
           (retry_at (max_attempt jobs) now) sqlnow (system_email_outbox db)\<rparr>)"

definition finish_subscriber ::
    "subscriber_job list \<Rightarrow> pystr \<Rightarrow> pystr \<Rightarrow> send_outcome \<Rightarrow> instant \<Rightarrow> instant \<Rightarrow> db \<Rightarrow> db" where
  "finish_subscriber jobs worker attempt_id out now sqlnow db =
     (let phase = send_phase out (max_attempt jobs) in
      db\<lparr>delivery_attempts := finish_attempt attempt_id phase out sqlnow (delivery_attempts db),
         notification_outbox := finish_rows (map j_id jobs) worker phase out
           (retry_at (max_attempt jobs) now) sqlnow (notification_outbox db),
         email_delivery_claims := sql_update (\<lambda>c. c_id c = j_claim_id (hd jobs))
           (\<lambda>c. c\<lparr>c_status := claim_result phase, c_message_id := sent_message out, c_updated_at := sqlnow\<rparr>)
           (email_delivery_claims db)\<rparr>)"

end
