(* ===== verification/Worker.thy ===== *)
theory Worker
  imports EmailQueue
begin

text \<open>
  The rest of \<open>host_core/worker.py\<close>: asking the provider what became of a submitted message,
  the hourly maintenance and the expiry of reminders that can no longer be sent.
\<close>

section \<open>Provider checks\<close>

record provider_check =
  pc_message_id :: pystr
  pc_email :: pystr
  pc_submitted_at :: instant
  pc_check_count :: int

definition check_due :: "instant \<Rightarrow> 'a outbox_row_scheme \<Rightarrow> bool" where
  [py_eval]: "check_due now r \<longleftrightarrow> o_status r = Submitted \<and> o_message_id r \<noteq> None
     \<and> ge_opt (o_submitted_at r) (now - days PROVIDER_RETENTION_DAYS) \<and> le_opt (o_provider_next_check_at r) now"

text \<open>
  \<open>GROUP BY message_id\<close> over the due rows, ordered by the earliest check and then the earliest
  submission; texts are compared by code point.
\<close>

definition group_of :: "pystr \<Rightarrow> 'a outbox_row_scheme list \<Rightarrow> 'a outbox_row_scheme list" where
  [py_eval]: "group_of mid rows = filter (\<lambda>r. o_message_id r = Some mid) rows"

definition group_check :: "pystr \<Rightarrow> 'a outbox_row_scheme list \<Rightarrow> provider_check" where
  [py_eval]: "group_check mid g = \<lparr>pc_message_id = mid, pc_email = Min (set (map o_email g)),
     pc_submitted_at = Min (set (List.map_filter o_submitted_at g)),
     pc_check_count = Max (set (map o_provider_check_count g))\<rparr>"

definition due_groups :: "instant \<Rightarrow> 'a outbox_row_scheme list \<Rightarrow> (pystr \<times> 'a outbox_row_scheme list) list" where
  [py_eval]: "due_groups now t =
     (let rows = filter (check_due now) t in
      sort_key (\<lambda>(m, g). Min (set (List.map_filter o_provider_next_check_at g)))
        (sort_key (\<lambda>(m, g). Min (set (List.map_filter o_submitted_at g)))
          (map (\<lambda>m. (m, group_of m rows)) (dedupe (List.map_filter o_message_id rows)))))"

definition next_provider_check ::
    "instant \<Rightarrow> 'a outbox_row_scheme list \<Rightarrow> 'a outbox_row_scheme list \<times> provider_check option" where
  "next_provider_check now t =
     (case due_groups now t of
        [] \<Rightarrow> (t, None)
      | (m, g) # _ \<Rightarrow>
          (sql_update (\<lambda>r. o_message_id r = Some m \<and> o_status r = Submitted)
             (\<lambda>r. r\<lparr>o_provider_next_check_at := Some (now + seconds 60)\<rparr>) t,
           Some (group_check m g)))"

definition update_provider_pending ::
    "pystr \<Rightarrow> int \<Rightarrow> pystr option \<Rightarrow> instant \<Rightarrow> 'a outbox_row_scheme list \<Rightarrow> 'a outbox_row_scheme list" where
  "update_provider_pending mid check_count reason now = sql_update
     (\<lambda>r. o_message_id r = Some mid \<and> o_status r = Submitted)
     (\<lambda>r. r\<lparr>o_provider_status := Some (u ''pending''), o_provider_checked_at := Some now,
            o_provider_check_count := check_count + 1,
            o_provider_next_check_at := Some (now + provider_backoff (check_count + 1)),
            o_provider_error := reason, o_updated_at := now\<rparr>)"

text \<open>
  What \<open>normalize_status(get_email_status(...))\<close> gives: a verdict with an optional reason and
  delivery time, or the type of the exception it raised.
\<close>

datatype verdict = VPending | VDelivered | VFailed

datatype check_outcome = Checked verdict "pystr option" "instant option" | CheckRaised pystr

definition or_default :: "pystr option \<Rightarrow> pystr \<Rightarrow> pystr" where
  [py_eval]: "or_default v d = (case v of None \<Rightarrow> d | Some s \<Rightarrow> if s = [] then d else s)"

definition mark_delivered ::
    "pystr \<Rightarrow> instant option \<Rightarrow> instant \<Rightarrow> notification_row list \<Rightarrow> notification_row list" where
  [py_eval]: "mark_delivered mid delivered_at checked_at = sql_update
     (\<lambda>r. o_message_id r = Some mid \<and> o_status r = Submitted)
     (\<lambda>r. r\<lparr>o_status := Delivered, o_delivered_at := Some (case delivered_at of Some t \<Rightarrow> t | None \<Rightarrow> checked_at),
            o_provider_status := Some (u ''delivered''), o_provider_checked_at := Some checked_at,
            o_provider_next_check_at := None, o_provider_error := None, o_updated_at := checked_at\<rparr>)"

definition reconcile_subscriber_row ::
    "provider_check \<Rightarrow> check_outcome \<Rightarrow> instant \<Rightarrow> instant \<Rightarrow> db \<Rightarrow> db" where
  "reconcile_subscriber_row row out checked_at now db =
     (let mid = pc_message_id row;
          pending = (\<lambda>reason. db\<lparr>notification_outbox :=
            update_provider_pending mid (pc_check_count row) reason now (notification_outbox db)\<rparr>)
      in case out of
           CheckRaised name \<Rightarrow> pending (Some name)
         | Checked VPending reason _ \<Rightarrow> pending reason
         | Checked VDelivered _ delivered_at \<Rightarrow>
             let venue_ids = dedupe (map n_venue_id (group_of mid (notification_outbox db)));
                 stamp = (case delivered_at of Some t \<Rightarrow> t | None \<Rightarrow> checked_at)
             in db\<lparr>notification_outbox := mark_delivered mid delivered_at checked_at (notification_outbox db),
                   venue_status := sql_update (\<lambda>v. vs_venue_id v \<in> set venue_ids)
                     (\<lambda>v. v\<lparr>vs_last_notification_at := Some stamp, vs_updated_at := checked_at\<rparr>) (venue_status db)\<rparr>
         | Checked VFailed reason _ \<Rightarrow>
             db\<lparr>notification_outbox := sql_update (\<lambda>r. o_message_id r = Some mid \<and> o_status r = Submitted)
               (\<lambda>r. r\<lparr>o_status := Failed, o_failed_at := Some checked_at,
                  o_provider_status := Some (u ''failed''), o_provider_checked_at := Some checked_at,
                  o_provider_next_check_at := None,
                  o_provider_error := Some (or_default reason (u ''provider delivery failed'')),
                  o_last_error := Some (or_default reason (u ''provider delivery failed'')),
                  o_updated_at := checked_at\<rparr>) (notification_outbox db)\<rparr>)"

definition reconcile_system_row ::
    "provider_check \<Rightarrow> check_outcome \<Rightarrow> instant \<Rightarrow> instant \<Rightarrow> db \<Rightarrow> db" where
  "reconcile_system_row row out checked_at now db =
     (let mid = pc_message_id row;
          pending = (\<lambda>reason. db\<lparr>system_email_outbox :=
            update_provider_pending mid (pc_check_count row) reason now (system_email_outbox db)\<rparr>)
      in case out of
           CheckRaised name \<Rightarrow> pending (Some name)
         | Checked VPending reason _ \<Rightarrow> pending reason
         | Checked VDelivered _ delivered_at \<Rightarrow>
             db\<lparr>system_email_outbox := sql_update (\<lambda>r. o_message_id r = Some mid \<and> o_status r = Submitted)
               (\<lambda>r. r\<lparr>o_status := Delivered,
                  o_delivered_at := Some (case delivered_at of Some t \<Rightarrow> t | None \<Rightarrow> checked_at),
                  o_provider_status := Some (u ''delivered''), o_provider_checked_at := Some checked_at,
                  o_provider_next_check_at := None, o_last_error := None, o_updated_at := checked_at\<rparr>)
               (system_email_outbox db)\<rparr>
         | Checked VFailed reason _ \<Rightarrow>
             db\<lparr>system_email_outbox := sql_update (\<lambda>r. o_message_id r = Some mid \<and> o_status r = Submitted)
               (\<lambda>r. r\<lparr>o_status := Failed, o_failed_at := Some checked_at,
                  o_provider_status := Some (u ''failed''), o_provider_checked_at := Some checked_at,
                  o_provider_next_check_at := None,
                  o_last_error := Some (or_default reason (u ''provider delivery failed'')),
                  o_updated_at := checked_at\<rparr>) (system_email_outbox db)\<rparr>)"

section \<open>Maintenance\<close>

definition renew_subscriptions :: "instant \<Rightarrow> db \<Rightarrow> db" where
  "renew_subscriptions now db = db\<lparr>subscriptions := sql_update
     (\<lambda>s. s_active s \<and> s_auto_renew s \<and> s_active_until s \<le> now + days 45 \<and> is_priority db (s_email s))
     (\<lambda>s. s\<lparr>s_active_until := now + days 90, s_updated_at := now\<rparr>) (subscriptions db)\<rparr>"

text \<open>\<open>to_char(... AT TIME ZONE 'Asia/Shanghai', 'YYYY-MM-DD HH24:MI')\<close>.\<close>

definition shanghai_minute_text :: "instant \<Rightarrow> pystr" where
  [py_eval]: "shanghai_minute_text t = isoformat (shanghai_date t) @ u '' '' @ zpad 2 (shanghai_hour t) @ u '':''
     @ zpad 2 (((t + shanghai_offset) mod hours 1) div minutes 1)"

definition expiry_notice :: "(pystr \<Rightarrow> pystr) \<Rightarrow> instant \<Rightarrow> subscription_row \<Rightarrow> system_row" where
  "expiry_notice fresh now s =
     \<lparr>o_id = fresh (s_id s), o_email = s_email s,
      o_subject = [32593, 29699, 25552, 37266, 35746, 38405, 23558, 22312, 49, 22825, 20869, 21040, 26399],
      o_body = [20320, 30340, 32593, 29699, 25552, 37266, 35746, 38405, 23558, 22312, 32]
        @ shanghai_minute_text (s_active_until s)
        @ [32, 21040, 26399, 12290, 35831, 30331, 24405, 32, 90, 97, 99, 107, 115, 32, 32593, 29699, 25552,
           37266, 32493, 35746, 25110, 21019, 24314, 26032, 30340, 35746, 38405, 12290],
      o_status = Pending, o_attempt_count = 0, o_next_attempt_at = now, o_lease_owner = None,
      o_lease_until = None, o_created_at = now, o_updated_at = now, o_submitted_at = None,
      o_delivered_at = None, o_failed_at = None, o_message_id = None, o_provider_request_id = None,
      o_provider_status = None, o_provider_checked_at = None, o_provider_error = None,
      o_last_error = None, o_provider_check_count = 0, o_provider_next_check_at = None,
      y_dedupe_key = u ''subscription-expiry:'' @ s_id s, y_email_type = u ''subscription_expiry'',
      y_expires_at = None\<rparr>"

definition queue_expiry_notices :: "(pystr \<Rightarrow> pystr) \<Rightarrow> instant \<Rightarrow> db \<Rightarrow> db" where
  "queue_expiry_notices fresh now db = db\<lparr>system_email_outbox :=
     fold (insert_or_ignore y_dedupe_key)
       (map (expiry_notice fresh now) (filter (\<lambda>s. s_active s \<and> \<not> s_auto_renew s
          \<and> now < s_active_until s \<and> s_active_until s \<le> now + days 1) (subscriptions db)))
       (system_email_outbox db)\<rparr>"

definition retention_elapsed :: "instant \<Rightarrow> 'a outbox_row_scheme \<Rightarrow> bool" where
  [py_eval]: "retention_elapsed now r \<longleftrightarrow>
     o_status r = Submitted \<and> lt_opt (o_submitted_at r) (now - days PROVIDER_RETENTION_DAYS)"

definition give_up :: "instant \<Rightarrow> 'a outbox_row_scheme \<Rightarrow> 'a outbox_row_scheme" where
  [py_eval]: "give_up now r = r\<lparr>o_status := DeliveryUnknown, o_provider_status := Some (u ''status_check_expired''),
     o_provider_next_check_at := None,
     o_last_error := Some (u ''provider status retention window elapsed''), o_updated_at := now\<rparr>"

text \<open>
  \<open>_maintenance\<close>: renewals, expiry notices, submissions past the provider's retention, old
  challenges and subscriptions that ran out; \<open>fresh\<close> gives the random identifier of a notice.
\<close>

definition maintenance :: "(pystr \<Rightarrow> pystr) \<Rightarrow> instant \<Rightarrow> db \<Rightarrow> db" where
  "maintenance fresh now db =
     (let db1 = queue_expiry_notices fresh now (renew_subscriptions now db) in
      db1\<lparr>notification_outbox := sql_update (retention_elapsed now)
            (\<lambda>n. (give_up now n)\<lparr>o_provider_error := Some (u ''provider status retention window elapsed'')\<rparr>)
            (notification_outbox db1),
          system_email_outbox := sql_update (retention_elapsed now) (give_up now) (system_email_outbox db1),
          verification_challenges := filter (\<lambda>c. \<not> ch_created_at c < now - days 2) (verification_challenges db1),
          subscriptions := sql_update (\<lambda>s. s_active s \<and> \<not> s_auto_renew s \<and> s_active_until s \<le> now)
            (\<lambda>s. s\<lparr>s_active := False, s_updated_at := now\<rparr>) (subscriptions db1)\<rparr>)"

section \<open>Expiry\<close>

definition reminder_usable :: "db \<Rightarrow> instant \<Rightarrow> notification_row \<Rightarrow> bool" where
  [py_eval]: "reminder_usable db sqlnow n \<longleftrightarrow>
     (case (subscription_of db (n_subscription_id n), slot_of db (n_event_key n)) of
        (Some s, Some slot) \<Rightarrow> subscription_live db sqlnow s
          \<and> sqlnow < start_at (sl_booking_date slot) (sl_start_time slot)
      | _ \<Rightarrow> False)"

definition expire_system :: "instant \<Rightarrow> db \<Rightarrow> db" where
  [py_eval]: "expire_system sqlnow db = db\<lparr>system_email_outbox :=
     sql_update (\<lambda>r. is_open (o_status r) \<and> system_deadline r \<le> sqlnow)
       (\<lambda>r. r\<lparr>o_status := Expired, o_updated_at := sqlnow, o_last_error := Some (u ''system_email_expired'')\<rparr>)
       (system_email_outbox db)\<rparr>"

definition expire_reminders :: "instant \<Rightarrow> db \<Rightarrow> db" where
  [py_eval]: "expire_reminders sqlnow db = db\<lparr>notification_outbox :=
     sql_update (\<lambda>n. is_open (o_status n)
         \<and> (eligible_since n < sqlnow - minutes 15 \<or> \<not> reminder_usable db sqlnow n))
       (\<lambda>n. n\<lparr>o_status := Expired, o_updated_at := sqlnow, o_last_error := Some (u ''reminder_expired_or_cancelled'')\<rparr>)
       (notification_outbox db)\<rparr>"

definition expire_unusable :: "instant \<Rightarrow> db \<Rightarrow> sql_error + db" where
  "expire_unusable sqlnow db =
     (if times_castable db then Inr (expire_reminders sqlnow (expire_system sqlnow db)) else Inl CastAborted)"

end
