(* ===== verification/Invites.thy ===== *)
theory Invites
  imports Domain
begin

text \<open>
  Invitation codes of \<open>host_core/domain.py\<close>: normalising what a user typed, generating a
  code, its keyed hash and its encryption. Fernet is a library: its two operations under the key
  derived from a pepper are arguments.
\<close>

definition INVITE_PREFIX :: pystr where
  [py_eval]: "INVITE_PREFIX = u ''ACE''"

definition INVITE_ALPHABET :: pystr where
  [py_eval]: "INVITE_ALPHABET = u ''23456789ABCDEFGHJKLMNPQRSTUVWXYZ''"

definition INVITE_SCENES :: "pystr list" where
  "INVITE_SCENES = map u [
     ''SUNNY'', ''BREEZY'', ''CLOUD'', ''MOON'', ''STAR'', ''COMET'', ''AURORA'', ''OCEAN'',
     ''RIVER'', ''WAVE'', ''TIDE'', ''CORAL'', ''FOREST'', ''CEDAR'', ''MAPLE'', ''BAMBOO'',
     ''MEADOW'', ''GARDEN'', ''BLOOM'', ''PEACH'', ''MANGO'', ''LEMON'', ''BERRY'', ''COCOA'',
     ''HONEY'', ''MINT'', ''LATTE'', ''MOCHI'', ''COOKIE'', ''JELLY'', ''SUGAR'', ''SPICE'',
     ''RALLY'', ''SERVE'', ''VOLLEY'', ''SMASH'', ''SLICE'', ''SPIN'', ''LOB'', ''COURT'',
     ''NET'', ''BASELINE'', ''MATCH'', ''SET'', ''GAME'', ''BREAK'', ''FLASH'', ''TURBO'',
     ''ROCKET'', ''NOVA'', ''PIXEL'', ''NEON'', ''MAGIC'', ''LUCKY'', ''HAPPY'', ''BRAVE'',
     ''QUICK'', ''CHILL'', ''GLOW'', ''DREAM'', ''PARTY'', ''FIESTA'', ''SUNSET'', ''SUNRISE'']"

definition INVITE_MASCOTS :: "pystr list" where
  "INVITE_MASCOTS = map u [
     ''PANDA'', ''OTTER'', ''TIGER'', ''LION'', ''FOX'', ''WOLF'', ''BEAR'', ''KOALA'',
     ''RABBIT'', ''BUNNY'', ''DEER'', ''MOOSE'', ''HORSE'', ''ZEBRA'', ''CAMEL'', ''LLAMA'',
     ''ALPACA'', ''MONKEY'', ''LEMUR'', ''SLOTH'', ''BADGER'', ''BEAVER'', ''FERRET'',
     ''HEDGEHOG'', ''RACCOON'', ''SEAL'', ''DOLPHIN'', ''WHALE'', ''SHARK'', ''TURTLE'',
     ''PENGUIN'', ''PUFFIN'', ''EAGLE'', ''FALCON'', ''OWL'', ''ROBIN'', ''SPARROW'', ''PARROT'',
     ''TOUCAN'', ''SWAN'', ''DUCK'', ''GOOSE'', ''CRANE'', ''HERON'', ''FLAMINGO'', ''PEACOCK'',
     ''GECKO'', ''IGUANA'', ''COBRA'', ''DRAGON'', ''PHOENIX'', ''UNICORN'', ''KITTEN'',
     ''PUPPY'', ''HAMSTER'', ''CHINCHILLA'', ''BISON'', ''YAK'', ''ANT'', ''BEE'', ''BUTTERFLY'',
     ''FIREFLY'', ''LADYBUG'', ''MANTIS'']"

text \<open>\<open>[part for part in re.split(r"[^A-Z0-9]+", text) if part]\<close>: the maximal runs of A-Z and 0-9.\<close>

definition is_code_char :: "nat \<Rightarrow> bool" where
  [py_eval]: "is_code_char c \<longleftrightarrow> (65 \<le> c \<and> c \<le> 90) \<or> (48 \<le> c \<and> c \<le> 57)"

fun code_parts :: "pystr \<Rightarrow> pystr \<Rightarrow> pystr list" where
  "code_parts cur [] = (if cur = [] then [] else [cur])"
| "code_parts cur (c # cs) =
     (if is_code_char c then code_parts (cur @ [c]) cs
      else if cur = [] then code_parts [] cs else cur # code_parts [] cs)"

definition invite_parts_ok :: "pystr list \<Rightarrow> bool" where
  [py_eval]: "invite_parts_ok parts \<longleftrightarrow>
     (case parts of
        [a, b, c, d] \<Rightarrow> a = INVITE_PREFIX \<and> b \<in> set INVITE_SCENES \<and> c \<in> set INVITE_MASCOTS
          \<and> length d = 6 \<and> list_all (\<lambda>x. x \<in> set INVITE_ALPHABET) d
      | _ \<Rightarrow> False)"

definition normalize_invite_code :: "pyenv \<Rightarrow> pyval \<Rightarrow> pystr result" where
  "normalize_invite_code E v =
     (let parts = code_parts [] (strip (py_upper E (str_or_empty E v))) in
      if invite_parts_ok parts then Inr (join (u ''-'') parts) else Inl InvalidInvite)"

text \<open>\<open>generate_invite_code\<close>, from the indices \<open>secrets.choice\<close> draws.\<close>

definition pick :: "'a list \<Rightarrow> nat \<Rightarrow> 'a" where
  [py_eval]: "pick xs n = xs ! (n mod length xs)"

definition generate_invite_code :: "nat list \<Rightarrow> nat \<Rightarrow> nat \<Rightarrow> pystr" where
  "generate_invite_code suffix_draws scene_draw mascot_draw =
     INVITE_PREFIX @ u ''-'' @ pick INVITE_SCENES scene_draw @ u ''-'' @ pick INVITE_MASCOTS mascot_draw
     @ u ''-'' @ map (pick INVITE_ALPHABET) suffix_draws"

definition hash_invite_code :: "pyenv \<Rightarrow> pyval \<Rightarrow> pystr \<Rightarrow> pystr result" where
  "hash_invite_code E code pepper =
     ebind (normalize_invite_code E code) (\<lambda>normalized. Inr (hmac_hex E pepper normalized))"

definition encrypt_invite_code ::
    "pyenv \<Rightarrow> (pystr \<Rightarrow> pystr \<Rightarrow> pystr) \<Rightarrow> pystr \<Rightarrow> pystr \<Rightarrow> pystr result" where
  "encrypt_invite_code E fernet_encrypt code pepper =
     ebind (normalize_invite_code E (PStr code)) (\<lambda>normalized. Inr (fernet_encrypt pepper normalized))"

text \<open>\<open>fernet_decrypt\<close> gives \<open>None\<close> where the library raises InvalidToken or ValueError.\<close>

definition decrypt_invite_code :: "(pystr \<Rightarrow> pystr \<Rightarrow> pystr option) \<Rightarrow> pystr option \<Rightarrow> pystr \<Rightarrow> pystr option" where
  "decrypt_invite_code fernet_decrypt ciphertext pepper =
     (case ciphertext of None \<Rightarrow> None | Some c \<Rightarrow> if c = [] then None else fernet_decrypt pepper c)"

end
