(* ===== verification/Api.thy ===== *)
theory Api
  imports Worker Invites
begin

text \<open>
  The handlers of \<open>host_core/api.py\<close> that change state: identity, e-mail verification,
  pauses, subscriptions, invitation codes and the internal observation endpoint. A handler gives
  the database after it and either the error it answers with or its result; what it committed
  before an error stays.
\<close>

section \<open>Errors and identity\<close>

datatype api_error = HttpError nat | Invalid value_error | InvalidPause pause_error | UniqueViolation

type_synonym 'a reply = "db \<times> (api_error + 'a)"

definition RECEIPT_DAYS :: int where
  [py_eval]: "RECEIPT_DAYS = 180"

definition CHALLENGE_MINUTES :: int where
  [py_eval]: "CHALLENGE_MINUTES = 10"

definition COFFEE_CLAIM_DELAY_SECONDS :: int where
  [py_eval]: "COFFEE_CLAIM_DELAY_SECONDS = 5"

definition COFFEE_SESSION_MINUTES :: int where
  [py_eval]: "COFFEE_SESSION_MINUTES = 10"

text \<open>A transaction: an exception inside it leaves the database as it was.\<close>

definition atomically :: "db \<Rightarrow> (api_error + (db \<times> 'a)) \<Rightarrow> 'a reply" where
  [py_eval]: "atomically db m = (case m of Inl e \<Rightarrow> (db, Inl e) | Inr (db', x) \<Rightarrow> (db', Inr x))"

definition hash_token :: "pyenv \<Rightarrow> pystr \<Rightarrow> pystr" where
  [py_eval]: "hash_token E token = sha256_hex E token"

definition client_ip_hash :: "pyenv \<Rightarrow> pystr \<Rightarrow> pystr \<Rightarrow> pystr" where
  [py_eval]: "client_ip_hash E ip pepper = sha256_hex E (take 128 ip @ u '':'' @ pepper)"

text \<open>\<open>_identity\<close> of the authorization header: the verified address, and the receipt touched.\<close>

definition identity :: "pyenv \<Rightarrow> pystr \<Rightarrow> instant \<Rightarrow> db \<Rightarrow> db \<times> (pystr \<times> pystr) option" where
  "identity E authorization now db =
     (let token = strip (drop 7 authorization); token_hash = hash_token E token in
      if \<not> startswith authorization (u ''Bearer '') \<or> token = [] then (db, None)
      else case List.find (\<lambda>r. r_token_hash r = token_hash \<and> r_revoked_at r = None \<and> now < r_expires_at r)
                  (verified_receipts db) of
             None \<Rightarrow> (db, None)
           | Some row \<Rightarrow>
               (db\<lparr>verified_receipts := sql_update (\<lambda>r. r_token_hash r = token_hash)
                    (\<lambda>r. r\<lparr>r_last_used_at := now\<rparr>) (verified_receipts db),
                   user_profiles := sql_update (\<lambda>p. up_email p = r_email row)
                    (\<lambda>p. p\<lparr>up_last_active_at := now, up_updated_at := now\<rparr>) (user_profiles db)\<rparr>,
                Some (r_email row, r_masked_email row)))"

definition with_identity ::
    "pyenv \<Rightarrow> pystr \<Rightarrow> instant \<Rightarrow> db \<Rightarrow> (pystr \<Rightarrow> db \<Rightarrow> 'a reply) \<Rightarrow> 'a reply" where
  [py_eval]: "with_identity E authorization now db handler =
     (case identity E authorization now db of
        (db1, None) \<Rightarrow> (db1, Inl (HttpError 401))
      | (db1, Some (email, _)) \<Rightarrow> handler email db1)"

definition tier_of :: "db \<Rightarrow> pystr \<Rightarrow> tier" where
  [py_eval]: "tier_of db email = (if is_priority db email then Priority else Standard)"

section \<open>E-mail verification\<close>

definition verification_mail :: "pystr \<Rightarrow> pystr \<Rightarrow> pystr \<Rightarrow> pystr \<Rightarrow> instant \<Rightarrow> instant \<Rightarrow> system_row" where
  "verification_mail i challenge_id email code now expires_at =
     \<lparr>o_id = i, o_email = email, o_subject = u ''Zacks '' @ [32593, 29699, 25552, 37266, 39564, 35777, 30721],
      o_body = [20320, 30340, 39564, 35777, 30721, 26159, 32] @ code @ [65292] @ dec CHALLENGE_MINUTES
        @ [32, 20998, 38047, 20869, 26377, 25928, 12290],
      o_status = Pending, o_attempt_count = 0, o_next_attempt_at = now, o_lease_owner = None,
      o_lease_until = None, o_created_at = now, o_updated_at = now, o_submitted_at = None,
      o_delivered_at = None, o_failed_at = None, o_message_id = None, o_provider_request_id = None,
      o_provider_status = None, o_provider_checked_at = None, o_provider_error = None,
      o_last_error = None, o_provider_check_count = 0, o_provider_next_check_at = None,
      y_dedupe_key = u ''verification:'' @ challenge_id, y_email_type = u ''verification'',
      y_expires_at = Some expires_at\<rparr>"

definition recent_challenges :: "(challenge_row \<Rightarrow> bool) \<Rightarrow> instant \<Rightarrow> db \<Rightarrow> nat" where
  [py_eval]: "recent_challenges p now db =
     length (filter (\<lambda>c. p c \<and> now - hours 1 \<le> ch_created_at c) (verification_challenges db))"

definition send_verification_code ::
    "pyenv \<Rightarrow> pystr \<Rightarrow> pyval \<Rightarrow> pystr \<Rightarrow> instant \<Rightarrow> pystr \<Rightarrow> pystr \<Rightarrow> nat \<Rightarrow> db \<Rightarrow> (pystr \<times> instant) reply" where
  "send_verification_code E pepper raw_email ip now challenge_id mail_id draw db =
     atomically db (case normalize_email E raw_email of
        Inl e \<Rightarrow> Inl (Invalid e)
      | Inr email \<Rightarrow>
          let ip_hash = client_ip_hash E ip pepper;
              code = random_verification_code draw;
              expires_at = now + minutes CHALLENGE_MINUTES
          in if 3 \<le> recent_challenges (\<lambda>c. ch_email c = email) now db
                \<or> 20 \<le> recent_challenges (\<lambda>c. ch_ip_hash c = ip_hash) now db
             then Inl (HttpError 429)
             else Inr (db\<lparr>verification_challenges := verification_challenges db
                          @ [\<lparr>ch_id = challenge_id, ch_email = email,
                              ch_code_hash = hash_verification_code E challenge_id code pepper,
                              ch_ip_hash = ip_hash, ch_expires_at = expires_at, ch_attempts = 0,
                              ch_consumed_at = None, ch_created_at = now\<rparr>],
                         system_email_outbox := system_email_outbox db
                          @ [verification_mail mail_id challenge_id email code now expires_at]\<rparr>,
                       (challenge_id, expires_at)))"

definition open_challenge :: "instant \<Rightarrow> pystr \<Rightarrow> challenge_row \<Rightarrow> bool" where
  [py_eval]: "open_challenge now i c \<longleftrightarrow> ch_id c = i \<and> ch_consumed_at c = None \<and> now < ch_expires_at c"

text \<open>The tables a successful verification writes.\<close>

definition grant_receipt :: "pyenv \<Rightarrow> pystr \<Rightarrow> pystr \<Rightarrow> pystr \<Rightarrow> instant \<Rightarrow> db \<Rightarrow> db" where
  "grant_receipt E token email masked now db =
     db\<lparr>verified_receipts := verified_receipts db
          @ [\<lparr>r_token_hash = hash_token E token, r_email = email, r_masked_email = masked,
              r_expires_at = now + days RECEIPT_DAYS, r_last_used_at = now, r_created_at = now,
              r_revoked_at = None\<rparr>],
        user_profiles := upsert up_email
          (\<lambda>old new. old\<lparr>up_masked_email := up_masked_email new, up_last_verified_at := up_last_verified_at new,
             up_last_login_at := up_last_login_at new, up_last_active_at := up_last_active_at new,
             up_updated_at := up_updated_at new\<rparr>)
          \<lparr>up_email = email, up_masked_email = masked, up_first_verified_at = now, up_last_verified_at = now,
           up_last_login_at = now, up_last_active_at = now, up_created_at = now, up_updated_at = now\<rparr>
          (user_profiles db),
        user_delivery_tiers := insert_or_ignore t_email
          \<lparr>t_email = email, t_tier = Standard, t_source_invite_id = None, t_created_at = now,
           t_updated_at = now, t_revoked_at = None\<rparr> (user_delivery_tiers db)\<rparr>"

definition verify_email ::
    "pyenv \<Rightarrow> pystr \<Rightarrow> pyval \<Rightarrow> pyval \<Rightarrow> pystr \<Rightarrow> instant \<Rightarrow> db \<Rightarrow> (pystr \<times> pystr) reply" where
  "verify_email E pepper raw_challenge raw_code token now db =
     (let challenge_id = strip (str_or_empty E raw_challenge); code = strip (str_or_empty E raw_code) in
      if challenge_id = [] \<or> code = [] then (db, Inl (HttpError 400))
      else case List.find (open_challenge now challenge_id) (verification_challenges db) of
        None \<Rightarrow> (db, Inl (HttpError 400))
      | Some row \<Rightarrow>
          if 5 \<le> ch_attempts row then (db, Inl (HttpError 400))
          else if \<not> constant_time_equal (hash_verification_code E challenge_id code pepper) (ch_code_hash row)
          then (db\<lparr>verification_challenges := sql_update (\<lambda>c. ch_id c = challenge_id)
                  (\<lambda>c. c\<lparr>ch_attempts := ch_attempts c + 1\<rparr>) (verification_challenges db)\<rparr>, Inl (HttpError 400))
          else case mask_email (ch_email row) of
            Inl e \<Rightarrow> (db, Inl (Invalid e))
          | Inr masked \<Rightarrow>
              (grant_receipt E token (ch_email row) masked now
                (db\<lparr>verification_challenges := sql_update (\<lambda>c. ch_id c = challenge_id)
                   (\<lambda>c. c\<lparr>ch_consumed_at := Some now\<rparr>) (verification_challenges db)\<rparr>),
               Inr (token, ch_email row)))"

section \<open>Pauses and subscriptions\<close>

definition update_notification_pauses ::
    "pystr \<Rightarrow> pyval \<Rightarrow> instant \<Rightarrow> instant \<Rightarrow> db \<Rightarrow> (pause_view \<times> pystr list) reply" where
  "update_notification_pauses email payload now gen_now db =
     atomically db (case update_pauses db email payload now of
        Inl e \<Rightarrow> Inl (InvalidPause e)
      | Inr (db1, view, changed) \<Rightarrow>
          let venue_ids = dedupe (map sv_venue_id (filter
                (\<lambda>sv. case subscription_of db1 (sv_subscription_id sv) of
                        None \<Rightarrow> False | Some s \<Rightarrow> s_email s = email \<and> s_active s) (subscription_venues db1)))
          in Inr (if changed = [] then db1 else increment_subscription_generations venue_ids gen_now db1,
                  (view, changed)))"

definition deactivate_expired :: "pystr \<Rightarrow> instant \<Rightarrow> db \<Rightarrow> db" where
  [py_eval]: "deactivate_expired email now db = db\<lparr>subscriptions := sql_update
     (\<lambda>s. s_email s = email \<and> s_active s \<and> s_active_until s \<le> now \<and> \<not> s_auto_renew s)
     (\<lambda>s. s\<lparr>s_active := False, s_updated_at := now\<rparr>) (subscriptions db)\<rparr>"

definition active_count :: "db \<Rightarrow> pystr \<Rightarrow> instant \<Rightarrow> nat" where
  [py_eval]: "active_count db email now =
     length (filter (\<lambda>s. s_email s = email \<and> s_active s \<and> now < s_active_until s) (subscriptions db))"

definition subscription_row_of ::
    "pystr \<Rightarrow> pystr \<Rightarrow> subscription_input \<Rightarrow> int \<Rightarrow> pystr \<Rightarrow> resolved_term \<Rightarrow> instant \<Rightarrow> subscription_row" where
  [py_eval]: "subscription_row_of i email candidate wmask key tm now =
     \<lparr>s_id = i, s_email = email, s_venue_ids = si_venue_ids candidate, s_start_time = si_start_time candidate,
      s_end_time = si_end_time candidate, s_weekday_mask = wmask, s_duration_days = rt_duration_days tm,
      s_term_code = rt_term_code tm, s_auto_renew = rt_auto_renew tm, s_dedupe_key = Some key,
      s_active_until = rt_active_until tm, s_active = True, s_created_at = now, s_updated_at = now\<rparr>"

text \<open>
  \<open>limits\<close> are the subscription limits per tier. The partial unique index on active
  \<open>(email, dedupe_key)\<close> makes the insert fail where the query before it does not look.
\<close>

definition insert_subscription :: "subscription_row \<Rightarrow> instant \<Rightarrow> db \<Rightarrow> api_error + db" where
  "insert_subscription row gen_now db =
     (if list_ex (\<lambda>s. s_email s = s_email row \<and> s_dedupe_key s = s_dedupe_key row \<and> s_active s) (subscriptions db)
      then Inl UniqueViolation
      else Inr (increment_subscription_generations (s_venue_ids row) gen_now
        (db\<lparr>subscriptions := subscriptions db @ [row],
            subscription_venues := subscription_venues db
              @ map (\<lambda>v. \<lparr>sv_subscription_id = s_id row, sv_venue_id = v\<rparr>) (s_venue_ids row)\<rparr>)))"

definition create_subscription ::
    "pyenv \<Rightarrow> (tier \<Rightarrow> int) \<Rightarrow> pystr \<Rightarrow> pyval \<Rightarrow> instant \<Rightarrow> instant \<Rightarrow> pystr \<Rightarrow> db \<Rightarrow> subscription_row reply" where
  "create_subscription E limits email payload now gen_now subscription_id db =
     atomically db (
       let db1 = deactivate_expired email now db; tier = tier_of db1 email in
       case validate_subscription E payload (tier = Priority) of
         Inl e \<Rightarrow> Inl (Invalid e)
       | Inr candidate \<Rightarrow>
           if limits tier \<le> int (active_count db1 email now) then Inl (HttpError 409)
           else case weekday_mask (si_weekdays candidate) of
             Inl e \<Rightarrow> Inl (Invalid e)
           | Inr wmask \<Rightarrow>
               let key = subscription_dedupe_key E email (si_venue_ids candidate)
                           (si_start_time candidate) (si_end_time candidate) wmask
               in if list_ex (\<lambda>s. s_email s = email \<and> s_dedupe_key s = Some key \<and> s_active s
                        \<and> now < s_active_until s) (subscriptions db1)
                  then Inl (HttpError 409)
                  else case resolve_term (si_term_code candidate) now of
                    Inl e \<Rightarrow> Inl (Invalid e)
                  | Inr tm \<Rightarrow>
                      let row = subscription_row_of subscription_id email candidate wmask key tm now in
                      ebind (insert_subscription row gen_now db1) (\<lambda>db2. Inr (db2, row)))"

definition cancel_subscription :: "pystr \<Rightarrow> pystr \<Rightarrow> instant \<Rightarrow> instant \<Rightarrow> db \<Rightarrow> unit reply" where
  "cancel_subscription email subscription_id sqlnow gen_now db =
     (case List.find (\<lambda>s. s_id s = subscription_id \<and> s_email s = email \<and> s_active s) (subscriptions db) of
        None \<Rightarrow> (db, Inl (HttpError 404))
      | Some row \<Rightarrow>
          (increment_subscription_generations (s_venue_ids row) gen_now
             (db\<lparr>subscriptions := sql_update (\<lambda>s. s_id s = subscription_id \<and> s_email s = email)
                  (\<lambda>s. s\<lparr>s_active := False, s_updated_at := sqlnow\<rparr>) (subscriptions db),
                notification_outbox := sql_update
                  (\<lambda>n. n_subscription_id n = subscription_id \<and> is_open (o_status n))
                  (withdraw (u ''subscription_cancelled'') sqlnow) (notification_outbox db)\<rparr>),
           Inr ()))"

section \<open>Invitations\<close>

definition redeemable :: "pystr \<Rightarrow> instant \<Rightarrow> invite_row \<Rightarrow> bool" where
  [py_eval]: "redeemable code_hash now i \<longleftrightarrow> iv_code_hash i = code_hash \<and> iv_active i
     \<and> iv_redeemed_at i = None \<and> iv_deleted_at i = None \<and> now < iv_expires_at i"

definition make_priority :: "pystr \<Rightarrow> pystr \<Rightarrow> instant \<Rightarrow> db \<Rightarrow> db" where
  [py_eval]: "make_priority email invite_id now db = db\<lparr>user_delivery_tiers := upsert t_email
     (\<lambda>old new. old\<lparr>t_tier := Priority, t_source_invite_id := t_source_invite_id new,
        t_updated_at := t_updated_at new, t_revoked_at := None\<rparr>)
     \<lparr>t_email = email, t_tier = Priority, t_source_invite_id = Some invite_id, t_created_at = now,
      t_updated_at = now, t_revoked_at = None\<rparr> (user_delivery_tiers db)\<rparr>"

definition redeem_priority ::
    "pyenv \<Rightarrow> pystr \<Rightarrow> pystr \<Rightarrow> pyval \<Rightarrow> pystr \<Rightarrow> instant \<Rightarrow> pystr \<Rightarrow> db \<Rightarrow> unit reply" where
  "redeem_priority E invite_pepper email raw_code ip_hash now attempt_id db =
     (case hash_invite_code E raw_code invite_pepper of
        Inl e \<Rightarrow> (db, Inl (Invalid e))
      | Inr code_hash \<Rightarrow>
          if 10 \<le> length (filter (\<lambda>a. ia_email a = email \<and> now - hours 1 < ia_created_at a) (priority_invite_attempts db))
          then (db, Inl (HttpError 429))
          else
            let found = List.find (redeemable code_hash now) (priority_invite_codes db);
                db1 = db\<lparr>priority_invite_attempts := priority_invite_attempts db
                  @ [\<lparr>ia_id = attempt_id, ia_email = email, ia_ip_hash = ip_hash, ia_success = (found \<noteq> None),
                      ia_created_at = now\<rparr>]\<rparr>
            in case found of
                 None \<Rightarrow> (db1, Inl (HttpError 400))
               | Some row \<Rightarrow>
                   (make_priority email (iv_id row) now
                     (db1\<lparr>priority_invite_codes := sql_update (\<lambda>i. iv_id i = iv_id row)
                        (\<lambda>i. i\<lparr>iv_redeemed_by := Some email, iv_redeemed_at := Some now, iv_updated_at := now\<rparr>)
                        (priority_invite_codes db1)\<rparr>), Inr ()))"

definition coffee_session ::
    "pyenv \<Rightarrow> pystr \<Rightarrow> pystr \<Rightarrow> instant \<Rightarrow> pystr \<Rightarrow> pystr \<Rightarrow> db \<Rightarrow> (pystr \<times> bool) reply" where
  "coffee_session E email ip_hash now session_id claim_token db =
     (if 20 \<le> length (filter (\<lambda>s. cs_email s = email \<and> now - hours 1 < cs_created_at s) (coffee_invite_sessions db))
      then (db, Inl (HttpError 429))
      else (db\<lparr>coffee_invite_sessions := coffee_invite_sessions db
               @ [\<lparr>cs_id = session_id @ u '':'' @ hash_token E claim_token, cs_email = email, cs_ip_hash = ip_hash,
                   cs_shown_at = now, cs_claimable_at = now + seconds COFFEE_CLAIM_DELAY_SECONDS,
                   cs_expires_at = now + minutes COFFEE_SESSION_MINUTES, cs_consumed_at = None,
                   cs_created_at = now\<rparr>]\<rparr>,
            Inr (session_id @ u ''.'' @ claim_token, has_key cc_email email (coffee_invite_claims db))))"

definition invite_status :: "invite_row \<Rightarrow> instant \<Rightarrow> pystr" where
  "invite_status i now =
     (if iv_deleted_at i \<noteq> None then u ''deleted'' else if iv_redeemed_at i \<noteq> None then u ''redeemed''
      else if iv_expires_at i \<le> now then u ''expired'' else if iv_active i then u ''available'' else u ''disabled'')"

text \<open>
  \<open>"-".join(code.split("-")[:3])\<close>: what comes before the third hyphen.
\<close>

definition code_hint :: "pystr \<Rightarrow> pystr" where
  [py_eval]: "code_hint code =
     (case partition_at 45 code of (a, f, r) \<Rightarrow> if \<not> f then a
      else case partition_at 45 r of (b, g, s) \<Rightarrow> if \<not> g then a @ [45] @ b
      else a @ [45] @ b @ [45] @ fst (partition_at 45 s))"

definition new_invite ::
    "pystr \<Rightarrow> pystr \<Rightarrow> pystr \<Rightarrow> pystr \<Rightarrow> instant \<Rightarrow> pystr option \<Rightarrow> instant \<Rightarrow> invite_row" where
  [py_eval]: "new_invite i code_hash encrypted hint expires_at note now =
     \<lparr>iv_id = i, iv_code_hash = code_hash, iv_encrypted_code = Some encrypted, iv_code_hint = Some hint,
      iv_expires_at = expires_at, iv_active = True, iv_note = note, iv_created_at = now,
      iv_updated_at = now, iv_redeemed_by = None, iv_redeemed_at = None, iv_deleted_at = None\<rparr>"

text \<open>\<open>coffee_invite\<close>; \<open>code\<close> is what \<open>generate_invite_code\<close> drew.\<close>

definition coffee_invite ::
    "pyenv \<Rightarrow> (pystr \<Rightarrow> pystr \<Rightarrow> pystr) \<Rightarrow> (pystr \<Rightarrow> pystr \<Rightarrow> pystr option) \<Rightarrow> pystr \<Rightarrow> pystr \<Rightarrow> pyval \<Rightarrow>
     pystr \<Rightarrow> pystr \<Rightarrow> instant \<Rightarrow> db \<Rightarrow> (pystr \<times> bool \<times> pystr) reply" where
  "coffee_invite E enc decr pepper email raw_token code invite_id now db =
     (case partition_at 46 (str_or_empty E raw_token) of (session_id, separator, secret) \<Rightarrow>
      if \<not> separator then (db, Inl (HttpError 400))
      else
        let session_key = session_id @ u '':'' @ hash_token E secret in
        case Option.bind (find_row cc_email email (coffee_invite_claims db))
               (\<lambda>c. find_row iv_id (cc_invite_id c) (priority_invite_codes db)) of
          Some invite \<Rightarrow>
            (case decrypt_invite_code decr (iv_encrypted_code invite) pepper of
               None \<Rightarrow> (db, Inl (HttpError 503))
             | Some c \<Rightarrow> (db, if c = [] then Inl (HttpError 503) else Inr (c, True, invite_status invite now)))
        | None \<Rightarrow>
            (case List.find (\<lambda>s. cs_id s = session_key \<and> cs_email s = email) (coffee_invite_sessions db) of
               None \<Rightarrow> (db, Inl (HttpError 400))
             | Some session \<Rightarrow>
                 if cs_consumed_at session \<noteq> None \<or> cs_expires_at session \<le> now then (db, Inl (HttpError 400))
                 else if now < cs_claimable_at session then (db, Inl (HttpError 425))
                 else atomically db (
                   case (hash_invite_code E (PStr code) pepper, encrypt_invite_code E enc code pepper) of
                     (Inr code_hash, Inr encrypted) \<Rightarrow>
                       if has_key cc_email email (coffee_invite_claims db)
                          \<or> has_key iv_code_hash code_hash (priority_invite_codes db)
                          \<or> has_key iv_id invite_id (priority_invite_codes db)
                       then Inl UniqueViolation
                       else Inr (db\<lparr>priority_invite_codes := priority_invite_codes db
                              @ [new_invite invite_id code_hash encrypted (code_hint code) (now + days 30)
                                   (Some (u ''coffee-support'')) now],
                            coffee_invite_claims := coffee_invite_claims db
                              @ [\<lparr>cc_email = email, cc_session_id = session_key, cc_invite_id = invite_id,
                                  cc_ip_hash = cs_ip_hash session, cc_claimed_at = now\<rparr>],
                            coffee_invite_sessions := sql_update (\<lambda>s. cs_id s = session_key)
                              (\<lambda>s. s\<lparr>cs_consumed_at := Some now\<rparr>) (coffee_invite_sessions db)\<rparr>,
                          (code, False, u ''available''))
                   | (Inl e, _) \<Rightarrow> Inl (Invalid e)
                   | (_, Inl e) \<Rightarrow> Inl (Invalid e))))"

definition delete_invite :: "pystr \<Rightarrow> instant \<Rightarrow> db \<Rightarrow> unit reply" where
  "delete_invite invite_id sqlnow db =
     (let p = (\<lambda>i. iv_id i = invite_id \<and> iv_redeemed_at i = None \<and> iv_deleted_at i = None) in
      if \<not> list_ex p (priority_invite_codes db) then (db, Inl (HttpError 404))
      else (db\<lparr>priority_invite_codes := sql_update p
              (\<lambda>i. i\<lparr>iv_active := False, iv_deleted_at := Some sqlnow, iv_updated_at := sqlnow\<rparr>)
              (priority_invite_codes db)\<rparr>, Inr ()))"

section \<open>Requests\<close>

text \<open>The handlers above as a request reaches them: behind the identity of its bearer token.\<close>

definition pauses_request :: "pyenv \<Rightarrow> pystr \<Rightarrow> instant \<Rightarrow> pyval \<Rightarrow> instant \<Rightarrow> instant \<Rightarrow> db \<Rightarrow> (pause_view \<times> pystr list) reply" where
  "pauses_request E auth at_auth payload now gen_now db =
     with_identity E auth at_auth db (\<lambda>email. update_notification_pauses email payload now gen_now)"

definition create_request ::
    "pyenv \<Rightarrow> pystr \<Rightarrow> instant \<Rightarrow> (tier \<Rightarrow> int) \<Rightarrow> pyval \<Rightarrow> instant \<Rightarrow> instant \<Rightarrow> pystr \<Rightarrow> db \<Rightarrow> subscription_row reply" where
  "create_request E auth at_auth limits payload now gen_now subscription_id db =
     with_identity E auth at_auth db (\<lambda>email. create_subscription E limits email payload now gen_now subscription_id)"

definition cancel_request :: "pyenv \<Rightarrow> pystr \<Rightarrow> instant \<Rightarrow> pystr \<Rightarrow> instant \<Rightarrow> instant \<Rightarrow> db \<Rightarrow> unit reply" where
  "cancel_request E auth at_auth subscription_id sqlnow gen_now db =
     with_identity E auth at_auth db (\<lambda>email. cancel_subscription email subscription_id sqlnow gen_now)"

definition redeem_request ::
    "pyenv \<Rightarrow> pystr \<Rightarrow> instant \<Rightarrow> pystr \<Rightarrow> pyval \<Rightarrow> pystr \<Rightarrow> instant \<Rightarrow> pystr \<Rightarrow> db \<Rightarrow> unit reply" where
  "redeem_request E auth at_auth invite_pepper raw_code ip_hash now attempt_id db =
     with_identity E auth at_auth db (\<lambda>email. redeem_priority E invite_pepper email raw_code ip_hash now attempt_id)"

section \<open>Observations\<close>

definition close_gate :: "ingest_response \<Rightarrow> ingest_response" where
  [py_eval]: "close_gate r = (case r of
     OlderIgnored g \<Rightarrow> OlderIgnored (g\<lparr>gate_allowed := False\<rparr>)
   | Accepted v n m d g \<Rightarrow> Accepted v n m d (g\<lparr>gate_allowed := False\<rparr>))"

definition internal_observation ::
    "pyenv \<Rightarrow> (pystr \<Rightarrow> pystr \<Rightarrow> pystr) \<Rightarrow> pyval \<Rightarrow> instant \<Rightarrow> instant \<Rightarrow> instant \<Rightarrow> db \<Rightarrow> ingest_response reply" where
  "internal_observation E uuid payload parsed_at now sqlnow db =
     (case ingest_observation E uuid payload parsed_at now sqlnow db of
        Inl e \<Rightarrow> (db, Inl (Invalid e))
      | Inr (db', r) \<Rightarrow> (db', Inr (if delivery_enabled db' then r else close_gate r)))"

end
