(* ===== verification/Lifecycle.thy ===== *)
theory Lifecycle
  imports Api
begin

text \<open>
  How one transaction may change an e-mail outbox: which status may follow which, and that every
  operation of the worker and the API maps the rows of a table one by one and appends new pending
  rows. The life cycle and the delivery invariant are proved over this shape.
\<close>

section \<open>Status changes\<close>

text \<open>Changes that neither start nor finish a send.\<close>

definition calm :: "status \<Rightarrow> status \<Rightarrow> bool" where
  [py_eval]: "calm s s' \<longleftrightarrow> s = s'
     \<or> (is_open s \<and> s' \<in> {Processing, Retry, Expired, Cancelled, Suppressed})
     \<or> (s = Dispatching \<and> s' = SubmissionUnknown)
     \<or> (s = Submitted \<and> s' \<in> {Delivered, Failed, DeliveryUnknown})
     \<or> (s = Cancelled \<and> s' = Pending)"

text \<open>All changes: a send starts from a claimed row and ends in one of four ways.\<close>

definition may_follow :: "status \<Rightarrow> status \<Rightarrow> bool" where
  [py_eval]: "may_follow s s' \<longleftrightarrow> calm s s' \<or> (s = Processing \<and> s' = Dispatching)
     \<or> (s = Dispatching \<and> s' \<in> {Submitted, SubmissionUnknown, Retry, Failed})"

text \<open>Rows that no provider call can have reached, and rows that never change again.\<close>

definition unsent :: "status \<Rightarrow> bool" where
  [py_eval]: "unsent s \<longleftrightarrow> is_open s \<or> s \<in> {Cancelled, Expired, Suppressed}"

definition final :: "status \<Rightarrow> bool" where
  [py_eval]: "final s \<longleftrightarrow> s \<in> {Delivered, Failed, Expired, Suppressed, SubmissionUnknown, DeliveryUnknown, Sent}"

text \<open>A row that was not handed over carries no trace of a submission.\<close>

definition clean :: "'a outbox_row_scheme \<Rightarrow> bool" where
  [py_eval]: "clean r \<longleftrightarrow> (unsent (o_status r) \<or> o_status r = Dispatching \<longrightarrow> o_submitted_at r = None \<and> o_message_id r = None)"

definition evolves ::
    "(status \<Rightarrow> status \<Rightarrow> bool) \<Rightarrow> 'a outbox_row_scheme list \<Rightarrow> 'a outbox_row_scheme list \<Rightarrow> bool" where
  "evolves R t t' \<longleftrightarrow> (\<exists>g new. t' = map g t @ new
     \<and> (\<forall>r \<in> set t. o_id (g r) = o_id r \<and> R (o_status r) (o_status (g r)) \<and> (clean r \<longrightarrow> clean (g r)))
     \<and> (\<forall>r \<in> set new. o_status r = Pending \<and> clean r))"

named_theorems evolution \<open>operations whose effect on an outbox is an evolution\<close>

lemma evolvesI:
  "t' = map g t @ new \<Longrightarrow> (\<And>r. r \<in> set t \<Longrightarrow> o_id (g r) = o_id r \<and> R (o_status r) (o_status (g r)) \<and> (clean r \<longrightarrow> clean (g r))) \<Longrightarrow>
   (\<And>r. r \<in> set new \<Longrightarrow> o_status r = Pending \<and> clean r) \<Longrightarrow> evolves R t t'"
  by (auto simp: evolves_def)

lemma evolves_update:
  assumes "\<And>r. r \<in> set t \<Longrightarrow> p r \<Longrightarrow> o_id (f r) = o_id r \<and> R (o_status r) (o_status (f r)) \<and> (clean r \<longrightarrow> clean (f r))" "\<And>s. R s s"
  shows "evolves R t (sql_update p f t)"
  by (rule evolvesI [where g = "\<lambda>r. if p r then f r else r" and new = "[]"])
    (use assms in \<open>auto simp: sql_update_def\<close>)

lemma calm_refl [simp]: "calm s s"
  by (simp add: calm_def)

lemma may_follow_refl [simp]: "may_follow s s"
  by (simp add: may_follow_def)

lemma evolves_refl [simp]: "(\<And>s. R s s) \<Longrightarrow> evolves R t t"
  by (rule evolvesI [where g = id and new = "[]"]) auto

lemma evolves_mono: "evolves R t t' \<Longrightarrow> (\<And>s s'. R s s' \<Longrightarrow> S s s') \<Longrightarrow> evolves S t t'"
  unfolding evolves_def by blast

lemma calm_may_follow: "calm s s' \<Longrightarrow> may_follow s s'"
  by (simp add: may_follow_def)

lemma evolves_row:
  "evolves R t t' \<Longrightarrow> r \<in> set t \<Longrightarrow> \<exists>r' \<in> set t'. o_id r' = o_id r \<and> R (o_status r) (o_status r')"
  by (auto simp: evolves_def)

lemma calm_unsent: "calm s s' \<Longrightarrow> unsent s' \<Longrightarrow> unsent s"
  by (auto simp: calm_def unsent_def)

lemma final_stays: "may_follow s s' \<Longrightarrow> final s \<Longrightarrow> s' = s"
  by (auto simp: may_follow_def calm_def final_def)

section \<open>What the operations do\<close>

lemma release_evolves [evolution]:
  "evolves calm (notification_outbox db) (notification_outbox (release_expired_leases now db))"
  "evolves calm (system_email_outbox db) (system_email_outbox (release_expired_leases now db))"
proof -
  have "evolves calm t (requeue_leases now (interrupt_leases now t))" for t :: "'a outbox_row_scheme list"
    by (rule evolvesI [where g = "\<lambda>r. let r1 = (if o_status r = Dispatching \<and> lease_over now r then interrupted now r else r)
          in if o_status r1 = Processing \<and> lease_over now r1 then requeued now r1 else r1" and new = "[]"])
      (auto simp: requeue_leases_def interrupt_leases_def sql_update_def interrupted_def requeued_def calm_def clean_def unsent_def)
  then show "evolves calm (notification_outbox db) (notification_outbox (release_expired_leases now db))"
    "evolves calm (system_email_outbox db) (system_email_outbox (release_expired_leases now db))"
    by (simp_all add: release_expired_leases_def Let_def)
qed

lemma pause_evolves [evolution]:
  "evolves calm (notification_outbox db) (notification_outbox (do_pause email dates now db))"
  by (auto simp: do_pause_def Let_def release_unused_claims_def pause_cancels_def withdraw_def calm_def clean_def unsent_def
      split: list.split intro!: evolves_update)

lemma cancel_evolves [evolution]:
  "evolves calm (notification_outbox db) (notification_outbox (fst (cancel_subscription email i sqlnow gnow db)))"
  by (auto simp: cancel_subscription_def increment_subscription_generations_def withdraw_def calm_def clean_def unsent_def
      split: option.split intro!: evolves_update)

lemma claim_system_evolves [evolution]:
  assumes "distinct (map o_id (system_email_outbox db))"
  shows "evolves calm (system_email_outbox db) (system_email_outbox (fst (claim_system worker now locked db)))"
proof (cases "sort_key o_created_at (filter (\<lambda>r. claimable now r \<and> \<not> locked (o_id r)) (system_email_outbox db))")
  case Nil
  then show ?thesis by (simp add: claim_system_def)
next
  case (Cons row rows)
  then have "row \<in> set (sort_key o_created_at (filter (\<lambda>r. claimable now r \<and> \<not> locked (o_id r)) (system_email_outbox db)))"
    by simp
  then have row: "row \<in> set (system_email_outbox db)" "is_open (o_status row)"
    by (simp_all add: claimable_def)
  have "is_open (o_status r)" if "r \<in> set (system_email_outbox db)" "o_id r = o_id row" for r
    using assms row that by (metis distinct_map inj_onD)
  with row Cons show ?thesis
    by (auto simp: claim_system_def leased_def calm_def clean_def unsent_def intro!: evolves_update)
qed

lemma group_rows_mem: "n \<in> set (group_rows db now target locked) \<Longrightarrow>
   n \<in> set (notification_outbox db) \<and> claimable_day db now n = Some (st_booking_date target) \<and> o_email n = st_email target"
  unfolding group_rows_def by (drule in_set_takeD) auto

lemma claimable_day_open: "claimable_day db now n = Some d \<Longrightarrow> claimable now n"
  by (auto simp: claimable_day_def split: option.splits if_splits)

lemma group_evolves:
  assumes "distinct (map o_id (notification_outbox db))"
    and "\<And>n. o_id (f n) = o_id n \<and> o_status (f n) \<in> {Processing, Suppressed}
      \<and> o_submitted_at (f n) = o_submitted_at n \<and> o_message_id (f n) = o_message_id n"
  shows "evolves calm (notification_outbox db)
    (sql_update (\<lambda>n. o_id n \<in> o_id ` set (group_rows db now target locked)) f (notification_outbox db))"
proof (rule evolves_update)
  fix n
  assume "n \<in> set (notification_outbox db)" "o_id n \<in> o_id ` set (group_rows db now target locked)"
  then obtain n' where n': "n' \<in> set (group_rows db now target locked)" "o_id n = o_id n'" by blast
  then have "n = n'" using assms(1) \<open>n \<in> _\<close> group_rows_mem by (metis distinct_map inj_onD)
  then have "is_open (o_status n)" using group_rows_mem [OF n'(1)] claimable_day_open by (metis claimable_def)
  then show "o_id (f n) = o_id n \<and> calm (o_status n) (o_status (f n)) \<and> (clean n \<longrightarrow> clean (f n))"
    using assms(2) [of n] by (auto simp: calm_def clean_def unsent_def)
qed simp

lemma claim_subscriber_evolves [evolution]:
  assumes "distinct (map o_id (notification_outbox db))"
  shows "evolves calm (notification_outbox db)
    (notification_outbox (fst (claim_subscriber_group E worker settings target weather now claim_id locked db)))"
proof (cases "group_rows db now target locked")
  case (Cons row rows)
  then have "insert (o_id row) (o_id ` set rows) = o_id ` set (group_rows db now target locked)" by simp
  then show ?thesis
    using group_evolves [OF assms, of "\<lambda>n. (leased worker now n)\<lparr>n_delivery_claim_id := Some claim_id\<rparr>" now target locked]
      group_evolves [OF assms, of "\<lambda>n. n\<lparr>o_status := Suppressed, o_last_error := Some e, o_lease_owner := None,
              o_lease_until := None, o_updated_at := now\<rparr>" now target locked for e]
    by (simp add: claim_subscriber_group_def Cons Let_def suppress_def reserve_def leased_def)
qed (simp add: claim_subscriber_group_def)

lemma expire_evolves [evolution]:
  "evolves calm (notification_outbox db) (notification_outbox (expire_reminders sqlnow (expire_system sqlnow db)))"
  "evolves calm (system_email_outbox db) (system_email_outbox (expire_reminders sqlnow (expire_system sqlnow db)))"
  by (auto simp: expire_reminders_def expire_system_def calm_def clean_def unsent_def intro!: evolves_update)

lemma check_evolves [evolution]: "evolves calm t (fst (next_provider_check now t))"
  by (auto simp: next_provider_check_def clean_def unsent_def split: list.split intro!: evolves_update)

lemma reconcile_evolves [evolution]:
  "evolves calm (notification_outbox db) (notification_outbox (reconcile_subscriber_row row out checked now db))"
  "evolves calm (system_email_outbox db) (system_email_outbox (reconcile_system_row row out checked now db))"
  by (auto simp: reconcile_subscriber_row_def reconcile_system_row_def Let_def update_provider_pending_def
      mark_delivered_def calm_def clean_def unsent_def split: check_outcome.split verdict.split intro!: evolves_update)

lemma fold_insert_new:
  "\<exists>new. fold (insert_or_ignore key) rows t = t @ new \<and> set new \<subseteq> set rows \<and> distinct (map key new)
     \<and> key ` set new \<inter> key ` set t = {}"
proof (induction rows arbitrary: t)
  case (Cons r rows)
  obtain new where new: "fold (insert_or_ignore key) rows (insert_or_ignore key r t) = insert_or_ignore key r t @ new"
    "set new \<subseteq> set rows" "distinct (map key new)" "key ` set new \<inter> key ` set (insert_or_ignore key r t) = {}"
    using Cons by blast
  show ?case
  proof (cases "has_key key (key r) t")
    case True
    with new show ?thesis by (intro exI [of _ new]) (auto simp: insert_or_ignore_def [of key r t])
  next
    case False
    with new show ?thesis
      by (intro exI [of _ "r # new"]) (auto simp: insert_or_ignore_def [of key r t] has_key_iff)
  qed
qed simp

text \<open>Maintenance appends one notice per subscription that runs out, under its own key.\<close>

lemma maintenance_system_outbox:
  obtains new where "system_email_outbox (maintenance fresh now db) =
      map (\<lambda>r. if retention_elapsed now r then give_up now r else r) (system_email_outbox db) @ new"
    "\<forall>r \<in> set new. o_status r = Pending \<and> clean r \<and> (\<exists>i. o_id r = fresh i \<and> y_dedupe_key r = u ''subscription-expiry:'' @ i)"
    "distinct (map y_dedupe_key new)" "y_dedupe_key ` set new \<inter> y_dedupe_key ` set (system_email_outbox db) = {}"
proof -
  define rows where "rows = map (expiry_notice fresh now) (filter (\<lambda>s. s_active s \<and> \<not> s_auto_renew s
      \<and> now < s_active_until s \<and> s_active_until s \<le> now + days 1) (subscriptions (renew_subscriptions now db)))"
  have rows: "system_email_outbox (queue_expiry_notices fresh now (renew_subscriptions now db)) =
      fold (insert_or_ignore y_dedupe_key) rows (system_email_outbox db)"
    unfolding queue_expiry_notices_def rows_def [symmetric] by (simp add: renew_subscriptions_def)
  have row: "\<forall>r \<in> set rows. o_status r = Pending \<and> clean r \<and> (\<exists>i. o_id r = fresh i \<and> y_dedupe_key r = u ''subscription-expiry:'' @ i)"
    by (auto simp: rows_def expiry_notice_def clean_def)
  obtain new where new: "fold (insert_or_ignore y_dedupe_key) rows (system_email_outbox db) = system_email_outbox db @ new"
    "set new \<subseteq> set rows" "distinct (map y_dedupe_key new)"
    "y_dedupe_key ` set new \<inter> y_dedupe_key ` set (system_email_outbox db) = {}"
    using fold_insert_new [of y_dedupe_key rows "system_email_outbox db"] by blast
  let ?g = "\<lambda>r. if retention_elapsed now r then give_up now r else r"
  have "map ?g new = new" using new(2) row by (intro map_idI) (auto simp: retention_elapsed_def)
  then have "system_email_outbox (maintenance fresh now db) = map ?g (system_email_outbox db) @ new"
    by (simp add: maintenance_def Let_def rows new(1) sql_update_def)
  then show ?thesis by (rule that) (use new row in auto)
qed

lemma maintenance_evolves [evolution]:
  "evolves calm (notification_outbox db) (notification_outbox (maintenance fresh now db))"
  "evolves calm (system_email_outbox db) (system_email_outbox (maintenance fresh now db))"
proof -
  show "evolves calm (notification_outbox db) (notification_outbox (maintenance fresh now db))"
    by (auto simp: maintenance_def Let_def queue_expiry_notices_def renew_subscriptions_def give_up_def
        retention_elapsed_def calm_def clean_def unsent_def intro!: evolves_update)
  obtain new where m: "system_email_outbox (maintenance fresh now db) =
      map (\<lambda>r. if retention_elapsed now r then give_up now r else r) (system_email_outbox db) @ new"
    and new: "\<forall>r \<in> set new. o_status r = Pending \<and> clean r \<and> (\<exists>i. o_id r = fresh i \<and> y_dedupe_key r = u ''subscription-expiry:'' @ i)"
    by (rule maintenance_system_outbox)
  show "evolves calm (system_email_outbox db) (system_email_outbox (maintenance fresh now db))"
    by (rule evolvesI [OF m]) (use new in \<open>auto simp: give_up_def retention_elapsed_def calm_def clean_def unsent_def\<close>)
qed

section \<open>Ingesting\<close>

text \<open>
  The effect of matching on the notification table: cancelled rows may be restored and rows with
  new keys appended, each under the identifier drawn for its key.
\<close>

definition restored :: "notification_row \<Rightarrow> notification_row \<Rightarrow> bool" where
  "restored r r' \<longleftrightarrow> o_id r' = o_id r \<and> notification_key r' = notification_key r
     \<and> (o_status r' = o_status r \<or> (o_status r = Cancelled \<and> o_status r' = Pending)) \<and> (clean r \<longrightarrow> clean r')"

definition grown :: "(pystr \<Rightarrow> pystr \<Rightarrow> pystr) \<Rightarrow> notification_row list \<Rightarrow> notification_row list \<Rightarrow> bool" where
  "grown uuid t t' \<longleftrightarrow> (\<exists>g new. t' = map g t @ new
     \<and> (\<forall>r \<in> set t. restored r (g r))
     \<and> (\<forall>r \<in> set new. o_status r = Pending \<and> clean r \<and> o_id r = uuid (n_subscription_id r) (n_event_key r)
          \<and> notification_key r \<notin> notification_key ` set t)
     \<and> distinct (map notification_key new))"

lemma grown_refl: "grown uuid t t"
  unfolding grown_def by (rule exI [of _ id], rule exI [of _ "[]"]) (auto simp: restored_def)

lemma grown_restore:
  assumes "grown uuid t t'"
  shows "grown uuid t (notification_outbox (fst (restore_paused_notification sub key checked now tier
           (db\<lparr>notification_outbox := t'\<rparr>))))"
proof -
  obtain g new where t': "t' = map g t @ new" and old: "\<forall>r \<in> set t. restored r (g r)"
    and new: "\<forall>r \<in> set new. o_status r = Pending \<and> clean r \<and> o_id r = uuid (n_subscription_id r) (n_event_key r)
          \<and> notification_key r \<notin> notification_key ` set t" "distinct (map notification_key new)"
    using assms unfolding grown_def by blast
  let ?p = "restorable (db\<lparr>notification_outbox := t'\<rparr>) sub key"
  let ?f = "\<lambda>n. n\<lparr>o_status := Pending, o_last_error := None, n_eligible_at := Some checked,
                 o_next_attempt_at := due_at tier now, o_updated_at := now, n_tier := tier,
                 o_lease_owner := None, o_lease_until := None, n_delivery_claim_id := None\<rparr>"
  have "map (\<lambda>r. if ?p r then ?f r else r) new = new"
    using new(1) by (intro map_idI) (auto simp: restorable_def)
  then have "notification_outbox (fst (restore_paused_notification sub key checked now tier (db\<lparr>notification_outbox := t'\<rparr>)))
    = map ((\<lambda>r. if ?p r then ?f r else r) \<circ> g) t @ new"
    by (simp add: restore_paused_notification_def Let_def sql_update_def t')
  moreover have "restored r (((\<lambda>r. if ?p r then ?f r else r) \<circ> g) r)" if "r \<in> set t" for r
  proof -
    have "restored (g r) (if ?p (g r) then ?f (g r) else g r)"
      by (auto simp: restored_def restorable_def notification_key_def clean_def unsent_def)
    with old that show ?thesis by (auto simp: restored_def)
  qed
  ultimately show ?thesis unfolding grown_def using new by blast
qed

lemma grown_insert:
  assumes "grown uuid t t'" "o_status r = Pending \<and> clean r" "o_id r = uuid (n_subscription_id r) (n_event_key r)"
  shows "grown uuid t (insert_or_ignore notification_key r t')"
proof (cases "has_key notification_key (notification_key r) t'")
  case False
  obtain g new where t': "t' = map g t @ new" and old: "\<forall>r \<in> set t. restored r (g r)"
    and new: "\<forall>r \<in> set new. o_status r = Pending \<and> clean r \<and> o_id r = uuid (n_subscription_id r) (n_event_key r)
          \<and> notification_key r \<notin> notification_key ` set t" "distinct (map notification_key new)"
    using assms unfolding grown_def by blast
  have nk: "notification_key r \<notin> notification_key ` set t" "notification_key r \<notin> notification_key ` set new"
  proof -
    have "notification_key ` set t' = notification_key ` set t \<union> notification_key ` set new"
      using old unfolding t' restored_def by (auto simp: image_Un image_image)
    then show "notification_key r \<notin> notification_key ` set t" "notification_key r \<notin> notification_key ` set new"
      using False by (auto simp: has_key_iff)
  qed
  show ?thesis unfolding grown_def
    by (rule exI [of _ g], rule exI [of _ "new @ [r]"])
      (use False old new nk assms(2,3) t' in \<open>auto simp: insert_or_ignore_def\<close>)
qed (simp add: insert_or_ignore_def assms)

lemma match_subscription_grown:
  assumes "match_subscription E uuid ob rules now slot sub st = Inr st'" "grown uuid t (notification_outbox (fst st))"
  shows "grown uuid t (notification_outbox (fst st'))"
proof -
  obtain db k where st: "st = (db, k)" by (cases st)
  have "grown uuid t (notification_outbox (fst (restore_paused_notification a b c now d db)))" for a b c d
    using grown_restore [OF assms(2), of a b c now d db] st by simp
  moreover have "grown uuid t (insert_or_ignore notification_key
        (new_notification (uuid (as_id sub) key) line key sub v now) (notification_outbox db))" for key line v
    using assms(2) st by (intro grown_insert) (simp_all add: new_notification_def clean_def)
  ultimately show ?thesis using assms st
    by (auto simp: match_subscription_def Let_def ebind_Inr_iff split: if_splits prod.splits)
      (metis fst_conv)+
qed

lemma match_all_induct:
  assumes "match_all E uuid ob rules subs now db = Inr st'" "P (db, 0)"
    and step: "\<And>slot sub a b. vo_healthy ob \<Longrightarrow> slot \<in> set (vo_slots ob) \<Longrightarrow> now < start_at (booking_date slot) (start_time slot) \<Longrightarrow>
      sub \<in> set subs \<Longrightarrow> P a \<Longrightarrow> match_subscription E uuid ob rules now slot sub a = Inr b \<Longrightarrow> P b"
  shows "P st'"
proof (cases "vo_healthy ob")
  case True
  have slot: "P b" if "slot \<in> set (vo_slots ob)" "P a" "match_slot E uuid ob rules subs now slot a = Inr b" for slot a b
  proof (cases "start_at (booking_date slot) (start_time slot) \<le> now")
    case False
    with that(3) have "efold (match_subscription E uuid ob rules now slot) subs a = Inr b" by (simp add: match_slot_def)
    then show ?thesis using that(2)
      by (rule efold_invariant [where P = P]) (use step [OF True that(1)] False in auto)
  qed (use that in \<open>simp add: match_slot_def\<close>)
  have "efold (match_slot E uuid ob rules subs now) (vo_slots ob) (db, 0) = Inr st'"
    using assms(1) True by (simp add: match_all_def)
  then show ?thesis using assms(2) by (rule efold_invariant [where P = P]) (use slot in blast)
qed (use assms(1,2) in \<open>simp add: match_all_def\<close>)

lemma match_all_grown:
  assumes "match_all E uuid ob rules subs now db = Inr st'"
  shows "grown uuid (notification_outbox db) (notification_outbox (fst st'))"
  using assms by (rule match_all_induct [where P = "\<lambda>st. grown uuid (notification_outbox db) (notification_outbox (fst st))"])
    (simp_all add: grown_refl match_subscription_grown)

lemma replace_availability_outbox [simp]:
  "notification_outbox (replace_availability E ob now db) = notification_outbox db"
  "system_email_outbox (replace_availability E ob now db) = system_email_outbox db"
  "delivery_attempts (replace_availability E ob now db) = delivery_attempts db"
proof -
  have "notification_outbox (fold (store_slot E ob now) slots d) = notification_outbox d"
    "system_email_outbox (fold (store_slot E ob now) slots d) = system_email_outbox d"
    "delivery_attempts (fold (store_slot E ob now) slots d) = delivery_attempts d" for slots d
    by (induction slots arbitrary: d) (simp_all add: store_slot_def)
  then show "notification_outbox (replace_availability E ob now db) = notification_outbox db"
    "system_email_outbox (replace_availability E ob now db) = system_email_outbox db"
    "delivery_attempts (replace_availability E ob now db) = delivery_attempts db"
    by (simp_all add: replace_availability_def Let_def)
qed

lemma match_subscription_frame:
  assumes "match_subscription E uuid ob rules now slot sub st = Inr st'"
  shows "system_email_outbox (fst st') = system_email_outbox (fst st) \<and> delivery_attempts (fst st') = delivery_attempts (fst st)"
  using assms by (auto simp: match_subscription_def Let_def ebind_Inr_iff restore_paused_notification_def
      split: if_splits prod.splits)

lemma match_all_frame:
  assumes "match_all E uuid ob rules subs now db = Inr st'"
  shows "system_email_outbox (fst st') = system_email_outbox db \<and> delivery_attempts (fst st') = delivery_attempts db"
  using assms by (rule match_all_induct [where P = "\<lambda>st. system_email_outbox (fst st) = system_email_outbox db
      \<and> delivery_attempts (fst st) = delivery_attempts db"]) (simp_all add: match_subscription_frame)

lemma ingest_grown:
  assumes "ingest_observation E uuid payload parsed now sqlnow db = Inr (db', r)"
  shows "grown uuid (notification_outbox db) (notification_outbox db')"
    "system_email_outbox db' = system_email_outbox db" "delivery_attempts db' = delivery_attempts db"
proof -
  obtain ob where iv: "ingest_validated E uuid ob now sqlnow db = Inr (db', r)"
    using assms by (auto simp: ingest_observation_def ebind_Inr_iff)
  let ?db2 = "set_health (observation_key ob) (vo_healthy ob) (replace_availability E ob now (upsert_status ob now db))"
  have frame: "notification_outbox ?db2 = notification_outbox db" "system_email_outbox ?db2 = system_email_outbox db"
    "delivery_attempts ?db2 = delivery_attempts db"
    by (simp_all add: set_health_def upsert_status_def)
  consider (same) "notification_outbox db' = notification_outbox db" "system_email_outbox db' = system_email_outbox db"
      "delivery_attempts db' = delivery_attempts db"
    | (matched) rules subs db3 k where "match_all E uuid ob rules subs now ?db2 = Inr (db3, k)"
      "notification_outbox db' = notification_outbox db3" "system_email_outbox db' = system_email_outbox db3"
      "delivery_attempts db' = delivery_attempts db3"
    using iv frame unfolding ingest_validated_def Let_def
    by (simp only: ebind_Inr_iff split: if_split_asm)
      (auto simp: upsert_status_def touch_observation_def save_observation_def set_health_def)
  then show "grown uuid (notification_outbox db) (notification_outbox db')"
    "system_email_outbox db' = system_email_outbox db" "delivery_attempts db' = delivery_attempts db"
    by (cases; use match_all_grown match_all_frame frame grown_refl in fastforce)+
qed

lemma grown_evolves: "grown uuid t t' \<Longrightarrow> evolves calm t t'"
  unfolding grown_def restored_def by (auto intro!: evolvesI simp: calm_def)

lemma grown_ids:
  assumes "grown uuid t t'" "distinct (map o_id t)" "inj (case_prod uuid)" "\<And>s e. uuid s e \<notin> set (map o_id t)"
  shows "distinct (map o_id t')"
proof -
  obtain g new where t': "t' = map g t @ new" and old: "\<forall>r \<in> set t. restored r (g r)"
    and new: "\<forall>r \<in> set new. o_id r = uuid (n_subscription_id r) (n_event_key r)" "distinct (map notification_key new)"
    using assms(1) unfolding grown_def by blast
  have ids: "map (o_id \<circ> g) t = map o_id t" using old by (simp add: restored_def)
  have eq: "map o_id new = map (case_prod uuid) (map notification_key new)" using new(1) by (simp add: notification_key_def)
  have "distinct (map o_id new)"
    unfolding eq distinct_map [of "case_prod uuid"] using new(2) assms(3) by (auto intro: inj_on_subset)
  moreover have "set (map o_id new) \<inter> set (map o_id t) = {}" using new(1) assms(4) by auto
  moreover have "map o_id t' = map o_id t @ map o_id new" unfolding t' map_append map_map ids ..
  ultimately show ?thesis using assms(2) by (auto simp only: distinct_append)
qed

end
