(* ===== verification/Delivery.thy ===== *)
theory Delivery
  imports Lifecycle
begin

text \<open>
  All of the above running at once: workers, API requests and observations as interleaved
  transactions on one database, together with the sends that are between their two transactions.
  A send may be cut off by a crash at any point. The invariant of this system is that a row of an
  outbox has at most one attempt that may have reached the provider, and none while the row can
  still be sent.
\<close>

section \<open>The system\<close>

datatype flight =
    SystemFlight (fl_worker: pystr) "system_job list" (fl_attempt: pystr)
  | SubscriberFlight (fl_worker: pystr) "subscriber_job list" (fl_attempt: pystr)

fun fl_channel :: "flight \<Rightarrow> channel" where
  "fl_channel (SystemFlight _ _ _) = SystemEmail"
| "fl_channel (SubscriberFlight _ _ _) = SubscriberEmail"

fun fl_ids :: "flight \<Rightarrow> pystr list" where
  "fl_ids (SystemFlight _ jobs _) = map j_id jobs"
| "fl_ids (SubscriberFlight _ jobs _) = map j_id jobs"

record world =
  world_db :: db
  world_flights :: "flight list"

definition note_ids :: "db \<Rightarrow> pystr set" where
  [py_eval]: "note_ids db = set (map o_id (notification_outbox db))"

definition mail_ids :: "db \<Rightarrow> pystr set" where
  [py_eval]: "mail_ids db = set (map o_id (system_email_outbox db))"

definition attempt_ids :: "db \<Rightarrow> pystr set" where
  [py_eval]: "attempt_ids db = set (map a_id (delivery_attempts db))"

text \<open>
  One transaction of some process. Identifiers drawn at random are fresh. A worker starts a send
  for any claimed rows it holds; \<open>elsewhere\<close> stands for every transaction that leaves the two
  outboxes and the attempts alone.
\<close>

inductive world_step :: "world \<Rightarrow> world \<Rightarrow> bool" where
  ws_ingest: "ingest_observation E uuid payload parsed now sqlnow db = Inr (db', r) \<Longrightarrow>
    inj (case_prod uuid) \<Longrightarrow> (\<And>s e. uuid s e \<notin> note_ids db) \<Longrightarrow>
    world_step \<lparr>world_db = db, world_flights = fs\<rparr> \<lparr>world_db = db', world_flights = fs\<rparr>"
| ws_pause: "update_notification_pauses email payload now gnow db = (db', r) \<Longrightarrow>
    world_step \<lparr>world_db = db, world_flights = fs\<rparr> \<lparr>world_db = db', world_flights = fs\<rparr>"
| ws_cancel: "cancel_subscription email i sqlnow gnow db = (db', r) \<Longrightarrow>
    world_step \<lparr>world_db = db, world_flights = fs\<rparr> \<lparr>world_db = db', world_flights = fs\<rparr>"
| ws_code: "send_verification_code E pepper email ip now challenge mail_id draw db = (db', r) \<Longrightarrow>
    mail_id \<notin> mail_ids db \<Longrightarrow>
    world_step \<lparr>world_db = db, world_flights = fs\<rparr> \<lparr>world_db = db', world_flights = fs\<rparr>"
| ws_release: "world_step \<lparr>world_db = db, world_flights = fs\<rparr>
    \<lparr>world_db = release_expired_leases now db, world_flights = fs\<rparr>"
| ws_claim_system: "claim_system worker now locked db = (db', job) \<Longrightarrow>
    world_step \<lparr>world_db = db, world_flights = fs\<rparr> \<lparr>world_db = db', world_flights = fs\<rparr>"
| ws_claim_group: "claim_subscriber_group E worker settings target weather now claim locked db = (db', jobs) \<Longrightarrow>
    world_step \<lparr>world_db = db, world_flights = fs\<rparr> \<lparr>world_db = db', world_flights = fs\<rparr>"
| ws_begin_system: "begin_system job worker now sqlnow aid db = (db', jobs) \<Longrightarrow> aid \<notin> attempt_ids db \<Longrightarrow>
    world_step \<lparr>world_db = db, world_flights = fs\<rparr>
      \<lparr>world_db = db', world_flights = (if jobs = [] then fs else SystemFlight worker jobs aid # fs)\<rparr>"
| ws_begin_subscriber: "begin_subscriber held worker now sqlnow aid db = Inr (db', jobs) \<Longrightarrow> aid \<notin> attempt_ids db \<Longrightarrow>
    world_step \<lparr>world_db = db, world_flights = fs\<rparr>
      \<lparr>world_db = db', world_flights = (if jobs = [] then fs else SubscriberFlight worker jobs aid # fs)\<rparr>"
| ws_finish_system: "SystemFlight worker jobs aid \<in> set fs \<Longrightarrow>
    world_step \<lparr>world_db = db, world_flights = fs\<rparr>
      \<lparr>world_db = finish_system jobs worker aid out now sqlnow db,
       world_flights = remove1 (SystemFlight worker jobs aid) fs\<rparr>"
| ws_finish_subscriber: "SubscriberFlight worker jobs aid \<in> set fs \<Longrightarrow>
    world_step \<lparr>world_db = db, world_flights = fs\<rparr>
      \<lparr>world_db = finish_subscriber jobs worker aid out now sqlnow db,
       world_flights = remove1 (SubscriberFlight worker jobs aid) fs\<rparr>"
| ws_crash: "f \<in> set fs \<Longrightarrow>
    world_step \<lparr>world_db = db, world_flights = fs\<rparr> \<lparr>world_db = db, world_flights = remove1 f fs\<rparr>"
| ws_check_subscriber: "next_provider_check now (notification_outbox db) = (t, row) \<Longrightarrow>
    world_step \<lparr>world_db = db, world_flights = fs\<rparr> \<lparr>world_db = db\<lparr>notification_outbox := t\<rparr>, world_flights = fs\<rparr>"
| ws_check_system: "next_provider_check now (system_email_outbox db) = (t', row) \<Longrightarrow>
    world_step \<lparr>world_db = db, world_flights = fs\<rparr> \<lparr>world_db = db\<lparr>system_email_outbox := t'\<rparr>, world_flights = fs\<rparr>"
| ws_reconcile_subscriber: "world_step \<lparr>world_db = db, world_flights = fs\<rparr>
    \<lparr>world_db = reconcile_subscriber_row pc verdict checked now db, world_flights = fs\<rparr>"
| ws_reconcile_system: "world_step \<lparr>world_db = db, world_flights = fs\<rparr>
    \<lparr>world_db = reconcile_system_row pc verdict checked now db, world_flights = fs\<rparr>"
| ws_maintenance: "inj fresh \<Longrightarrow> (\<And>s. fresh s \<notin> mail_ids db) \<Longrightarrow>
    world_step \<lparr>world_db = db, world_flights = fs\<rparr> \<lparr>world_db = maintenance fresh now db, world_flights = fs\<rparr>"
| ws_expire: "expire_unusable sqlnow db = Inr db' \<Longrightarrow>
    world_step \<lparr>world_db = db, world_flights = fs\<rparr> \<lparr>world_db = db', world_flights = fs\<rparr>"
| ws_elsewhere: "notification_outbox db' = notification_outbox db \<Longrightarrow> system_email_outbox db' = system_email_outbox db \<Longrightarrow>
    delivery_attempts db' = delivery_attempts db \<Longrightarrow>
    world_step \<lparr>world_db = db, world_flights = fs\<rparr> \<lparr>world_db = db', world_flights = fs\<rparr>"

definition world_init :: "world \<Rightarrow> bool" where
  "world_init w \<longleftrightarrow> world_flights w = [] \<and> delivery_attempts (world_db w) = []
     \<and> distinct (map o_id (notification_outbox (world_db w))) \<and> (\<forall>n \<in> set (notification_outbox (world_db w)). clean n)
     \<and> distinct (map o_id (system_email_outbox (world_db w))) \<and> (\<forall>r \<in> set (system_email_outbox (world_db w)). clean r)"

section \<open>The invariant\<close>

definition one_live :: "channel \<Rightarrow> attempt_row list \<Rightarrow> bool" where
  "one_live c atts \<longleftrightarrow> (\<forall>i. \<forall>a \<in> set atts. \<forall>b \<in> set atts. live_attempt c i a \<longrightarrow> live_attempt c i b \<longrightarrow> a = b)"

definition outbox_inv :: "channel \<Rightarrow> 'a outbox_row_scheme list \<Rightarrow> attempt_row list \<Rightarrow> bool" where
  "outbox_inv c t atts \<longleftrightarrow> distinct (map o_id t) \<and> one_live c atts \<and> (\<forall>r \<in> set t. clean r)
     \<and> (\<forall>a \<in> set atts. a_channel a = c \<longrightarrow> set (a_queue_ids a) \<subseteq> o_id ` set t)
     \<and> (\<forall>r \<in> set t. unsent (o_status r) \<longrightarrow> (\<forall>a \<in> set atts. \<not> live_attempt c (o_id r) a))"

definition flights_inv :: "attempt_row list \<Rightarrow> flight list \<Rightarrow> bool" where
  "flights_inv atts fs \<longleftrightarrow> distinct (map a_id atts) \<and> distinct (map fl_attempt fs)
     \<and> (\<forall>f \<in> set fs. \<exists>a \<in> set atts. a_id a = fl_attempt f \<and> a_channel a = fl_channel f
          \<and> a_queue_ids a = fl_ids f \<and> a_phase a = Dispatching)"

definition world_inv :: "world \<Rightarrow> bool" where
  "world_inv w \<longleftrightarrow> (let db = world_db w in
     outbox_inv SubscriberEmail (notification_outbox db) (delivery_attempts db)
     \<and> outbox_inv SystemEmail (system_email_outbox db) (delivery_attempts db)
     \<and> flights_inv (delivery_attempts db) (world_flights w))"

lemma outbox_inv_evolves:
  assumes "outbox_inv c t atts" "evolves calm t t'" "distinct (map o_id t')"
  shows "outbox_inv c t' atts"
proof -
  obtain g new where t': "t' = map g t @ new" and g: "\<forall>r \<in> set t. o_id (g r) = o_id r \<and> calm (o_status r) (o_status (g r)) \<and> (clean r \<longrightarrow> clean (g r))"
    and new: "\<forall>r \<in> set new. o_status r = Pending \<and> clean r" using assms(2) by (auto simp: evolves_def)
  have m: "map o_id t' = map o_id t @ map o_id new" using g by (simp add: t')
  then have ids: "o_id ` set t' = o_id ` set t \<union> o_id ` set new" by (metis set_append set_map)
  have fresh: "o_id r \<notin> o_id ` set t" if "r \<in> set new" for r
    using assms(3) that unfolding m by (auto simp only: distinct_append set_map)
  have "\<not> live_attempt c (o_id r) a" if r: "r \<in> set t'" "unsent (o_status r)" and a: "a \<in> set atts" for r a
  proof (cases "r \<in> set new")
    case True
    have "a_channel a = c \<longrightarrow> set (a_queue_ids a) \<subseteq> o_id ` set t" using assms(1) a by (auto simp: outbox_inv_def)
    with fresh [OF True] show ?thesis unfolding live_attempt_def by blast
  next
    case False
    then obtain r0 where "r0 \<in> set t" "r = g r0" using r by (auto simp: t')
    then show ?thesis using g r a assms(1) calm_unsent by (fastforce simp: outbox_inv_def)
  qed
  moreover have "\<forall>r \<in> set t'. clean r" using assms(1) g new by (auto simp: t' outbox_inv_def)
  ultimately show ?thesis using assms ids by (auto simp: outbox_inv_def)
qed

lemma evolves_same_ids:
  assumes "evolves R t t'" "length t' = length t"
  shows "map o_id t' = map o_id t"
  using assms by (auto simp: evolves_def)

lemma outbox_inv_kept:
  "outbox_inv c t atts \<Longrightarrow> evolves calm t t' \<Longrightarrow> length t' = length t \<Longrightarrow> outbox_inv c t' atts"
  using outbox_inv_evolves evolves_same_ids by (metis outbox_inv_def)

lemma outbox_inv_dispatch:
  assumes inv: "outbox_inv c t atts" and t': "t' = map g t"
    and g: "\<And>r. r \<in> set t \<Longrightarrow> o_id (g r) = o_id r \<and> (clean r \<longrightarrow> clean (g r))"
    and sent: "\<And>r. r \<in> set t \<Longrightarrow> o_id r \<in> set ids \<Longrightarrow> o_status r = Processing \<and> o_status (g r) = Dispatching"
    and rest: "\<And>r. r \<in> set t \<Longrightarrow> o_id r \<notin> set ids \<Longrightarrow> calm (o_status r) (o_status (g r))"
    and ids: "set ids \<subseteq> o_id ` set t"
  shows "outbox_inv c t' (atts @ [new_attempt aid c ids sqlnow])"
proof -
  let ?a = "new_attempt aid c ids sqlnow"
  have none: "\<not> live_attempt c i a" if "i \<in> set ids" "a \<in> set atts" for i a
    using ids that sent inv by (fastforce simp: outbox_inv_def unsent_def)
  have live_new: "live_attempt c i ?a \<longleftrightarrow> i \<in> set ids" for i by (simp add: live_attempt_def new_attempt_def)
  have "one_live c (atts @ [?a])" using inv none live_new by (auto simp: one_live_def outbox_inv_def)
  moreover have "map o_id t' = map o_id t" using g by (simp add: t')
  moreover have "\<not> live_attempt c (o_id (g r)) a" if "r \<in> set t" "unsent (o_status (g r))" "a \<in> set (atts @ [?a])" for r a
  proof -
    have "o_id r \<notin> set ids" using sent [OF that(1)] that(2) by (auto simp: unsent_def)
    with that g rest calm_unsent inv live_new show ?thesis by (fastforce simp: outbox_inv_def)
  qed
  moreover from calculation(2) have "o_id ` set t' = o_id ` set t" by (metis set_map)
  moreover have "distinct (map o_id t')" using calculation(2) inv by (simp add: outbox_inv_def)
  moreover have "set (a_queue_ids a) \<subseteq> o_id ` set t" if "a \<in> set (atts @ [?a])" "a_channel a = c" for a
  proof (cases "a \<in> set atts")
    case True
    with that inv show ?thesis unfolding outbox_inv_def by blast
  qed (use that ids in \<open>auto simp: new_attempt_def\<close>)
  moreover have "\<forall>r \<in> set t'. clean r" using inv g by (simp add: t' outbox_inv_def)
  ultimately show ?thesis unfolding outbox_inv_def by (simp add: t')
qed

lemma outbox_inv_other_attempt:
  "outbox_inv c t atts \<Longrightarrow> d \<noteq> c \<Longrightarrow> outbox_inv c t (atts @ [new_attempt aid d ids sqlnow])"
  by (auto simp: outbox_inv_def one_live_def live_attempt_def new_attempt_def)

lemma outbox_inv_attempts:
  assumes "outbox_inv c t atts" and h: "\<And>a. a \<in> set atts \<Longrightarrow> a_channel (h a) = a_channel a \<and> a_queue_ids (h a) = a_queue_ids a"
    and live: "\<And>a i. a \<in> set atts \<Longrightarrow> live_attempt c i (h a) \<Longrightarrow> live_attempt c i a"
  shows "outbox_inv c t (map h atts)"
proof -
  have "one_live c (map h atts)"
    using assms(1) live unfolding outbox_inv_def one_live_def by (auto, metis)
  moreover have "\<not> live_attempt c (o_id r) a" if "r \<in> set t" "unsent (o_status r)" "a \<in> set (map h atts)" for r a
    using that assms(1) live unfolding outbox_inv_def by (metis (no_types, lifting) imageE set_map)
  ultimately show ?thesis using assms(1) h by (auto simp: outbox_inv_def)
qed

lemma finish_attempt_live:
  assumes "A \<in> set atts" "distinct (map a_id atts)" "a_id A = aid" "a_phase A = Dispatching"
    and "a \<in> set atts" "live_attempt c i (if a_id a = aid then a\<lparr>a_phase := ph, a_provider_message_id := m, a_error_code := e, a_finished_at := f\<rparr> else a)"
  shows "live_attempt c i a"
proof (cases "a_id a = aid")
  case True
  then have "a = A" using assms by (auto simp: distinct_map dest: inj_onD)
  with assms show ?thesis by (auto simp: live_attempt_def split: if_splits)
qed (use assms in auto)

lemma outbox_inv_finish_attempt:
  assumes "outbox_inv c t atts" "A \<in> set atts" "distinct (map a_id atts)" "a_id A = aid" "a_phase A = Dispatching"
  shows "outbox_inv c t (finish_attempt aid phase out sqlnow atts)"
  unfolding finish_attempt_def sql_update_def
  by (rule outbox_inv_attempts [OF assms(1)]) (use finish_attempt_live [OF assms(2-5)] in auto)

lemma outbox_inv_finish:
  assumes inv: "outbox_inv c t atts" and d: "distinct (map a_id atts)"
    and A: "A \<in> set atts" "a_id A = aid" "a_channel A = c" "a_queue_ids A = ids" "a_phase A = Dispatching"
    and phase: "phase \<in> {Submitted, SubmissionUnknown, Retry, Failed}"
    and retry: "phase = Retry \<Longrightarrow> sent_message out = None"
  shows "outbox_inv c (finish_rows ids worker phase out due sqlnow t) (finish_attempt aid phase out sqlnow atts)"
proof -
  let ?t' = "finish_rows ids worker phase out due sqlnow t" and ?a' = "finish_attempt aid phase out sqlnow atts"
  have inv': "outbox_inv c t ?a'" by (rule outbox_inv_finish_attempt [OF inv A(1) d A(2) A(5)])
  have ids: "map o_id ?t' = map o_id t" by (simp add: finish_rows_def sql_update_def finished_row_def)
  have "\<not> live_attempt c (o_id r') a'" if r': "r' \<in> set ?t'" "unsent (o_status r')" and a': "a' \<in> set ?a'" for r' a'
  proof -
    obtain r where r: "r \<in> set t" and cases: "r' = r \<or> (o_id r' = o_id r \<and> o_status r' = phase \<and> o_id r \<in> set ids)"
      using r' by (auto simp: finish_rows_def sql_update_def finished_row_def split: if_splits)
    show ?thesis
    proof (cases "r' = r")
      case True
      with inv' r r' a' show ?thesis by (auto simp: outbox_inv_def)
    next
      case False
      with cases r'(2) phase have ph: "phase = Retry" "o_id r' = o_id r" "o_id r \<in> set ids" by (auto simp: unsent_def)
      obtain a where a: "a \<in> set atts" "a' = (if a_id a = aid then a\<lparr>a_phase := phase, a_provider_message_id := sent_message out, a_error_code := send_reason out,
            a_finished_at := Some sqlnow\<rparr> else a)" using a' by (auto simp: finish_attempt_def sql_update_def)
      have "live_attempt c (o_id r) A" using A ph by (simp add: live_attempt_def)
      then have "a = A" if "live_attempt c (o_id r) a'"
        using that finish_attempt_live [OF A(1) d A(2) A(5) a(1), of c "o_id r"] a inv A(1)
        unfolding outbox_inv_def one_live_def by blast
      moreover have "\<not> live_attempt c (o_id r) a'" if "a = A"
        using a(2) A(2) ph(1) that by (simp add: live_attempt_def)
      ultimately show ?thesis unfolding ph(2) by blast
    qed
  qed
  moreover have "o_id ` set ?t' = o_id ` set t" using ids by (metis set_map)
  moreover have "\<forall>r \<in> set ?t'. clean r"
  proof
    fix r' assume "r' \<in> set ?t'"
    then obtain r where r: "r \<in> set t" "r' = r \<or> (o_status r = Dispatching \<and> r' = finished_row phase out due sqlnow r)"
      by (auto simp: finish_rows_def set_sql_update)
    have cl: "clean r" using inv r(1) by (simp add: outbox_inv_def)
    from r(2) show "clean r'"
    proof
      assume d: "o_status r = Dispatching \<and> r' = finished_row phase out due sqlnow r"
      then have "o_status r' = phase" "o_message_id r' = sent_message out" "phase = Retry \<Longrightarrow> o_submitted_at r' = o_submitted_at r"
        by (simp_all add: finished_row_def)
      moreover have "o_submitted_at r = None" using cl d by (simp add: clean_def)
      ultimately show ?thesis using phase retry by (cases "phase = Retry") (auto simp: clean_def unsent_def)
    qed (use cl in simp)
  qed
  ultimately show ?thesis using inv' ids by (simp add: outbox_inv_def)
qed

lemma flights_inv_finish:
  assumes "flights_inv atts fs" "f \<in> set fs" "fl_attempt f = aid"
  shows "flights_inv (finish_attempt aid phase out sqlnow atts) (remove1 f fs)"
proof -
  have d: "distinct (map fl_attempt fs)" "distinct fs" using assms by (auto simp: flights_inv_def distinct_map)
  have "\<exists>a \<in> set (finish_attempt aid phase out sqlnow atts). a_id a = fl_attempt g \<and> a_channel a = fl_channel g
          \<and> a_queue_ids a = fl_ids g \<and> a_phase a = Dispatching" if "g \<in> set (remove1 f fs)" for g
  proof -
    have g: "g \<in> set fs" "g \<noteq> f" using that d by (auto simp: set_remove1_eq)
    then have "fl_attempt g \<noteq> aid" using assms d by (auto simp: distinct_map dest: inj_onD)
    moreover obtain a where "a \<in> set atts" "a_id a = fl_attempt g" "a_channel a = fl_channel g"
      "a_queue_ids a = fl_ids g" "a_phase a = Dispatching" using assms(1) g by (auto simp: flights_inv_def)
    ultimately show ?thesis by (auto simp: finish_attempt_def sql_update_def intro!: bexI [of _ a])
  qed
  moreover have "map a_id (finish_attempt aid phase out sqlnow atts) = map a_id atts"
    by (simp add: finish_attempt_def sql_update_def)
  moreover have "distinct (map fl_attempt (remove1 f fs))" using d by (simp add: distinct_map inj_on_def set_remove1_eq)
  ultimately show ?thesis using assms(1) by (simp add: flights_inv_def)
qed

lemma flights_inv_remove: "flights_inv atts fs \<Longrightarrow> flights_inv atts (remove1 f fs)"
  by (auto simp: flights_inv_def distinct_map inj_on_def dest: notin_set_remove1 in_set_remove1 intro: distinct_remove1)

lemma flights_inv_begin:
  assumes "flights_inv atts fs" "aid \<notin> set (map a_id atts)" "fl_attempt f = aid" "fl_channel f = c" "fl_ids f = ids"
  shows "flights_inv (atts @ [new_attempt aid c ids sqlnow]) (f # fs)"
proof -
  have "aid \<notin> fl_attempt ` set fs" using assms(1,2) unfolding flights_inv_def by (metis imageE image_eqI set_map)
  with assms show ?thesis by (auto simp: flights_inv_def new_attempt_def)
qed

lemma flights_inv_attempt:
  "flights_inv atts fs \<Longrightarrow> aid \<notin> set (map a_id atts) \<Longrightarrow> flights_inv (atts @ [new_attempt aid c ids sqlnow]) fs"
  by (auto simp: flights_inv_def new_attempt_def)

lemma send_phase_range: "send_phase out n \<in> {Submitted, SubmissionUnknown, Retry, Failed}"
  by (auto simp: send_phase_def split: send_outcome.splits)

lemma send_phase_retry: "send_phase out n = Retry \<Longrightarrow> sent_message out = None"
  by (auto simp: send_phase_def split: send_outcome.splits if_splits)

section \<open>Every step keeps it\<close>

lemma begin_system_inv:
  assumes inv: "outbox_inv SystemEmail (system_email_outbox db) (delivery_attempts db)"
    and b: "begin_system job worker now sqlnow aid db = (db', jobs)"
  shows "outbox_inv SystemEmail (system_email_outbox db') (delivery_attempts db')"
proof (cases "delivery_enabled db \<and> list_ex (\<lambda>r. o_id r = j_id job \<and> system_valid worker now r) (system_email_outbox db)")
  case True
  let ?t = "system_email_outbox db"
  let ?g = "\<lambda>r. if o_id r = j_id job \<and> o_lease_owner r = Some worker then r\<lparr>o_status := Dispatching, o_updated_at := now\<rparr> else r"
  obtain r0 where r0: "r0 \<in> set ?t" "o_id r0 = j_id job" "system_valid worker now r0" using True by (auto simp: list_ex_iff)
  have held: "o_status r = Processing \<and> o_lease_owner r = Some worker" if "r \<in> set ?t" "o_id r = j_id job" for r
  proof -
    have "r = r0" using that r0 inv key_unique [of o_id ?t r r0] by (simp add: outbox_inv_def)
    with r0(3) show ?thesis by (simp add: system_valid_def)
  qed
  have db': "system_email_outbox db' = map ?g ?t"
    "delivery_attempts db' = delivery_attempts db @ [new_attempt aid SystemEmail [j_id job] sqlnow]"
    using b True by (auto simp: begin_system_def dispatch_rows_def sql_update_def)
  show ?thesis unfolding db'(2)
  proof (rule outbox_inv_dispatch [OF inv db'(1)])
    show "set [j_id job] \<subseteq> o_id ` set ?t" using r0(1,2) by force
  qed (use held in \<open>simp_all add: clean_def unsent_def\<close>)
next
  case False
  then have "delivery_attempts db' = delivery_attempts db" "evolves calm (system_email_outbox db) (system_email_outbox db')"
    "length (system_email_outbox db') = length (system_email_outbox db)"
    using b by (auto simp: begin_system_def Let_def not_eligible_def calm_def clean_def unsent_def split: if_splits intro!: evolves_update)
  with inv show ?thesis by (simp add: outbox_inv_kept)
qed

lemma valid_job_row:
  assumes "valid_job db worker claim now j" "distinct (map o_id (notification_outbox db))"
    and "r \<in> set (notification_outbox db)" "o_id r = j_id j"
  shows "subscriber_valid db worker claim now r"
proof -
  obtain n where n: "n \<in> set (notification_outbox db)" "o_id n = j_id j" "subscriber_valid db worker claim now n"
    using assms(1) by (auto simp: valid_job_def list_ex_iff)
  have "r = n" by (rule key_unique [OF assms(2,3) n(1)]) (simp add: assms(4) n(2))
  with n(3) show ?thesis by simp
qed

lemma valid_job_id: "j_id j = j_id j' \<Longrightarrow> valid_job db worker claim now j = valid_job db worker claim now j'"
  by (simp add: valid_job_def)

lemma dispatch_valid_inv:
  assumes inv: "outbox_inv SubscriberEmail (notification_outbox db) (delivery_attempts db)"
    and b: "dispatch_valid held claim worker now sqlnow aid db = (db', jobs)"
  shows "outbox_inv SubscriberEmail (notification_outbox db') (delivery_attempts db')"
proof -
  let ?t = "notification_outbox db"
  let ?valid = "filter (valid_job db worker claim now) held"
  let ?invalid = "map j_id (filter (\<lambda>j. \<not> valid_job db worker claim now j) held)"
  let ?p = "\<lambda>n. o_id n \<in> set ?invalid \<and> o_lease_owner n = Some worker \<and> o_status n = Processing \<and> n_delivery_claim_id n = Some claim"
  let ?g1 = "\<lambda>n. if ?p n then not_eligible now n else n"
  let ?g2 = "\<lambda>n. if o_id n \<in> set (map j_id ?valid) \<and> o_lease_owner n = Some worker then n\<lparr>o_status := Dispatching, o_updated_at := now\<rparr> else n"
  have d: "distinct (map o_id ?t)" using inv by (simp add: outbox_inv_def)
  show ?thesis
  proof (cases "?valid = []")
    case True
    then have "delivery_attempts db' = delivery_attempts db" "notification_outbox db' = sql_update ?p (not_eligible now) ?t"
      using b by (auto simp: dispatch_valid_def Let_def release_unused_claims_def)
    moreover have "evolves calm ?t (sql_update ?p (not_eligible now) ?t)"
      by (rule evolves_update) (auto simp: not_eligible_def calm_def clean_def unsent_def)
    ultimately show ?thesis using inv by (simp add: outbox_inv_kept)
  next
    case False
    then have db': "notification_outbox db' = map (?g2 \<circ> ?g1) ?t"
      "delivery_attempts db' = delivery_attempts db @ [new_attempt aid SubscriberEmail (map j_id ?valid) sqlnow]"
      using b by (auto simp: dispatch_valid_def Let_def dispatch_rows_def sql_update_def)
    have sent: "o_status r = Processing \<and> o_status ((?g2 \<circ> ?g1) r) = Dispatching"
      if r: "r \<in> set ?t" "o_id r \<in> set (map j_id ?valid)" for r
    proof -
      obtain j where j: "j \<in> set held" "valid_job db worker claim now j" "o_id r = j_id j" using r by auto
      have v: "subscriber_valid db worker claim now r" by (rule valid_job_row [OF j(2) d r(1) j(3)])
      have "o_id r \<notin> set ?invalid"
      proof
        assume "o_id r \<in> set ?invalid"
        then obtain j' where "j_id j' = j_id j" "\<not> valid_job db worker claim now j'" using j(3) by auto
        with j(2) valid_job_id show False by blast
      qed
      then have "?g1 r = r" by (simp only: if_False simp_thms)
      with v r(2) show ?thesis by (simp add: subscriber_valid_def)
    qed
    have ids: "set (map j_id ?valid) \<subseteq> o_id ` set ?t"
      by (auto simp: valid_job_def list_ex_iff intro: rev_image_eqI)
    show ?thesis unfolding db'(2)
    proof (rule outbox_inv_dispatch [OF inv db'(1)])
      show "set (map j_id ?valid) \<subseteq> o_id ` set ?t" by (rule ids)
      fix r
      assume r: "r \<in> set ?t"
      have "clean r \<longrightarrow> clean (?g1 r)" by (auto simp: not_eligible_def clean_def unsent_def)
      moreover have "clean (?g1 r) \<longrightarrow> clean (?g2 (?g1 r))"
      proof (cases "o_id r \<in> set (map j_id ?valid)")
        case True
        then have "?g1 r = r \<or> o_status (?g1 r) = Expired" "o_status r = Processing"
          using sent [OF r] by (auto simp: not_eligible_def)
        then show ?thesis by (auto simp: clean_def unsent_def)
      next
        case False
        then show ?thesis by (simp add: not_eligible_def)
      qed
      moreover have "o_id ((?g2 \<circ> ?g1) r) = o_id r" by (simp add: not_eligible_def)
      ultimately show "o_id ((?g2 \<circ> ?g1) r) = o_id r \<and> (clean r \<longrightarrow> clean ((?g2 \<circ> ?g1) r))"
        unfolding comp_apply by blast
      show "o_status r = Processing \<and> o_status ((?g2 \<circ> ?g1) r) = Dispatching" if "o_id r \<in> set (map j_id ?valid)"
        by (rule sent [OF r that])
      show "calm (o_status r) (o_status ((?g2 \<circ> ?g1) r))" if "o_id r \<notin> set (map j_id ?valid)"
        using that by (auto simp: not_eligible_def calm_def)
    qed
  qed
qed

lemma dispatch_valid_frame:
  assumes "dispatch_valid held claim worker now sqlnow aid db = (db', jobs)"
  shows "system_email_outbox db' = system_email_outbox db"
    "jobs = [] \<Longrightarrow> delivery_attempts db' = delivery_attempts db"
    "jobs \<noteq> [] \<Longrightarrow> delivery_attempts db' = delivery_attempts db @ [new_attempt aid SubscriberEmail (map j_id jobs) sqlnow]"
  using assms by (auto simp: dispatch_valid_def Let_def release_unused_claims_def split: if_splits)

lemma begin_subscriber_cases:
  assumes "begin_subscriber held worker now sqlnow aid db = Inr (db', jobs)"
  obtains "db' = db" "jobs = []" | claim where "dispatch_valid held claim worker now sqlnow aid db = (db', jobs)"
  using assms by (auto simp: begin_subscriber_def split: list.splits if_splits)

lemma begin_system_frame:
  assumes "begin_system job worker now sqlnow aid db = (db', jobs)"
  shows "notification_outbox db' = notification_outbox db"
    "jobs = [] \<Longrightarrow> delivery_attempts db' = delivery_attempts db"
    "jobs \<noteq> [] \<Longrightarrow> delivery_attempts db' = delivery_attempts db @ [new_attempt aid SystemEmail (map j_id jobs) sqlnow]"
  using assms by (auto simp: begin_system_def Let_def split: if_splits)

lemma maintenance_ids:
  assumes "distinct (map o_id (system_email_outbox db))" "inj fresh" "\<And>s. fresh s \<notin> mail_ids db"
  shows "distinct (map o_id (system_email_outbox (maintenance fresh now db)))"
proof -
  let ?t = "system_email_outbox db"
  obtain new where m: "system_email_outbox (maintenance fresh now db) =
      map (\<lambda>r. if retention_elapsed now r then give_up now r else r) ?t @ new"
    and new: "\<forall>r \<in> set new. o_status r = Pending \<and> clean r \<and> (\<exists>i. o_id r = fresh i \<and> y_dedupe_key r = u ''subscription-expiry:'' @ i)"
      "distinct (map y_dedupe_key new)"
    by (rule maintenance_system_outbox)
  have "inj_on o_id (set new)"
  proof (rule inj_onI)
    fix r r' assume r: "r \<in> set new" "r' \<in> set new" "o_id r = o_id r'"
    obtain i where i: "o_id r = fresh i" "y_dedupe_key r = u ''subscription-expiry:'' @ i" using new(1) r(1) by blast
    obtain j where j: "o_id r' = fresh j" "y_dedupe_key r' = u ''subscription-expiry:'' @ j" using new(1) r(2) by blast
    have "i = j" using i(1) j(1) r(3) assms(2) by (simp add: inj_eq)
    then show "r = r'" using key_unique [OF new(2) r(1,2)] i(2) j(2) by simp
  qed
  then have "distinct (map o_id new)" using new(2) by (auto simp: distinct_map)
  moreover have "set (map o_id new) \<inter> set (map o_id ?t) = {}" using new(1) assms(3) by (fastforce simp: mail_ids_def)
  moreover have "map o_id (map (\<lambda>r. if retention_elapsed now r then give_up now r else r) ?t) = map o_id ?t"
    by (simp add: give_up_def)
  ultimately show ?thesis using assms(1) unfolding m map_append by (simp only: distinct_append) blast
qed

lemma update_pauses_db:
  assumes "update_pauses db email payload now = Inr (db1, r)"
  shows "\<exists>action dates. validate_pause_request payload now = Inr (action, dates)
    \<and> db1 = (case action of Pause \<Rightarrow> do_pause email dates now db | Resume \<Rightarrow> do_resume email dates now db)"
  using assms by (auto simp: update_pauses_def ebind_Inr_iff Let_def)

lemma pauses_frame:
  assumes "update_notification_pauses email payload now gnow db = (db', r)"
  shows "evolves calm (notification_outbox db) (notification_outbox db')"
    "length (notification_outbox db') = length (notification_outbox db)"
    "system_email_outbox db' = system_email_outbox db" "delivery_attempts db' = delivery_attempts db"
proof -
  have p: "length (notification_outbox (do_pause email dates now db)) = length (notification_outbox db)"
    "system_email_outbox (do_pause email dates now db) = system_email_outbox db"
    "delivery_attempts (do_pause email dates now db) = delivery_attempts db" for dates
    by (simp_all add: do_pause_def Let_def release_unused_claims_def split: list.split)
  let ?ok = "\<lambda>d. evolves calm (notification_outbox db) (notification_outbox d)
    \<and> length (notification_outbox d) = length (notification_outbox db)
    \<and> system_email_outbox d = system_email_outbox db \<and> delivery_attempts d = delivery_attempts db"
  have "?ok db'"
  proof (cases "update_pauses db email payload now")
    case (Inl e)
    then show ?thesis using assms by (simp add: update_notification_pauses_def atomically_def)
  next
    case (Inr x)
    obtain db1 view changed where x: "x = (db1, view, changed)" by (cases x)
    obtain action dates where "db1 = (case action of Pause \<Rightarrow> do_pause email dates now db | Resume \<Rightarrow> do_resume email dates now db)"
      using update_pauses_db [of db email payload now db1] Inr x by blast
    then have "?ok db1" using p pause_evolves by (cases action) (auto simp: do_resume_def)
    then show ?thesis using assms Inr x
      by (auto simp: update_notification_pauses_def atomically_def Let_def increment_subscription_generations_def)
  qed
  then show "evolves calm (notification_outbox db) (notification_outbox db')"
    "length (notification_outbox db') = length (notification_outbox db)"
    "system_email_outbox db' = system_email_outbox db" "delivery_attempts db' = delivery_attempts db"
    by simp_all
qed

lemma cancel_frame:
  "length (notification_outbox (fst (cancel_subscription email i sqlnow gnow db))) = length (notification_outbox db)"
  "system_email_outbox (fst (cancel_subscription email i sqlnow gnow db)) = system_email_outbox db"
  "delivery_attempts (fst (cancel_subscription email i sqlnow gnow db)) = delivery_attempts db"
  by (simp_all add: cancel_subscription_def increment_subscription_generations_def split: option.split)

lemma code_frame:
  assumes "send_verification_code E pepper email ip now challenge mail_id draw db = (db', r)"
  shows "notification_outbox db' = notification_outbox db" "delivery_attempts db' = delivery_attempts db"
    "system_email_outbox db' = system_email_outbox db \<or>
      (\<exists>m. system_email_outbox db' = system_email_outbox db @ [m] \<and> o_id m = mail_id \<and> o_status m = Pending \<and> clean m)"
  using assms by (auto simp: send_verification_code_def atomically_def Let_def verification_mail_def clean_def
      split: sum.splits if_splits)

lemma code_evolves:
  assumes "send_verification_code E pepper email ip now challenge mail_id draw db = (db', r)"
  shows "evolves calm (system_email_outbox db) (system_email_outbox db')"
proof -
  from code_frame(3) [OF assms] show ?thesis
  proof
    assume "\<exists>m. system_email_outbox db' = system_email_outbox db @ [m] \<and> o_id m = mail_id \<and> o_status m = Pending \<and> clean m"
    then obtain m where m: "system_email_outbox db' = map id (system_email_outbox db) @ [m]" "o_status m = Pending \<and> clean m" by auto
    show ?thesis by (rule evolvesI [OF m(1)]) (use m(2) in auto)
  qed simp
qed

lemma claim_system_frame:
  "length (system_email_outbox (fst (claim_system worker now locked db))) = length (system_email_outbox db)"
  "notification_outbox (fst (claim_system worker now locked db)) = notification_outbox db"
  "delivery_attempts (fst (claim_system worker now locked db)) = delivery_attempts db"
  by (simp_all add: claim_system_def split: list.split)

lemma claim_group_frame:
  "length (notification_outbox (fst (claim_subscriber_group E worker settings target weather now claim locked db))) =
     length (notification_outbox db)"
  "system_email_outbox (fst (claim_subscriber_group E worker settings target weather now claim locked db)) = system_email_outbox db"
  "delivery_attempts (fst (claim_subscriber_group E worker settings target weather now claim locked db)) = delivery_attempts db"
  by (simp_all add: claim_subscriber_group_def Let_def suppress_def reserve_def split: list.split)

lemma release_frame:
  "length (notification_outbox (release_expired_leases now db)) = length (notification_outbox db)"
  "length (system_email_outbox (release_expired_leases now db)) = length (system_email_outbox db)"
  "delivery_attempts (release_expired_leases now db) = delivery_attempts db"
  by (simp_all add: release_expired_leases_def Let_def requeue_leases_def interrupt_leases_def)

lemma check_frame: "length (fst (next_provider_check now t)) = length t"
  by (simp add: next_provider_check_def split: list.split)

lemma reconcile_frame:
  "length (notification_outbox (reconcile_subscriber_row pc out checked now db)) = length (notification_outbox db)"
  "system_email_outbox (reconcile_subscriber_row pc out checked now db) = system_email_outbox db"
  "delivery_attempts (reconcile_subscriber_row pc out checked now db) = delivery_attempts db"
  "length (system_email_outbox (reconcile_system_row pc out checked now db)) = length (system_email_outbox db)"
  "notification_outbox (reconcile_system_row pc out checked now db) = notification_outbox db"
  "delivery_attempts (reconcile_system_row pc out checked now db) = delivery_attempts db"
  by (simp_all add: reconcile_subscriber_row_def reconcile_system_row_def Let_def update_provider_pending_def
      mark_delivered_def split: check_outcome.split verdict.split)

lemma maintenance_frame:
  "length (notification_outbox (maintenance fresh now db)) = length (notification_outbox db)"
  "delivery_attempts (maintenance fresh now db) = delivery_attempts db"
  by (simp_all add: maintenance_def Let_def queue_expiry_notices_def renew_subscriptions_def)

lemma expire_frame:
  assumes "expire_unusable sqlnow db = Inr db'"
  shows "evolves calm (notification_outbox db) (notification_outbox db')" "evolves calm (system_email_outbox db) (system_email_outbox db')"
    "length (notification_outbox db') = length (notification_outbox db)"
    "length (system_email_outbox db') = length (system_email_outbox db)" "delivery_attempts db' = delivery_attempts db"
  using assms by (auto simp: expire_unusable_def expire_evolves split: if_splits)
    (simp_all add: expire_reminders_def expire_system_def)

lemma world_inv_simp [simp]:
  "world_inv \<lparr>world_db = db, world_flights = fs\<rparr> \<longleftrightarrow>
     outbox_inv SubscriberEmail (notification_outbox db) (delivery_attempts db)
     \<and> outbox_inv SystemEmail (system_email_outbox db) (delivery_attempts db)
     \<and> flights_inv (delivery_attempts db) fs"
  by (simp add: world_inv_def Let_def)

lemma world_inv_calm:
  assumes "world_inv \<lparr>world_db = db, world_flights = fs\<rparr>" "delivery_attempts db' = delivery_attempts db"
    and "evolves calm (notification_outbox db) (notification_outbox db')"
      "length (notification_outbox db') = length (notification_outbox db)"
    and "evolves calm (system_email_outbox db) (system_email_outbox db')"
      "length (system_email_outbox db') = length (system_email_outbox db)"
  shows "world_inv \<lparr>world_db = db', world_flights = fs\<rparr>"
proof -
  have ob: "outbox_inv SubscriberEmail (notification_outbox db) (delivery_attempts db)"
    "outbox_inv SystemEmail (system_email_outbox db) (delivery_attempts db)" using assms(1) by simp_all
  show ?thesis using outbox_inv_kept [OF ob(1) assms(3,4)] outbox_inv_kept [OF ob(2) assms(5,6)] assms(1,2) by simp
qed

lemma flight_attempt:
  assumes "flights_inv atts fs" "f \<in> set fs"
  obtains A where "A \<in> set atts" "a_id A = fl_attempt f" "a_channel A = fl_channel f" "a_queue_ids A = fl_ids f" "a_phase A = Dispatching"
  using assms by (auto simp: flights_inv_def)

lemma flights_distinct: "flights_inv atts fs \<Longrightarrow> distinct (map a_id atts)"
  by (simp add: flights_inv_def)

lemma finish_system_inv:
  assumes inv: "world_inv \<lparr>world_db = db, world_flights = fs\<rparr>" and f: "SystemFlight worker jobs aid \<in> set fs"
  shows "world_inv \<lparr>world_db = finish_system jobs worker aid out now sqlnow db,
    world_flights = remove1 (SystemFlight worker jobs aid) fs\<rparr>"
proof -
  have fl: "flights_inv (delivery_attempts db) fs" using inv by simp
  from fl f obtain A where A: "A \<in> set (delivery_attempts db)" "a_id A = aid" "a_channel A = SystemEmail"
    "a_queue_ids A = map j_id jobs" "a_phase A = Dispatching" by (rule flight_attempt) simp
  note d = flights_distinct [OF fl]
  from inv have ob: "outbox_inv SystemEmail (system_email_outbox db) (delivery_attempts db)"
    "outbox_inv SubscriberEmail (notification_outbox db) (delivery_attempts db)" by simp_all
  show ?thesis
    using outbox_inv_finish [OF ob(1) d A send_phase_range send_phase_retry] outbox_inv_finish_attempt [OF ob(2) A(1) d A(2,5)]
      flights_inv_finish [OF fl f] by (simp add: finish_system_def Let_def)
qed

lemma finish_subscriber_inv:
  assumes inv: "world_inv \<lparr>world_db = db, world_flights = fs\<rparr>" and f: "SubscriberFlight worker jobs aid \<in> set fs"
  shows "world_inv \<lparr>world_db = finish_subscriber jobs worker aid out now sqlnow db,
    world_flights = remove1 (SubscriberFlight worker jobs aid) fs\<rparr>"
proof -
  have fl: "flights_inv (delivery_attempts db) fs" using inv by simp
  from fl f obtain A where A: "A \<in> set (delivery_attempts db)" "a_id A = aid" "a_channel A = SubscriberEmail"
    "a_queue_ids A = map j_id jobs" "a_phase A = Dispatching" by (rule flight_attempt) simp
  note d = flights_distinct [OF fl]
  from inv have ob: "outbox_inv SystemEmail (system_email_outbox db) (delivery_attempts db)"
    "outbox_inv SubscriberEmail (notification_outbox db) (delivery_attempts db)" by simp_all
  show ?thesis
    using outbox_inv_finish [OF ob(2) d A send_phase_range send_phase_retry] outbox_inv_finish_attempt [OF ob(1) A(1) d A(2,5)]
      flights_inv_finish [OF fl f] by (simp add: finish_subscriber_def Let_def)
qed

lemma begin_system_world:
  assumes inv: "world_inv \<lparr>world_db = db, world_flights = fs\<rparr>"
    and b: "begin_system job worker now sqlnow aid db = (db', jobs)" and fresh: "aid \<notin> attempt_ids db"
  shows "world_inv \<lparr>world_db = db', world_flights = (if jobs = [] then fs else SystemFlight worker jobs aid # fs)\<rparr>"
proof -
  note fr = begin_system_frame [OF b]
  have "outbox_inv SystemEmail (system_email_outbox db') (delivery_attempts db')"
    using inv by (intro begin_system_inv [OF _ b]) simp
  moreover have "outbox_inv SubscriberEmail (notification_outbox db') (delivery_attempts db')"
    using inv fr outbox_inv_other_attempt [of SubscriberEmail "notification_outbox db" "delivery_attempts db" SystemEmail]
    by (cases "jobs = []") simp_all
  moreover have "flights_inv (delivery_attempts db') (if jobs = [] then fs else SystemFlight worker jobs aid # fs)"
    using inv fr fresh by (cases "jobs = []") (simp_all add: attempt_ids_def flights_inv_begin)
  ultimately show ?thesis by (simp only: world_inv_simp)
qed

lemma begin_subscriber_world:
  assumes inv: "world_inv \<lparr>world_db = db, world_flights = fs\<rparr>"
    and b: "begin_subscriber held worker now sqlnow aid db = Inr (db', jobs)" and fresh: "aid \<notin> attempt_ids db"
  shows "world_inv \<lparr>world_db = db', world_flights = (if jobs = [] then fs else SubscriberFlight worker jobs aid # fs)\<rparr>"
  using b
proof (rule begin_subscriber_cases)
  fix claim
  assume d: "dispatch_valid held claim worker now sqlnow aid db = (db', jobs)"
  note fr = dispatch_valid_frame [OF d]
  have "outbox_inv SubscriberEmail (notification_outbox db') (delivery_attempts db')"
    using inv by (intro dispatch_valid_inv [OF _ d]) simp
  moreover have "outbox_inv SystemEmail (system_email_outbox db') (delivery_attempts db')"
    using inv fr outbox_inv_other_attempt [of SystemEmail "system_email_outbox db" "delivery_attempts db" SubscriberEmail]
    by (cases "jobs = []") simp_all
  moreover have "flights_inv (delivery_attempts db') (if jobs = [] then fs else SubscriberFlight worker jobs aid # fs)"
    using inv fr fresh by (cases "jobs = []") (simp_all add: attempt_ids_def flights_inv_begin)
  ultimately show ?thesis by (simp only: world_inv_simp)
qed (use inv in simp)

lemma ingest_world:
  assumes inv: "world_inv \<lparr>world_db = db, world_flights = fs\<rparr>"
    and i: "ingest_observation E uuid payload parsed now sqlnow db = Inr (db', r)"
    and "inj (case_prod uuid)" "\<And>s e. uuid s e \<notin> note_ids db"
  shows "world_inv \<lparr>world_db = db', world_flights = fs\<rparr>"
proof -
  note g = ingest_grown [OF i]
  have o: "outbox_inv SubscriberEmail (notification_outbox db) (delivery_attempts db)" using inv by simp
  then have "distinct (map o_id (notification_outbox db'))"
    using assms(3,4) by (intro grown_ids [OF g(1)]) (auto simp: outbox_inv_def note_ids_def)
  with o g show ?thesis using inv outbox_inv_evolves [OF o grown_evolves [OF g(1)]] by simp
qed

lemma code_world:
  assumes inv: "world_inv \<lparr>world_db = db, world_flights = fs\<rparr>"
    and c: "send_verification_code E pepper email ip now challenge mail_id draw db = (db', r)" "mail_id \<notin> mail_ids db"
  shows "world_inv \<lparr>world_db = db', world_flights = fs\<rparr>"
proof -
  note f = code_frame [OF c(1)]
  have o: "outbox_inv SystemEmail (system_email_outbox db) (delivery_attempts db)" using inv by simp
  then have "distinct (map o_id (system_email_outbox db'))"
    using f(3) c(2) by (auto simp: outbox_inv_def mail_ids_def)
  from outbox_inv_evolves [OF o code_evolves [OF c(1)] this] inv f(1,2) show ?thesis by simp
qed

lemma maintenance_world:
  assumes inv: "world_inv \<lparr>world_db = db, world_flights = fs\<rparr>" and "inj fresh" "\<And>s. fresh s \<notin> mail_ids db"
  shows "world_inv \<lparr>world_db = maintenance fresh now db, world_flights = fs\<rparr>"
proof -
  have o: "outbox_inv SystemEmail (system_email_outbox db) (delivery_attempts db)"
    "outbox_inv SubscriberEmail (notification_outbox db) (delivery_attempts db)" using inv by simp_all
  have "distinct (map o_id (system_email_outbox (maintenance fresh now db)))"
    using o(1) assms(2,3) by (intro maintenance_ids) (simp_all add: outbox_inv_def)
  from outbox_inv_evolves [OF o(1) maintenance_evolves(2) this] outbox_inv_kept [OF o(2) maintenance_evolves(1)]
  show ?thesis using inv by (simp add: maintenance_frame)
qed

lemma world_step_inv: "world_step w w' \<Longrightarrow> world_inv w \<Longrightarrow> world_inv w'"
proof (induction rule: world_step.induct)
  case (ws_ingest E uuid payload parsed now sqlnow db db' r fs)
  then show ?case by (blast intro: ingest_world)
next
  case (ws_pause email payload now gnow db db' r fs)
  then show ?case using pauses_frame [OF ws_pause(1)] by (intro world_inv_calm [of db fs db']) simp_all
next
  case (ws_cancel email i sqlnow gnow db db' r fs)
  then show ?case using cancel_frame [of email i sqlnow gnow db] cancel_evolves [of db email i sqlnow gnow]
    by (intro world_inv_calm [of db fs db']) simp_all
next
  case (ws_code E pepper email ip now challenge mail_id draw db db' r fs)
  then show ?case by (blast intro: code_world)
next
  case (ws_release db fs now)
  then show ?case by (rule world_inv_calm) (simp_all add: release_frame release_evolves)
next
  case (ws_claim_system worker now locked db db' job fs)
  then have "distinct (map o_id (system_email_outbox db))" by (simp add: outbox_inv_def)
  from claim_system_evolves [OF this, of worker now locked] ws_claim_system claim_system_frame [of worker now locked db]
  show ?case by (intro world_inv_calm [of db fs db']) simp_all
next
  case (ws_claim_group E worker settings target weather now claim locked db db' jobs fs)
  then have "distinct (map o_id (notification_outbox db))" by (simp add: outbox_inv_def)
  from claim_subscriber_evolves [OF this, of E worker settings target weather now claim locked] ws_claim_group
    claim_group_frame [of E worker settings target weather now claim locked db]
  show ?case by (intro world_inv_calm [of db fs db']) simp_all
next
  case (ws_begin_system job worker now sqlnow aid db db' jobs fs)
  then show ?case by (blast intro: begin_system_world)
next
  case (ws_begin_subscriber held worker now sqlnow aid db db' jobs fs)
  then show ?case by (blast intro: begin_subscriber_world)
next
  case (ws_finish_system worker jobs aid fs db out now sqlnow)
  then show ?case by (blast intro: finish_system_inv)
next
  case (ws_finish_subscriber worker jobs aid fs db out now sqlnow)
  then show ?case by (blast intro: finish_subscriber_inv)
next
  case (ws_crash f fs db)
  then show ?case by (simp add: flights_inv_remove)
next
  case (ws_check_subscriber now db t row fs)
  then show ?case using check_evolves [of "notification_outbox db" now] check_frame [of now "notification_outbox db"]
    by (intro world_inv_calm [of db fs "db\<lparr>notification_outbox := t\<rparr>"]) simp_all
next
  case (ws_check_system now db t row fs)
  then show ?case using check_evolves [of "system_email_outbox db" now] check_frame [of now "system_email_outbox db"]
    by (intro world_inv_calm [of db fs "db\<lparr>system_email_outbox := t\<rparr>"]) simp_all
next
  case (ws_reconcile_subscriber db fs pc verdict checked now)
  then show ?case by (rule world_inv_calm) (simp_all add: reconcile_frame reconcile_evolves)
next
  case (ws_reconcile_system db fs pc verdict checked now)
  then show ?case by (rule world_inv_calm) (simp_all add: reconcile_frame reconcile_evolves)
next
  case (ws_maintenance fresh db fs now)
  then show ?case by (blast intro: maintenance_world)
next
  case (ws_expire sqlnow db db' fs)
  then show ?case using expire_frame [OF ws_expire(1)] by (intro world_inv_calm [of db fs db']) simp_all
next
  case (ws_elsewhere db' db fs)
  then show ?case by simp
qed

lemma world_init_inv: "world_init w \<Longrightarrow> world_inv w"
  by (auto simp: world_init_def world_inv_def outbox_inv_def one_live_def flights_inv_def Let_def)

interpretation delivery: transition_system world_init world_step world_inv
  by unfold_locales (fact world_init_inv, rule world_step_inv)

section \<open>The life cycle of a row\<close>

definition note_entry :: "world \<Rightarrow> pystr \<Rightarrow> status \<Rightarrow> bool" where
  "note_entry w i s \<longleftrightarrow> (\<exists>n \<in> set (notification_outbox (world_db w)). o_id n = i \<and> o_status n = s)"

definition mail_entry :: "world \<Rightarrow> pystr \<Rightarrow> status \<Rightarrow> bool" where
  "mail_entry w i s \<longleftrightarrow> (\<exists>r \<in> set (system_email_outbox (world_db w)). o_id r = i \<and> o_status r = s)"

lemma evolves_calm: "evolves calm t t' \<Longrightarrow> evolves may_follow t t'"
  unfolding evolves_def using calm_may_follow by blast

lemma dispatch_rows_evolves:
  assumes "\<And>r. r \<in> set t \<Longrightarrow> o_id r \<in> set ids \<Longrightarrow> o_lease_owner r = Some worker \<Longrightarrow> o_status r = Processing"
  shows "evolves may_follow t (dispatch_rows ids worker now t)"
  unfolding dispatch_rows_def
  by (rule evolves_update) (use assms in \<open>auto simp: may_follow_def clean_def unsent_def\<close>)

lemma finish_rows_evolves:
  assumes "phase \<in> {Submitted, SubmissionUnknown, Retry, Failed}" "phase = Retry \<Longrightarrow> sent_message out = None"
  shows "evolves may_follow t (finish_rows ids worker phase out due sqlnow t)"
  unfolding finish_rows_def
proof (rule evolves_update)
  fix r :: "'a outbox_row_scheme"
  assume r: "o_id r \<in> set ids \<and> o_lease_owner r = Some worker \<and> o_status r = Dispatching"
  have "clean (finished_row phase out due sqlnow r)" if "clean r"
    using assms that r by (cases "phase = Retry") (auto simp: clean_def unsent_def finished_row_def)
  with r assms(1) show "o_id (finished_row phase out due sqlnow r) = o_id r \<and>
      may_follow (o_status r) (o_status (finished_row phase out due sqlnow r)) \<and>
      (clean r \<longrightarrow> clean (finished_row phase out due sqlnow r))"
    by (auto simp: finished_row_def may_follow_def)
qed simp

lemma begin_system_evolves:
  assumes "distinct (map o_id (system_email_outbox db))" "begin_system job worker now sqlnow aid db = (db', jobs)"
  shows "evolves may_follow (system_email_outbox db) (system_email_outbox db')"
proof (cases "delivery_enabled db \<and> list_ex (\<lambda>r. o_id r = j_id job \<and> system_valid worker now r) (system_email_outbox db)")
  case True
  then obtain r0 where r0: "r0 \<in> set (system_email_outbox db)" "o_id r0 = j_id job" "system_valid worker now r0"
    by (auto simp: list_ex_iff)
  have "o_status r = Processing" if "r \<in> set (system_email_outbox db)" "o_id r = j_id job" for r
    using key_unique [OF assms(1) that(1) r0(1)] that(2) r0(2,3) by (simp add: system_valid_def)
  then have "evolves may_follow (system_email_outbox db) (dispatch_rows [j_id job] worker now (system_email_outbox db))"
    by (intro dispatch_rows_evolves) simp
  with True assms(2) show ?thesis by (auto simp: begin_system_def)
next
  case False
  then have "evolves calm (system_email_outbox db) (system_email_outbox db')"
    using assms(2) by (auto simp: begin_system_def Let_def not_eligible_def calm_def clean_def unsent_def
        split: if_splits intro!: evolves_update)
  then show ?thesis by (rule evolves_calm)
qed

lemma dispatch_valid_evolves:
  assumes d: "distinct (map o_id (notification_outbox db))"
    and b: "dispatch_valid held claim worker now sqlnow aid db = (db', jobs)"
  shows "evolves may_follow (notification_outbox db) (notification_outbox db')"
proof -
  let ?t = "notification_outbox db"
  let ?valid = "filter (valid_job db worker claim now) held"
  let ?p = "\<lambda>n. o_id n \<in> set (map j_id (filter (\<lambda>j. \<not> valid_job db worker claim now j) held)) \<and> o_lease_owner n = Some worker
     \<and> o_status n = Processing \<and> n_delivery_claim_id n = Some claim"
  let ?g1 = "\<lambda>n. if ?p n then not_eligible now n else n"
  let ?g2 = "\<lambda>n. if o_id n \<in> set (map j_id ?valid) \<and> o_lease_owner n = Some worker then n\<lparr>o_status := Dispatching, o_updated_at := now\<rparr> else n"
  have "notification_outbox db' = map ?g1 ?t \<or> notification_outbox db' = map (?g2 \<circ> ?g1) ?t"
    using b by (auto simp: dispatch_valid_def Let_def release_unused_claims_def dispatch_rows_def sql_update_def split: if_splits)
  then show ?thesis
  proof
    assume e: "notification_outbox db' = map ?g1 ?t"
    have "evolves calm ?t (sql_update ?p (not_eligible now) ?t)"
      by (rule evolves_update) (auto simp: not_eligible_def calm_def clean_def unsent_def)
    then show ?thesis unfolding e by (simp add: sql_update_def evolves_calm)
  next
    assume e: "notification_outbox db' = map (?g2 \<circ> ?g1) ?t"
    have row: "o_id (?g2 (?g1 r)) = o_id r \<and> may_follow (o_status r) (o_status (?g2 (?g1 r))) \<and> (clean r \<longrightarrow> clean (?g2 (?g1 r)))"
      if r: "r \<in> set ?t" for r
    proof (cases "?p r")
      case True
      then have "?g2 (?g1 r) = not_eligible now r" by (simp add: not_eligible_def)
      with True show ?thesis by (auto simp: not_eligible_def may_follow_def calm_def clean_def unsent_def)
    next
      case False
      have "o_status r = Processing" if v: "o_id r \<in> set (map j_id ?valid)"
      proof -
        obtain j where "valid_job db worker claim now j" "o_id r = j_id j" using v by auto
        from valid_job_row [OF this(1) d r this(2)] show ?thesis by (simp add: subscriber_valid_def)
      qed
      with False show ?thesis by (auto simp: may_follow_def clean_def unsent_def)
    qed
    show ?thesis
    proof (rule evolvesI [where g = "?g2 \<circ> ?g1" and new = "[]"])
      show "notification_outbox db' = map (?g2 \<circ> ?g1) ?t @ []" by (simp only: e append_Nil2)
    qed (unfold comp_apply, erule row, simp)
  qed
qed

lemma world_step_evolves:
  assumes "world_step w w'" "world_inv w"
  shows "evolves may_follow (notification_outbox (world_db w)) (notification_outbox (world_db w'))
    \<and> evolves may_follow (system_email_outbox (world_db w)) (system_email_outbox (world_db w'))"
  using assms
proof (induction rule: world_step.induct)
  case (ws_ingest E uuid payload parsed now sqlnow db db' r fs)
  then show ?case using grown_evolves [OF ingest_grown(1) [OF ws_ingest(1)]] ingest_grown(2) [OF ws_ingest(1)]
    by (simp add: evolves_calm)
next
  case (ws_pause email payload now gnow db db' r fs)
  then show ?case using pauses_frame [OF ws_pause(1)] by (simp add: evolves_calm)
next
  case (ws_cancel email i sqlnow gnow db db' r fs)
  then show ?case using cancel_frame [of email i sqlnow gnow db] cancel_evolves [of db email i sqlnow gnow]
    by (simp add: evolves_calm)
next
  case (ws_code E pepper email ip now challenge mail_id draw db db' r fs)
  then show ?case using code_frame(1) [OF ws_code(1)] code_evolves [OF ws_code(1)] by (simp add: evolves_calm)
next
  case (ws_release db fs now)
  then show ?case by (simp add: release_evolves evolves_calm)
next
  case (ws_claim_system worker now locked db db' job fs)
  then have "distinct (map o_id (system_email_outbox db))" by (simp add: outbox_inv_def)
  from claim_system_evolves [OF this, of worker now locked] ws_claim_system claim_system_frame [of worker now locked db]
  show ?case by (simp add: evolves_calm)
next
  case (ws_claim_group E worker settings target weather now claim locked db db' jobs fs)
  then have "distinct (map o_id (notification_outbox db))" by (simp add: outbox_inv_def)
  from claim_subscriber_evolves [OF this, of E worker settings target weather now claim locked] ws_claim_group
    claim_group_frame [of E worker settings target weather now claim locked db]
  show ?case by (simp add: evolves_calm)
next
  case (ws_begin_system job worker now sqlnow aid db db' jobs fs)
  then have "distinct (map o_id (system_email_outbox db))" by (simp add: outbox_inv_def)
  from begin_system_evolves [OF this ws_begin_system(1)] begin_system_frame(1) [OF ws_begin_system(1)]
  show ?case by simp
next
  case (ws_begin_subscriber held worker now sqlnow aid db db' jobs fs)
  then have d: "distinct (map o_id (notification_outbox db))" by (simp add: outbox_inv_def)
  from ws_begin_subscriber(1) show ?case
    by (rule begin_subscriber_cases) (simp_all add: dispatch_valid_evolves [OF d] dispatch_valid_frame(1))
next
  case (ws_finish_system worker jobs aid fs db out now sqlnow)
  then show ?case by (simp add: finish_system_def Let_def finish_rows_evolves [OF send_phase_range send_phase_retry])
next
  case (ws_finish_subscriber worker jobs aid fs db out now sqlnow)
  then show ?case by (simp add: finish_subscriber_def Let_def finish_rows_evolves [OF send_phase_range send_phase_retry])
next
  case (ws_crash f fs db)
  then show ?case by simp
next
  case (ws_check_subscriber now db t row fs)
  then show ?case using check_evolves [of "notification_outbox db" now] by (simp add: evolves_calm)
next
  case (ws_check_system now db t row fs)
  then show ?case using check_evolves [of "system_email_outbox db" now] by (simp add: evolves_calm)
next
  case (ws_reconcile_subscriber db fs pc verdict checked now)
  then show ?case by (simp add: reconcile_frame reconcile_evolves evolves_calm)
next
  case (ws_reconcile_system db fs pc verdict checked now)
  then show ?case by (simp add: reconcile_frame reconcile_evolves evolves_calm)
next
  case (ws_maintenance fresh db fs now)
  then show ?case by (simp add: maintenance_evolves evolves_calm)
next
  case (ws_expire sqlnow db db' fs)
  then show ?case using expire_frame [OF ws_expire(1)] by (simp add: evolves_calm)
next
  case (ws_elsewhere db' db fs)
  then show ?case by simp
qed

interpretation note_life: status_lifecycle world_init world_step world_inv note_entry may_follow final
proof
  fix w w' i s
  assume "world_inv w" "world_step w w'" "note_entry w i s"
  then show "\<exists>s'. note_entry w' i s' \<and> may_follow s s'"
    using evolves_row [of may_follow "notification_outbox (world_db w)"] world_step_evolves
    unfolding note_entry_def by metis
qed (rule final_stays)

interpretation mail_life: status_lifecycle world_init world_step world_inv mail_entry may_follow final
proof
  fix w w' i s
  assume "world_inv w" "world_step w w'" "mail_entry w i s"
  then show "\<exists>s'. mail_entry w' i s' \<and> may_follow s s'"
    using evolves_row [of may_follow "system_email_outbox (world_db w)"] world_step_evolves
    unfolding mail_entry_def by metis
qed (rule final_stays)

end
