(* ===== verification/Scenario.thy ===== *)
theory Scenario
  imports Delivery
begin

text \<open>
  A small concrete run: one subscriber, one open slot, one queued reminder and one queued
  verification mail, with the claim, the dispatch and the end of the send of each. It instantiates
  the theorems about the running system.
\<close>

definition demo_env :: pyenv where
  [py_eval]: "demo_env = \<lparr>sha256_hex = (\<lambda>s. s), hmac_hex = (\<lambda>k s. k @ s), py_repr = (\<lambda>v. []),
     py_lower = (\<lambda>s. s), py_upper = (\<lambda>s. s)\<rparr>"

definition demo_email :: pystr where
  [py_eval]: "demo_email = u ''a@b.cn''"

definition demo_subscription :: subscription_row where
  [py_eval]: "demo_subscription = \<lparr>s_id = u ''s'', s_email = demo_email, s_venue_ids = [u ''dsh''],
     s_start_time = u ''08:00'', s_end_time = u ''12:00'', s_weekday_mask = 127, s_duration_days = 7,
     s_term_code = u ''7d'', s_auto_renew = False, s_dedupe_key = Some (u ''k''), s_active_until = days 20,
     s_active = True, s_created_at = 0, s_updated_at = 0\<rparr>"

definition demo_slot :: slot_row where
  [py_eval]: "demo_slot = \<lparr>sl_event_key = u ''e'', sl_venue_id = u ''dsh'', sl_court_name = u ''c'',
     sl_booking_date = 18, sl_start_time = u ''09:00'', sl_end_time = u ''10:00'', sl_first_observed_at = 0,
     sl_last_observed_at = 0\<rparr>"

definition demo_note :: notification_row where
  [py_eval]: "demo_note = new_notification (u ''n'') (u ''line'') (u ''e'')
     \<lparr>as_id = u ''s'', as_email = demo_email, as_start_time = u ''08:00'', as_end_time = u ''12:00'',
      as_weekday_mask = 127, as_tier = Standard\<rparr> (u ''dsh'') 0"

definition demo_mail :: system_row where
  [py_eval]: "demo_mail = verification_mail (u ''m'') (u ''c'') demo_email (u ''123456'') 0 (minutes 10)"

definition demo_db :: db where
  [py_eval]: "demo_db = (empty_db 0)\<lparr>runtime_control := (initial_control 0)\<lparr>rc_delivery_enabled := True\<rparr>,
     subscriptions := [demo_subscription],
     subscription_venues := [\<lparr>sv_subscription_id = u ''s'', sv_venue_id = u ''dsh''\<rparr>],
     subscription_events := [\<lparr>e_subscription_id = u ''s'', e_event_key = u ''e'', e_created_at = 0\<rparr>],
     observed_slots := [demo_slot],
     current_availability := [\<lparr>av_observation_key = u ''o'', av_event_key = u ''e'', av_last_seen_at = 0\<rparr>],
     notification_outbox := [demo_note], system_email_outbox := [demo_mail]\<rparr>"

definition demo_quota :: quota_settings where
  [py_eval]: "demo_quota = \<lparr>standard_daily_email_limit = 5, priority_daily_email_limit = 10,
     notification_daily_send_limit = 100\<rparr>"

definition demo_weather :: weather_decision where
  [py_eval]: "demo_weather = \<lparr>wd_send_email = True, wd_forecast_date = None, wd_precipitation_mm = None,
     wd_threshold_mm = 1, wd_reason = [], wd_error = None\<rparr>"

definition demo_target :: subscriber_target where
  [py_eval]: "demo_target = \<lparr>st_email = demo_email, st_tier = Standard, st_booking_date = 18\<rparr>"

definition demo_now :: instant where
  [py_eval]: "demo_now = seconds 20"

definition demo_claim :: "db \<times> subscriber_job list" where
  [py_eval]: "demo_claim = claim_subscriber_group demo_env (u ''w'') demo_quota demo_target demo_weather demo_now
     (u ''q'') (\<lambda>_. False) demo_db"

definition demo_begin :: "sql_error + (db \<times> subscriber_job list)" where
  [py_eval]: "demo_begin = begin_subscriber (snd demo_claim) (u ''w'') demo_now demo_now (u ''t'') (fst demo_claim)"

definition demo_held_note :: notification_row where
  "demo_held_note = (leased (u ''w'') demo_now demo_note)\<lparr>n_delivery_claim_id := Some (u ''q'')\<rparr>"

definition demo_job :: subscriber_job where
  "demo_job = subscriber_job_of demo_target (u ''q'') demo_note"

lemma demo_due: "claimable_day demo_db demo_now demo_note = Some 18"
  by (simp add: py_eval new_notification_def duration_defs)

lemma demo_group: "group_rows demo_db demo_now demo_target (\<lambda>_. False) = [demo_note]"
  by (simp add: group_rows_def demo_due) (simp add: py_eval new_notification_def)


lemma demo_claim_eval: "demo_claim = (reserve (u ''w'') demo_email [u ''n''] (u ''q'') demo_now demo_db, [demo_job])"
  by (simp add: demo_claim_def claim_subscriber_group_def demo_group Let_def demo_job_def)
    (simp add: py_eval new_notification_def duration_defs)

lemma demo_venue: "is_venue (u ''dsh'')"
  unfolding is_venue_def VENUES_eval by (simp add: u_def)

lemma demo_time: "time_match (u ''09:00'')"
  by (simp add: time_match_def u_def is_digit_def digit_value_ascii)

lemma demo_start: "start_at 18 (u ''09:00'') = days 18 + hours 1"
  using demo_time parse_time_ascii [of 48 57 48 48]
  by (simp add: start_at_def u_def shanghai_midnight_def shanghai_offset_def duration_defs)

lemma demo_valid: "subscriber_valid (fst demo_claim) (u ''w'') (u ''q'') demo_now demo_held_note"
proof -
  let ?db = "fst demo_claim" and ?n = demo_held_note
  have "slot_of ?db (n_event_key ?n) = Some demo_slot" "subscription_of ?db (n_subscription_id ?n) = Some demo_subscription"
    "currently_available ?db demo_now (n_event_key ?n)" "eligible_since ?n = 0" "date_paused ?db (o_email ?n) 18 = False"
    "subscription_live ?db demo_now demo_subscription" "n_venue_id ?n = u ''dsh''"
    by (simp_all add: demo_claim_eval py_eval new_notification_def demo_held_note_def)
  moreover have "o_status ?n = Processing" "o_lease_owner ?n = Some (u ''w'')" "n_delivery_claim_id ?n = Some (u ''q'')"
    by (simp_all add: demo_held_note_def leased_def)
  moreover have "demo_now - minutes 15 < 0" "demo_now < days 18 + hours 1" by (simp_all add: duration_defs demo_now_def)
  ultimately show ?thesis
    by (simp add: subscriber_valid_def demo_venue demo_slot_def demo_start)
qed

definition demo_sent_db :: db where
  "demo_sent_db = (fst demo_claim)\<lparr>delivery_attempts := [new_attempt (u ''t'') SubscriberEmail [u ''n''] demo_now],
     notification_outbox := [demo_held_note\<lparr>o_status := Dispatching\<rparr>]\<rparr>"

lemma demo_held: "notification_outbox (fst demo_claim) = [demo_held_note]"
  unfolding demo_claim_eval by (simp add: py_eval new_notification_def demo_held_note_def)

lemma demo_valid_job: "valid_job (fst demo_claim) (u ''w'') (u ''q'') demo_now demo_job"
  using demo_valid by (simp add: valid_job_def demo_held demo_job_def subscriber_job_of_def demo_held_note_def leased_def)

lemma demo_begin_eval: "demo_begin = Inr (demo_sent_db, [demo_job])"
proof -
  have "snd demo_claim = [demo_job]" by (simp add: demo_claim_eval)
  moreover have "delivery_enabled (fst demo_claim)" "times_castable (fst demo_claim)"
    by (simp_all add: demo_claim_eval py_eval)
  moreover have "j_claim_id demo_job = u ''q''" "j_id demo_job = u ''n''" by (simp_all add: demo_job_def py_eval new_notification_def)
  moreover have "delivery_attempts (fst demo_claim) = []" by (simp add: demo_claim_eval py_eval)
  ultimately show ?thesis
    by (simp add: demo_begin_def begin_subscriber_def dispatch_valid_def demo_valid_job Let_def demo_held demo_sent_db_def)
      (simp add: demo_held_note_def py_eval new_notification_def)
qed
definition demo_world :: world where
  "demo_world = \<lparr>world_db = demo_db, world_flights = []\<rparr>"

definition demo_sending :: world where
  "demo_sending = \<lparr>world_db = demo_sent_db, world_flights = [SubscriberFlight (u ''w'') [demo_job] (u ''t'')]\<rparr>"

definition demo_submitted :: world where
  "demo_submitted = \<lparr>world_db = finish_subscriber [demo_job] (u ''w'') (u ''t'') (SendAccepted (u ''msg'') (u ''req''))
     demo_now demo_now demo_sent_db, world_flights = []\<rparr>"

lemma demo_world_init: "world_init demo_world"
  by (simp add: world_init_def demo_world_def)
    (simp add: demo_db_def demo_note_def new_notification_def demo_mail_def verification_mail_def clean_def empty_db_def)

lemma demo_step_claim: "world_step demo_world \<lparr>world_db = fst demo_claim, world_flights = []\<rparr>"
  unfolding demo_world_def
  by (rule ws_claim_group [of demo_env "u ''w''" demo_quota demo_target demo_weather demo_now "u ''q''" "\<lambda>_. False" demo_db _ "snd demo_claim"])
    (simp add: demo_claim_def)

lemma demo_step_begin: "world_step \<lparr>world_db = fst demo_claim, world_flights = []\<rparr> demo_sending"
proof -
  have "begin_subscriber (snd demo_claim) (u ''w'') demo_now demo_now (u ''t'') (fst demo_claim) = Inr (demo_sent_db, [demo_job])"
    using demo_begin_eval by (simp add: demo_begin_def)
  moreover have "u ''t'' \<notin> attempt_ids (fst demo_claim)" by (simp add: demo_claim_eval py_eval)
  ultimately show ?thesis unfolding demo_sending_def
    using ws_begin_subscriber [of "snd demo_claim" "u ''w''" demo_now demo_now "u ''t''" "fst demo_claim" demo_sent_db "[demo_job]" "[]"]
    by simp
qed

lemma demo_step_finish: "world_step demo_sending demo_submitted"
  unfolding demo_sending_def demo_submitted_def
  using ws_finish_subscriber [of "u ''w''" "[demo_job]" "u ''t''" "[SubscriberFlight (u ''w'') [demo_job] (u ''t'')]" demo_sent_db
     "SendAccepted (u ''msg'') (u ''req'')" demo_now demo_now] by simp

lemma demo_reachable:
  "reachable world_init world_step demo_world" "reachable world_init world_step demo_sending"
  "reachable world_init world_step demo_submitted"
  using demo_world_init demo_step_claim demo_step_begin demo_step_finish
  by (blast intro: reachable.intros)+

lemma demo_sending_live:
  "delivery_attempts (world_db demo_sending) = [new_attempt (u ''t'') SubscriberEmail [u ''n''] demo_now]"
  "map o_status (notification_outbox (world_db demo_sending)) = [Dispatching]"
  by (simp_all add: demo_sending_def demo_sent_db_def)

lemma demo_submitted_note: "note_entry demo_submitted (u ''n'') Submitted"
  by (simp add: note_entry_def demo_submitted_def finish_subscriber_def Let_def demo_sent_db_def send_phase_def
      finish_rows_def finished_row_def sql_update_def demo_held_note_def demo_job_def subscriber_job_of_def leased_def
      demo_note_def new_notification_def u_def)

definition demo_delivered :: world where
  "demo_delivered = \<lparr>world_db = reconcile_subscriber_row \<lparr>pc_message_id = u ''msg'', pc_email = demo_email,
     pc_submitted_at = demo_now, pc_check_count = 0\<rparr> (Checked VDelivered None None) (minutes 1) (minutes 1)
     (world_db demo_submitted), world_flights = []\<rparr>"

lemma demo_step_delivered: "world_step demo_submitted demo_delivered"
proof -
  have "demo_submitted = \<lparr>world_db = world_db demo_submitted, world_flights = []\<rparr>" by (simp add: demo_submitted_def)
  then show ?thesis unfolding demo_delivered_def using ws_reconcile_subscriber by metis
qed

lemma demo_delivered_note: "note_entry demo_delivered (u ''n'') Delivered"
  by (simp add: note_entry_def demo_delivered_def demo_submitted_def reconcile_subscriber_row_def mark_delivered_def
      finish_subscriber_def Let_def demo_sent_db_def send_phase_def
      finish_rows_def finished_row_def sql_update_def demo_held_note_def demo_job_def subscriber_job_of_def leased_def
      demo_note_def new_notification_def u_def)

lemma demo_reachable_delivered: "reachable world_init world_step demo_delivered"
  by (rule reach_step [OF demo_reachable(3) demo_step_delivered])

end
