(* ===== verification/Dispatch.thy ===== *)
theory Dispatch
  imports Scenario
begin

text \<open>
  What the e-mail queue of \<open>host_core/worker.py\<close> promises: which reminders may be sent, how quotas and
  leases bound the claims, that a send is on record before the provider is called and what the
  recovery of leases does to a send that was cut off.
\<close>

section \<open>What a send requires\<close>

lemma valid_job_subscriber:
  "valid_job db worker claim now j \<Longrightarrow> \<exists>n \<in> set (notification_outbox db). o_id n = j_id j \<and> subscriber_valid db worker claim now n"
  by (auto simp: valid_job_def list_ex_iff)

lemma begin_subscriber_sent:
  assumes "begin_subscriber held worker now sqlnow aid db = Inr (db', jobs)" "j \<in> set jobs"
  shows "delivery_enabled db \<and> times_castable db \<and> valid_job db worker (j_claim_id (hd held)) now j"
  using assms by (auto simp: begin_subscriber_def dispatch_valid_def Let_def split: list.splits if_splits)

text \<open>C3: A reminder is put on the wire only while delivery is enabled and only if at that moment its row is
  claimed by this worker, its venue is active, its subscription is live, it became eligible within the
  last fifteen minutes, its booking day is not paused by the addressee, the slot starts in the future and
  an observation of the last fifteen minutes still shows the slot as available.\<close>

theorem reminder_sent_only_when_eligible:
  assumes "begin_subscriber held worker now sqlnow aid db = Inr (db', jobs)" "j \<in> set jobs"
  shows "delivery_enabled db \<and> (\<exists>n slot s. n \<in> set (notification_outbox db) \<and> o_id n = j_id j
    \<and> o_status n = Processing \<and> o_lease_owner n = Some worker \<and> is_venue (n_venue_id n)
    \<and> subscription_of db (n_subscription_id n) = Some s \<and> subscription_live db now s
    \<and> now - minutes 15 < eligible_since n
    \<and> slot_of db (n_event_key n) = Some slot \<and> \<not> date_paused db (o_email n) (sl_booking_date slot)
    \<and> now < start_at (sl_booking_date slot) (sl_start_time slot)
    \<and> currently_available db now (n_event_key n))"
proof -
  from begin_subscriber_sent [OF assms] valid_job_subscriber obtain n where "delivery_enabled db"
    "n \<in> set (notification_outbox db)" "o_id n = j_id j" "subscriber_valid db worker (j_claim_id (hd held)) now n" by metis
  then show ?thesis by (auto simp: subscriber_valid_def split: option.splits)
qed

theorem reminder_sent_only_when_eligible_witness:
  "\<exists>s. subscription_of (fst demo_claim) (u ''s'') = Some s \<and> subscription_live (fst demo_claim) demo_now s"
proof -
  have "begin_subscriber (snd demo_claim) (u ''w'') demo_now demo_now (u ''t'') (fst demo_claim) = Inr (demo_sent_db, [demo_job])"
    using demo_begin_eval by (simp add: demo_begin_def)
  from reminder_sent_only_when_eligible [OF this, of demo_job] demo_held show ?thesis
    by (auto simp: demo_held_note_def leased_def demo_note_def new_notification_def)
qed

section \<open>Quotas\<close>

lemma leased_sel [simp]:
  "o_message_id (leased w now r) = o_message_id r" "o_submitted_at (leased w now r) = o_submitted_at r"
  "o_email (leased w now r) = o_email r" "o_id (leased w now r) = o_id r"
  by (simp_all add: leased_def)

lemma reserve_submitted:
  "submitted_since p t (reserve worker email ids claim now db) = submitted_since p t db"
  if "\<And>n c. p ((leased worker now n)\<lparr>n_delivery_claim_id := c\<rparr>) = p n"
proof -
  let ?f = "\<lambda>n. if o_id n \<in> set ids then (leased worker now n)\<lparr>n_delivery_claim_id := Some claim\<rparr> else n"
  have "List.map_filter o_message_id (filter (\<lambda>n. p n \<and> ge_opt (o_submitted_at n) t) (map ?f xs)) =
      List.map_filter o_message_id (filter (\<lambda>n. p n \<and> ge_opt (o_submitted_at n) t) xs)" for xs
    by (induction xs) (simp_all add: that List.map_filter_simps split: option.split)
  then show ?thesis by (simp add: submitted_since_def reserve_def sql_update_def)
qed

lemma reserve_reserved:
  "p \<lparr>c_id = claim, c_email = email, c_delivery_day = shanghai_date now, c_status = Reserved,
      c_message_id = None, c_created_at = now, c_updated_at = now\<rparr> \<Longrightarrow>
   reserved_for p (shanghai_date now) now (reserve worker email ids claim now db) = reserved_for p (shanghai_date now) now db + 1"
  by (simp add: reserved_for_def reserve_def shanghai_day_def LEASE_SECONDS_def seconds_def)

lemma reserve_used:
  "user_used (reserve worker email ids claim now db) email now = user_used db email now + 1"
  "global_used (reserve worker email ids claim now db) now = global_used db now + 1"
  unfolding user_used_def global_used_def shanghai_day_def fst_conv snd_conv
  by (simp_all add: reserve_reserved reserve_submitted)

lemma claim_group_jobs:
  assumes "claim_subscriber_group E worker settings target weather now claim locked db = (db', jobs)" "jobs \<noteq> []"
  shows "db' = reserve worker (st_email target) (map o_id (group_rows db now target locked)) claim now db"
    "jobs = map (subscriber_job_of target claim) (group_rows db now target locked)"
    "user_used db (st_email target) now < user_limit settings (st_tier target)"
    "global_used db now < notification_daily_send_limit settings"
    "st_tier target = Standard \<Longrightarrow> wd_send_email weather"
  using assms by (auto simp: claim_subscriber_group_def Let_def not_le split: list.splits if_splits)

text \<open>C7: Quotas hold: a claim that yields work leaves the addressee's use of the day (messages submitted
  plus reservations that may still count) within the limit of the tier, and the use of all addressees
  within the global limit; the claim itself is counted by exactly one.\<close>

theorem claim_within_quota:
  assumes "claim_subscriber_group E worker settings target weather now claim locked db = (db', jobs)" "jobs \<noteq> []"
  shows "user_used db' (st_email target) now = user_used db (st_email target) now + 1
    \<and> user_used db' (st_email target) now \<le> user_limit settings (st_tier target)
    \<and> global_used db' now = global_used db now + 1
    \<and> global_used db' now \<le> notification_daily_send_limit settings"
  using claim_group_jobs [OF assms] by (simp add: reserve_used)

theorem claim_within_quota_witness: "user_used (fst demo_claim) demo_email demo_now \<le> 5"
proof -
  have "claim_subscriber_group demo_env (u ''w'') demo_quota demo_target demo_weather demo_now (u ''q'') (\<lambda>_. False) demo_db
      = (fst demo_claim, snd demo_claim)" by (simp add: demo_claim_def)
  from claim_within_quota [OF this] show ?thesis
    by (simp add: demo_claim_eval demo_target_def user_limit_def demo_quota_def)
qed

section \<open>Recovered rows\<close>

lemma recovered_rows:
  assumes "n \<in> set (requeue_leases now (interrupt_leases now t))"
  obtains r where "r \<in> set t" "o_id n = o_id r"
    "o_status r = Dispatching \<and> lease_over now r \<Longrightarrow> o_status n = SubmissionUnknown \<and> o_lease_owner n = None"
    "o_status r = Processing \<and> lease_over now r \<Longrightarrow> o_status n = Retry \<and> o_lease_owner n = None"
    "\<not> ((o_status r = Dispatching \<or> o_status r = Processing) \<and> lease_over now r) \<Longrightarrow> n = r"
proof -
  from assms obtain m where m: "m \<in> set (interrupt_leases now t)"
    and n: "n = (if o_status m = Processing \<and> lease_over now m then requeued now m else m)"
    by (auto simp: requeue_leases_def set_sql_update)
  from m obtain r where r: "r \<in> set t" "m = (if o_status r = Dispatching \<and> lease_over now r then interrupted now r else r)"
    by (auto simp: interrupt_leases_def set_sql_update)
  show ?thesis
    by (rule that [OF r(1)]) (auto simp: n r(2) interrupted_def requeued_def)
qed

section \<open>Exclusive claims\<close>

text \<open>
  What workers do about claims: recovering expired leases and claiming, each at a time, as the loop of \<open>run_cycle\<close> has them; the
  jobs of a sequence of such transactions, of whatever workers.
\<close>

datatype worker_call = Recover instant | ClaimGroup pystr quota_settings subscriber_target weather_decision instant pystr "pystr \<Rightarrow> bool"

primrec call_time :: "worker_call \<Rightarrow> instant" where
  "call_time (Recover t) = t"
| "call_time (ClaimGroup worker settings target weather t claim locked) = t"

primrec run_call :: "pyenv \<Rightarrow> worker_call \<Rightarrow> db \<Rightarrow> db \<times> subscriber_job list" where
  "run_call E (Recover t) db = (release_expired_leases t db, [])"
| "run_call E (ClaimGroup worker settings target weather t claim locked) db = claim_subscriber_group E worker settings target weather t claim locked db"

fun run_calls :: "pyenv \<Rightarrow> worker_call list \<Rightarrow> db \<Rightarrow> subscriber_job list" where
  "run_calls E [] db = []"
| "run_calls E (c # cs) db = snd (run_call E c db) @ run_calls E cs (fst (run_call E c db))"

text \<open>The rows of some identifiers are claimed under leases that last until \<open>u\<close>.\<close>

definition leased_until :: "instant \<Rightarrow> pystr set \<Rightarrow> db \<Rightarrow> bool" where
  "leased_until until ids db \<longleftrightarrow> (\<forall>n \<in> set (notification_outbox db). o_id n \<in> ids \<longrightarrow> o_status n = Processing
     \<and> (case o_lease_until n of None \<Rightarrow> False | Some t \<Rightarrow> until \<le> t))"

lemma held_not_claimable:
  assumes "leased_until until ids db" "now < until" "n \<in> set (notification_outbox db)" "o_id n \<in> ids"
  shows "\<not> claimable now n" "\<not> lease_over now n"
  using assms by (auto simp: leased_until_def claimable_def lease_over_def le_opt_def split: option.splits)

lemma group_rows_claimable:
  assumes "r \<in> set (group_rows db now target locked)"
  shows "r \<in> set (notification_outbox db)" "o_email r = st_email target" "claimable now r"
    "\<exists>slot. slot_of db (n_event_key r) = Some slot \<and> sl_booking_date slot = st_booking_date target \<and> \<not> date_paused db (o_email r) (sl_booking_date slot)"
proof -
  from assms have m: "r \<in> set (notification_outbox db)" "o_email r = st_email target" "claimable_day db now r = Some (st_booking_date target)"
    by (auto simp: group_rows_def dest!: in_set_takeD)
  then show "r \<in> set (notification_outbox db)" "o_email r = st_email target" by simp_all
  show "claimable now r" "\<exists>slot. slot_of db (n_event_key r) = Some slot \<and> sl_booking_date slot = st_booking_date target
      \<and> \<not> date_paused db (o_email r) (sl_booking_date slot)"
    using m(3) by (auto simp: claimable_day_def split: option.splits if_splits)
qed

lemma claim_group_held:
  assumes "leased_until until ids db" "now < until"
    and "claim_subscriber_group E worker settings target weather now claim locked db = (db', jobs)"
  shows "leased_until until ids db' \<and> j_id ` set jobs \<inter> ids = {}"
proof -
  let ?ids = "map o_id (group_rows db now target locked)"
  have away: "set ?ids \<inter> ids = {}"
    using group_rows_claimable(1,3) held_not_claimable(1) [OF assms(1,2)] by fastforce
  have keep: "leased_until until ids (db\<lparr>notification_outbox := sql_update (\<lambda>n. o_id n \<in> set ?ids) f (notification_outbox db), email_delivery_claims := cs\<rparr>)"
    if "\<And>n. o_id (f n) = o_id n" for f cs
    using assms(1) away that by (auto simp: leased_until_def set_sql_update)
  have "db\<lparr>notification_outbox := t, email_delivery_claims := email_delivery_claims db\<rparr> = db\<lparr>notification_outbox := t\<rparr>" for t by simp
  then have "leased_until until ids (suppress ?ids reason now db)" for reason
    using keep [of "\<lambda>n. n\<lparr>o_status := Suppressed, o_last_error := Some reason, o_lease_owner := None, o_lease_until := None, o_updated_at := now\<rparr>"
        "email_delivery_claims db"] by (simp add: suppress_def)
  moreover have "leased_until until ids (reserve worker (st_email target) ?ids claim now db)"
    unfolding reserve_def by (rule keep) (simp add: leased_def)
  ultimately have "leased_until until ids db'"
    using assms(1,3) by (auto simp: claim_subscriber_group_def Let_def split: list.splits if_splits)
  moreover have "j_id ` set jobs \<subseteq> set ?ids"
    using claim_group_jobs(2) [OF assms(3)] by (cases "jobs = []") (auto simp: subscriber_job_of_def)
  ultimately show ?thesis using away by blast
qed

lemma recovery_held:
  assumes "leased_until until ids db" "now < until"
  shows "leased_until until ids (release_expired_leases now db)"
  unfolding leased_until_def
proof (intro ballI impI)
  fix n assume n: "n \<in> set (notification_outbox (release_expired_leases now db))" "o_id n \<in> ids"
  then have "n \<in> set (requeue_leases now (interrupt_leases now (notification_outbox db)))"
    by (simp add: release_expired_leases_def Let_def)
  then obtain r where r: "r \<in> set (notification_outbox db)" "o_id n = o_id r"
    "\<not> ((o_status r = Dispatching \<or> o_status r = Processing) \<and> lease_over now r) \<Longrightarrow> n = r"
    by (rule recovered_rows) blast
  then have "n = r" using held_not_claimable(2) [OF assms r(1)] n(2) by simp
  then show "o_status n = Processing \<and> (case o_lease_until n of None \<Rightarrow> False | Some t \<Rightarrow> until \<le> t)"
    using assms(1) r(1) n(2) by (simp add: leased_until_def)
qed

lemma run_calls_held:
  assumes "leased_until until ids db" "list_all (\<lambda>c. call_time c < until) calls"
  shows "j_id ` set (run_calls E calls db) \<inter> ids = {}"
  using assms
proof (induction calls arbitrary: db)
  case (Cons c cs)
  have "leased_until until ids (fst (run_call E c db)) \<and> j_id ` set (snd (run_call E c db)) \<inter> ids = {}"
  proof (cases c)
    case (Recover t)
    then show ?thesis using Cons.prems recovery_held by simp
  next
    case (ClaimGroup worker settings target weather t claim locked)
    then show ?thesis using Cons.prems
        claim_group_held [of until ids db t E worker settings target weather claim locked "fst (run_call E c db)" "snd (run_call E c db)"] by simp
  qed
  then show ?case using Cons.IH Cons.prems(2) by (auto simp: image_Un)
qed simp

text \<open>C17: Claimed rows are exclusive. A claim takes at most twenty rows, each due, of one addressee and for slots of one booking day that the addressee
  has not paused, and leases them to the worker; whatever lease recoveries and claims of any workers follow before the lease of 300 seconds
  has run out, in any order and number, none of them hands out one of these rows again.\<close>

theorem claimed_rows_are_exclusive:
  assumes "claim_subscriber_group E worker settings target weather now claim locked db = (db', jobs)"
  shows "length jobs \<le> 20
    \<and> (\<forall>j \<in> set jobs. \<exists>n slot. n \<in> set (notification_outbox db) \<and> o_id n = j_id j \<and> o_email n = st_email target \<and> claimable now n
        \<and> slot_of db (n_event_key n) = Some slot \<and> sl_booking_date slot = st_booking_date target \<and> \<not> date_paused db (o_email n) (sl_booking_date slot))
    \<and> (\<forall>n \<in> set (notification_outbox db'). o_id n \<in> j_id ` set jobs \<longrightarrow> o_lease_owner n = Some worker \<and> n_delivery_claim_id n = Some claim
        \<and> o_lease_until n = Some (now + seconds 300))
    \<and> (\<forall>calls. list_all (\<lambda>c. call_time c < now + seconds 300) calls \<longrightarrow> j_id ` set (run_calls E calls db') \<inter> j_id ` set jobs = {})"
proof (cases "jobs = []")
  case False
  note c = claim_group_jobs [OF assms False]
  let ?rows = "group_rows db now target locked"
  have ids: "j_id ` set jobs = o_id ` set ?rows" by (simp add: c(2) image_image subscriber_job_of_def)
  have "length jobs \<le> 20" by (simp add: c(2) group_rows_def SUBSCRIBER_ROWS_PER_DIGEST_def)
  moreover have "\<exists>n slot. n \<in> set (notification_outbox db) \<and> o_id n = j_id j \<and> o_email n = st_email target \<and> claimable now n
        \<and> slot_of db (n_event_key n) = Some slot \<and> sl_booking_date slot = st_booking_date target \<and> \<not> date_paused db (o_email n) (sl_booking_date slot)"
    if j: "j \<in> set jobs" for j
  proof -
    obtain r where r: "r \<in> set ?rows" "j = subscriber_job_of target claim r" using j c(2) by auto
    then have "o_id r = j_id j" by (simp add: subscriber_job_of_def)
    then show ?thesis using group_rows_claimable [OF r(1)] by blast
  qed
  moreover have lease: "o_status n = Processing \<and> o_lease_owner n = Some worker \<and> n_delivery_claim_id n = Some claim \<and> o_lease_until n = Some (now + seconds 300)"
    if "n \<in> set (notification_outbox db')" "o_id n \<in> j_id ` set jobs" for n
    using that by (auto simp: ids c(1) reserve_def set_sql_update leased_def LEASE_SECONDS_def split: if_splits)
  moreover have "j_id ` set (run_calls E calls db') \<inter> j_id ` set jobs = {}" if "list_all (\<lambda>c. call_time c < now + seconds 300) calls" for calls
    using lease that by (intro run_calls_held) (auto simp: leased_until_def)
  ultimately show ?thesis by blast
qed simp

theorem claimed_rows_are_exclusive_witness:
  "j_id ` set (snd demo_claim) = {u ''n''}
   \<and> j_id ` set (run_calls demo_env [Recover (demo_now + seconds 299), ClaimGroup (u ''v'') demo_quota demo_target demo_weather (demo_now + seconds 299) (u ''r'') (\<lambda>_. False)]
       (fst demo_claim)) \<inter> {u ''n''} = {}"
proof -
  have "claim_subscriber_group demo_env (u ''w'') demo_quota demo_target demo_weather demo_now (u ''q'') (\<lambda>_. False) demo_db
      = (fst demo_claim, snd demo_claim)" by (simp add: demo_claim_def)
  note c = claimed_rows_are_exclusive [OF this]
  have j: "j_id ` set (snd demo_claim) = {u ''n''}"
    by (simp add: demo_claim_eval demo_job_def subscriber_job_of_def demo_note_def new_notification_def)
  let ?calls = "[Recover (demo_now + seconds 299), ClaimGroup (u ''v'') demo_quota demo_target demo_weather (demo_now + seconds 299) (u ''r'') (\<lambda>_. False)]"
  have "list_all (\<lambda>c. call_time c < demo_now + seconds 300) ?calls" by (simp add: seconds_def)
  then have "j_id ` set (run_calls demo_env ?calls (fst demo_claim)) \<inter> j_id ` set (snd demo_claim) = {}" using c by blast
  then show ?thesis unfolding j by blast
qed

section \<open>Recovering leases\<close>

text \<open>C16: Lease recovery never replays a send that may have gone out: a row whose worker stopped between the
  two transactions of a send becomes of unknown submission and is not queued again, a row that was only
  claimed is queued for retry, and no expired lease is left.\<close>

theorem lease_recovery:
  assumes "n \<in> set (notification_outbox (release_expired_leases now db))"
  shows "\<exists>r \<in> set (notification_outbox db). o_id n = o_id r
    \<and> (o_status r = Dispatching \<and> lease_over now r \<longrightarrow> o_status n = SubmissionUnknown \<and> \<not> claimable later n)
    \<and> (o_status r = Processing \<and> lease_over now r \<longrightarrow> o_status n = Retry)
    \<and> \<not> ((o_status n = Dispatching \<or> o_status n = Processing) \<and> lease_over now n)"
proof -
  have "n \<in> set (requeue_leases now (interrupt_leases now (notification_outbox db)))"
    using assms by (simp add: release_expired_leases_def Let_def)
  then show ?thesis by (rule recovered_rows) (force simp: claimable_def)
qed

theorem lease_recovery_witness:
  "list_all (\<lambda>n. o_status n = SubmissionUnknown) (notification_outbox (release_expired_leases (days 1) demo_sent_db))"
proof -
  have "o_status n = SubmissionUnknown" if n: "n \<in> set (notification_outbox (release_expired_leases (days 1) demo_sent_db))" for n
    using lease_recovery [OF n, of 0]
    by (auto simp: demo_sent_db_def demo_held_note_def leased_def lease_over_def le_opt_def demo_now_def
        LEASE_SECONDS_def duration_defs)
  then show ?thesis by (simp add: list_all_iff)
qed

text \<open>A reservation whose send was interrupted keeps counting against the quotas: recovery marks it
  unknown and never releases it.\<close>

theorem interrupted_claim_keeps_counting:
  assumes "n \<in> set (notification_outbox db)" "o_status n = Dispatching" "lease_over now n"
    and "n_delivery_claim_id n = Some (c_id c)" "c \<in> set (email_delivery_claims db)" "c_status c = Reserved"
  shows "\<exists>c' \<in> set (email_delivery_claims (release_expired_leases now db)).
    c_id c' = c_id c \<and> c_status c' = ClaimUnknown \<and> c_email c' = c_email c \<and> c_delivery_day c' = c_delivery_day c"
proof -
  let ?notes = "interrupt_leases now (notification_outbox db)"
  have "interrupted now n \<in> set ?notes"
    using assms(1-3) by (auto simp: interrupt_leases_def set_sql_update intro: rev_image_eqI)
  moreover have "n_delivery_claim_id (interrupted now n) = Some (c_id c)" "o_status (interrupted now n) = SubmissionUnknown"
    using assms(4) by (simp_all add: interrupted_def)
  ultimately have "list_ex (\<lambda>n. n_delivery_claim_id n = Some (c_id c) \<and> o_status n = SubmissionUnknown) ?notes"
    by (auto simp: list_ex_iff)
  with assms(5,6) show ?thesis
    by (intro bexI [of _ "c\<lparr>c_status := ClaimUnknown, c_updated_at := now\<rparr>"])
      (auto simp: release_expired_leases_def Let_def set_sql_update image_iff intro!: bexI [of _ c])
qed

section \<open>Recording a send before it happens\<close>

text \<open>A send is recorded before the provider is called: in the transaction that hands jobs to the sender
  each of their rows is marked dispatching and the attempt that lists exactly these rows is inserted.\<close>

theorem dispatch_recorded_first:
  assumes b: "begin_subscriber held worker now sqlnow aid db = Inr (db', jobs)" and ne: "jobs \<noteq> []"
    and d: "distinct (map o_id (notification_outbox db))"
  shows "delivery_attempts db' = delivery_attempts db @ [new_attempt aid SubscriberEmail (map j_id jobs) sqlnow]
    \<and> (\<forall>n \<in> set (notification_outbox db'). o_id n \<in> set (map j_id jobs) \<longrightarrow> o_status n = Dispatching)"
proof -
  obtain j0 js where held: "held = j0 # js" using b ne by (cases held) (auto simp: begin_subscriber_def)
  let ?claim = "j_claim_id j0" let ?v = "valid_job db worker ?claim now"
  let ?invalid = "map j_id (filter (\<lambda>j. \<not> ?v j) held)"
  let ?t1 = "sql_update (\<lambda>n. o_id n \<in> set ?invalid \<and> o_lease_owner n = Some worker \<and> o_status n = Processing
       \<and> n_delivery_claim_id n = Some ?claim) (not_eligible now) (notification_outbox db)"
  have dv: "dispatch_valid held ?claim worker now sqlnow aid db = (db', jobs)"
    using b ne by (auto simp: begin_subscriber_def held split: if_splits)
  then have jobs: "jobs = filter ?v held" and att: "delivery_attempts db' = delivery_attempts db @ [new_attempt aid SubscriberEmail (map j_id jobs) sqlnow]"
    and ob: "notification_outbox db' = dispatch_rows (map j_id jobs) worker now ?t1"
    using ne by (auto simp: dispatch_valid_def Let_def split: if_splits)
  have "o_status n = Dispatching" if n: "n \<in> set (notification_outbox db')" and i: "o_id n \<in> set (map j_id jobs)" for n
  proof -
    obtain m where m: "m \<in> set ?t1" "n = (if o_id m \<in> set (map j_id jobs) \<and> o_lease_owner m = Some worker
        then m\<lparr>o_status := Dispatching, o_updated_at := now\<rparr> else m)"
      using in_sql_update [OF n [unfolded ob dispatch_rows_def]] by blast
    have "o_id n = o_id m" unfolding m(2) by simp
    with i have im: "o_id m \<in> set (map j_id jobs)" by simp
    then obtain j where j: "?v j" "o_id m = j_id j" by (auto simp: jobs)
    have "o_id m \<notin> set ?invalid"
    proof
      assume "o_id m \<in> set ?invalid"
      then obtain j' where "j_id j' = j_id j" "\<not> ?v j'" using j(2) by auto
      with j(1) valid_job_id show False by blast
    qed
    moreover obtain r where r: "r \<in> set (notification_outbox db)" "m = (if o_id r \<in> set ?invalid \<and> o_lease_owner r = Some worker
        \<and> o_status r = Processing \<and> n_delivery_claim_id r = Some ?claim then not_eligible now r else r)"
      using in_sql_update [OF m(1)] by blast
    moreover have "o_id m = o_id r" unfolding r(2) by (simp add: not_eligible_def)
    ultimately have mdb: "m \<in> set (notification_outbox db)" by metis
    from valid_job_row [OF j(1) d mdb j(2)] m(2) im show ?thesis by (simp add: subscriber_valid_def)
  qed
  with att show ?thesis by blast
qed

end
