(* ===== verification/PauseLaws.thy ===== *)
theory PauseLaws
  imports Scenario
begin

text \<open>
  What a user who pauses or resumes booking days may rely on: the effect on the preference and on the
  queue, in any state the running system reaches.
\<close>

section \<open>Pauses\<close>

lemma pause_key_row [simp]:
  "pause_key \<lparr>p_email = e, p_booking_date = d, p_paused = b, p_created_at = c, p_updated_at = t\<rparr> = (e, d)"
  by (simp add: pause_key_def)

lemma upsert_pause_row:
  "p \<in> set (upsert pause_key pause_merge r t) \<Longrightarrow> pause_key p = pause_key r \<Longrightarrow> p_paused r \<Longrightarrow> p_paused p"
  by (auto simp: upsert_def set_sql_update pause_merge_def has_key_iff image_iff split: if_splits) 

lemma upsert_pause_other:
  "p \<in> set (upsert pause_key pause_merge r t) \<Longrightarrow> pause_key p \<noteq> pause_key r \<Longrightarrow> p \<in> set t"
  by (auto simp: upsert_def set_sql_update pause_merge_def pause_key_def split: if_splits)

lemma upsert_pause_has_key: 
  "has_key pause_key k (upsert pause_key pause_merge r t) \<longleftrightarrow> k = pause_key r \<or> has_key pause_key k t"
  by (rule has_key_upsert) (simp add: pause_merge_def pause_key_def)

lemma pause_dates_paused:
  "p \<in> set (pause_dates email dates now t) \<Longrightarrow> p_email p = email \<Longrightarrow> p_booking_date p \<in> set dates \<Longrightarrow> p_paused p"
proof (induction dates arbitrary: t rule: rev_induct)
  case (snoc d ds)
  let ?r = "\<lparr>p_email = email, p_booking_date = d, p_paused = True, p_created_at = now, p_updated_at = now\<rparr>"
  have p: "p \<in> set (upsert pause_key pause_merge ?r (pause_dates email ds now t))"
    using snoc.prems(1) by (simp add: pause_dates_def)
  show ?case
  proof (cases "pause_key p = pause_key ?r")
    case True
    with p show ?thesis by (auto dest: upsert_pause_row)
  next
    case False
    with upsert_pause_other [OF p] snoc show ?thesis by (auto simp: pause_key_def)
  qed
qed simp

lemma pause_dates_has_key:
  "has_key pause_key k (pause_dates email dates now t) \<longleftrightarrow> k \<in> (\<lambda>d. (email, d)) ` set dates \<or> has_key pause_key k t"
proof (induction dates rule: rev_induct)
  case (snoc d ds)
  then show ?case by (auto simp: pause_dates_def upsert_pause_has_key)
qed (simp add: pause_dates_def)

lemma do_pause_pauses: "notification_date_pauses (do_pause email dates now db) = pause_dates email dates now (notification_date_pauses db)"
  by (simp add: do_pause_def Let_def release_unused_claims_def split: list.split)

lemma do_pause_date_paused: "d \<in> set dates \<Longrightarrow> date_paused (do_pause email dates now db) email d"
proof -
  assume d: "d \<in> set dates"
  then have "has_key pause_key (email, d) (pause_dates email dates now (notification_date_pauses db))"
    by (simp add: pause_dates_has_key)
  then obtain p where "p \<in> set (pause_dates email dates now (notification_date_pauses db))" "pause_key p = (email, d)"
    by (auto simp: has_key_iff)
  with d pause_dates_paused [of p email dates now] show ?thesis
    by (auto simp: date_paused_def do_pause_pauses list_ex_iff pause_key_def)
qed

lemma pause_dates_id:
  assumes "\<And>d. d \<in> set dates \<Longrightarrow> has_key pause_key (email, d) t"
    and "\<And>p. p \<in> set t \<Longrightarrow> p_email p = email \<Longrightarrow> p_booking_date p \<in> set dates \<Longrightarrow> p_paused p"
  shows "pause_dates email dates now t = t"
  using assms
proof (induction dates)
  case (Cons d ds)
  let ?r = "\<lparr>p_email = email, p_booking_date = d, p_paused = True, p_created_at = now, p_updated_at = now\<rparr>"
  have "upsert pause_key pause_merge ?r t = sql_update (\<lambda>old. pause_key old = (email, d)) (\<lambda>old. pause_merge old ?r) t"
    using Cons.prems(1) by (simp add: upsert_def)
  also have "\<dots> = t"
    unfolding sql_update_def using Cons.prems(2) by (intro map_idI) (auto simp: pause_merge_def pause_key_def)
  finally show ?case using Cons by (simp add: pause_dates_def)
qed (simp add: pause_dates_def)

lemma do_pause_outbox: "notification_outbox (do_pause email dates now db) =
    sql_update (pause_cancels db email dates) (withdraw PAUSE_REASON now) (notification_outbox db)"
proof -
  have "pause_cancels (db\<lparr>notification_date_pauses := x\<rparr>) = pause_cancels db" for x
    by (intro ext) (simp add: pause_cancels_def slot_of_def has_live_attempt_def)
  then show ?thesis by (simp add: do_pause_def Let_def release_unused_claims_def split: list.split)
qed

lemma do_pause_frame: "observed_slots (do_pause email dates now db) = observed_slots db"
  "delivery_attempts (do_pause email dates now db) = delivery_attempts db"
  by (simp_all add: do_pause_def Let_def release_unused_claims_def split: list.split)

lemma do_pause_no_open:
  assumes safe: "\<And>n. n \<in> set (notification_outbox db) \<Longrightarrow> is_open (o_status n) \<Longrightarrow>
      o_submitted_at n = None \<and> o_message_id n = None \<and> \<not> has_live_attempt db (o_id n)"
    and n: "n \<in> set (notification_outbox (do_pause email dates now db))" "o_email n = email"
      "slot_of db (n_event_key n) = Some slot" "sl_booking_date slot \<in> set dates"
  shows "\<not> is_open (o_status n)"
proof
  assume still: "is_open (o_status n)"
  obtain r where r: "r \<in> set (notification_outbox db)"
    "n = (if pause_cancels db email dates r then withdraw PAUSE_REASON now r else r)"
    using n(1) by (auto simp: do_pause_outbox set_sql_update)
  then have "n = r" using still by (auto simp: withdraw_def is_open_def)
  with safe [OF r(1)] still n(2-4) r(2) have "pause_cancels db email dates r" by (simp add: pause_cancels_def)
  with r(2) still show False by (simp add: withdraw_def)
qed

lemma reachable_open_safe:
  assumes "reachable world_init world_step w" "n \<in> set (notification_outbox (world_db w))" "is_open (o_status n)"
  shows "o_submitted_at n = None \<and> o_message_id n = None \<and> \<not> has_live_attempt (world_db w) (o_id n)"
  using delivery.reachable_inv [OF assms(1)] assms(2,3)
  by (auto simp: world_inv_def Let_def outbox_inv_def clean_def has_live_attempt_iff unsent_def)

lemma pause_request_effect:
  assumes "update_notification_pauses email payload now gnow db = (db', Inr (view, changed))"
    and "validate_pause_request payload now = Inr (Pause, dates)"
  shows "notification_outbox db' = notification_outbox (do_pause email dates now db)"
    "notification_date_pauses db' = notification_date_pauses (do_pause email dates now db)"
    "observed_slots db' = observed_slots db"
  using assms by (auto simp: update_notification_pauses_def update_pauses_def atomically_def Let_def
      increment_subscription_generations_def do_pause_frame split: if_splits)

text \<open>C4: A successful pause takes effect at once: every requested day is paused for the user, and no
  notification of that user for a slot on one of these days is left claimable, whatever workers
  were doing before.\<close>

theorem pause_withdraws_reminders:
  assumes "reachable world_init world_step w"
    and "update_notification_pauses email payload now gnow (world_db w) = (db', Inr (view, changed))"
    and "validate_pause_request payload now = Inr (Pause, dates)"
    and "n \<in> set (notification_outbox db')" "o_email n = email"
    and "slot_of db' (n_event_key n) = Some slot" "sl_booking_date slot \<in> set dates"
  shows "date_paused db' email (sl_booking_date slot) \<and> \<not> is_open (o_status n)"
proof -
  note e = pause_request_effect [OF assms(2,3)]
  have "date_paused db' email (sl_booking_date slot)"
    using do_pause_date_paused [OF assms(7), of email now "world_db w"] e(2) by (simp add: date_paused_def)
  moreover have "slot_of (world_db w) (n_event_key n) = Some slot" using assms(6) e(3) by (simp add: slot_of_def)
  ultimately show ?thesis
    using do_pause_no_open [OF reachable_open_safe [OF assms(1)], of n email dates now slot] assms(4,5,7) e(1) by simp
qed

text \<open>Pausing twice is pausing once: a repeated pause request answers that no day changed and leaves the
  whole database as it was.\<close>

theorem pause_idempotent:
  assumes "reachable world_init world_step w"
    and "update_notification_pauses email payload now gnow (world_db w) = (db', Inr (view, changed))"
    and "validate_pause_request payload now = Inr (Pause, dates)"
    and "validate_pause_request payload later = Inr (Pause, dates)"
  shows "\<exists>view'. update_notification_pauses email payload later gnow' db' = (db', Inr (view', []))"
proof -
  note e = pause_request_effect [OF assms(2,3)]
  have rows: "\<And>d. d \<in> set dates \<Longrightarrow> has_key pause_key (email, d) (notification_date_pauses db')"
    "\<And>p. p \<in> set (notification_date_pauses db') \<Longrightarrow> p_email p = email \<Longrightarrow> p_booking_date p \<in> set dates \<Longrightarrow> p_paused p"
    by (simp add: e(2) do_pause_pauses pause_dates_has_key, simp add: e(2) do_pause_pauses pause_dates_paused)
  have none: "\<not> pause_cancels (db'\<lparr>notification_date_pauses := x\<rparr>) email dates n" if "n \<in> set (notification_outbox db')" for n x
  proof -
    have "\<not> is_open (o_status n)" if "o_email n = email" "slot_of db' (n_event_key n) = Some slot" "sl_booking_date slot \<in> set dates" for slot
      using do_pause_no_open [OF reachable_open_safe [OF assms(1)], of n email dates now slot] \<open>n \<in> set _\<close> that e(1,3)
      by (simp add: slot_of_def)
    then show ?thesis by (auto simp: pause_cancels_def slot_of_def split: option.splits)
  qed
  have pd: "pause_dates email dates later (notification_date_pauses db') = notification_date_pauses db'"
    by (rule pause_dates_id) (use rows in auto)
  have "filter (pause_cancels db' email dates) (notification_outbox db') = []"
    using none [of _ "notification_date_pauses db'"] by (simp add: filter_empty_conv)
  then have "withdrawn_claims (pause_cancels db' email dates) db' = []" by (simp add: withdrawn_claims_def List.map_filter_def)
  then have same: "do_pause email dates later db' = db'"
    using none [of _ "notification_date_pauses db'"]
    by (simp add: do_pause_def pd Let_def sql_update_eq_id)
  have "changed_dates db' email Pause dates = []"
    using do_pause_date_paused [of _ dates email now "world_db w"] e(2)
    by (auto simp: changed_dates_def filter_empty_conv date_paused_def)
  with same show ?thesis
    by (simp add: update_notification_pauses_def update_pauses_def assms(4) atomically_def Let_def)
qed

lemma resume_request_effect:
  assumes "update_notification_pauses email payload now gnow db = (db', Inr (view, changed))"
    and "validate_pause_request payload now = Inr (Resume, dates)"
  shows "notification_date_pauses db' = notification_date_pauses (do_resume email dates now db)"
    "notification_outbox db' = notification_outbox db" "email_delivery_claims db' = email_delivery_claims db"
  using assms by (auto simp: update_notification_pauses_def update_pauses_def atomically_def Let_def do_resume_def
      increment_subscription_generations_def split: if_splits)

lemma do_resume_date_paused:
  "date_paused (do_resume email dates now db) e d \<longleftrightarrow> date_paused db e d \<and> \<not> (e = email \<and> d \<in> set dates)"
proof -
  have "list_ex (\<lambda>p. p_email p = e \<and> p_booking_date p = d \<and> p_paused p)
      (sql_update (\<lambda>p. p_email p = email \<and> p_booking_date p \<in> set dates \<and> p_paused p)
        (\<lambda>p. p\<lparr>p_paused := False, p_updated_at := now\<rparr>) t) \<longleftrightarrow>
    list_ex (\<lambda>p. p_email p = e \<and> p_booking_date p = d \<and> p_paused p) t \<and> \<not> (e = email \<and> d \<in> set dates)" for t
    by (induction t) (auto simp: sql_update_def)
  then show ?thesis by (simp add: date_paused_def do_resume_def)
qed

text \<open>Resuming days lifts exactly these pauses of this user and touches neither notifications nor
  reservations: what was withdrawn stays withdrawn until a fresh observation brings it back.\<close>

theorem resume_lifts_pause:
  assumes "update_notification_pauses email payload now gnow db = (db', Inr (view, changed))"
    and "validate_pause_request payload now = Inr (Resume, dates)"
  shows "(date_paused db' e d \<longleftrightarrow> date_paused db e d \<and> \<not> (e = email \<and> d \<in> set dates))
    \<and> notification_outbox db' = notification_outbox db \<and> email_delivery_claims db' = email_delivery_claims db"
  using resume_request_effect [OF assms] do_resume_date_paused [of email dates now db e d]
  by (simp add: date_paused_def)

definition pause_payload :: "string \<Rightarrow> pyval" where
  "pause_payload action = PDict [(u ''action'', PStr (u action)), (u ''dates'', PList [PStr (u ''1970-01-19'')])]"

lemma pause_payload_date: "date_fromisoformat (u ''1970-01-19'') = Some 18"
  by (simp add: date_fromisoformat_def ascii_field_def is_ascii_digit_def u_def make_date_def days_in_month_def day_of_civil_def Let_def)

lemma pause_payload_ok:
  "validate_pause_request (pause_payload ''pause'') demo_now = Inr (Pause, [18])"
  "validate_pause_request (pause_payload ''resume'') demo_now = Inr (Resume, [18])"
proof -
  have t: "shanghai_date demo_now = 0" by (simp add: shanghai_date_def demo_now_def shanghai_offset_def duration_defs)
  have "iso_shape (u ''1970-01-19'')" by (simp add: iso_shape_def u_def is_digit_def digit_value_ascii)
  then have d: "pause_date 0 (PStr (u ''1970-01-19'')) = Inr 18" by (simp add: pause_date_def pause_payload_date MAX_PAUSE_DAYS_def)
  show "validate_pause_request (pause_payload ''pause'') demo_now = Inr (Pause, [18])"
    "validate_pause_request (pause_payload ''resume'') demo_now = Inr (Resume, [18])"
    unfolding validate_pause_request_def pause_payload_def t
    using d by (auto simp: dget_def pause_action_of_def MAX_DATES_PER_REQUEST_def u_def)
qed

lemma demo_pause_reply:
  "\<exists>db' view changed. update_notification_pauses demo_email (pause_payload ''pause'') demo_now 0 demo_db = (db', Inr (view, changed))"
  by (simp add: update_notification_pauses_def update_pauses_def pause_payload_ok atomically_def Let_def)

lemma demo_resume_reply:
  "\<exists>db' view changed. update_notification_pauses demo_email (pause_payload ''resume'') demo_now 0 demo_db = (db', Inr (view, changed))"
  by (simp add: update_notification_pauses_def update_pauses_def pause_payload_ok atomically_def Let_def)

theorem pause_withdraws_reminders_witness:
  "\<exists>db' n. n \<in> set (notification_outbox db') \<and> \<not> is_open (o_status n) \<and> date_paused db' demo_email 18"
proof -
  obtain db' view changed where r: "update_notification_pauses demo_email (pause_payload ''pause'') demo_now 0 (world_db demo_world) = (db', Inr (view, changed))"
    using demo_pause_reply by (auto simp: demo_world_def)
  note e = pause_request_effect [OF r pause_payload_ok(1)]
  obtain n where n: "n \<in> set (notification_outbox db')" "o_email n = demo_email" "n_event_key n = u ''e''"
    unfolding e(1) do_pause_outbox by (auto simp: demo_world_def demo_db_def sql_update_def demo_note_def new_notification_def withdraw_def)
  have "slot_of db' (n_event_key n) = Some demo_slot"
    by (simp add: slot_of_def e(3) n(3) demo_world_def demo_db_def demo_slot_def find_row_def)
  from pause_withdraws_reminders [OF demo_reachable(1) r pause_payload_ok(1) n(1,2) this] n(1)
  show ?thesis by (auto simp: demo_slot_def)
qed

end
