(* ===== verification/DomainLaws.thy ===== *)
theory DomainLaws
  imports Invites
begin

text \<open>
  What the validation and matching rules of \<open>host_core/domain.py\<close> guarantee to the components that
  rely on them.
\<close>

definition plain_env :: pyenv where
  [py_eval]: "plain_env = \<lparr>sha256_hex = (\<lambda>s. s), hmac_hex = (\<lambda>k s. k @ s), py_repr = (\<lambda>v. []),
     py_lower = (\<lambda>s. s), py_upper = (\<lambda>s. s)\<rparr>"

section \<open>Weekdays\<close>

text \<open>Weekdays survive storage: the weekdays a request is normalised to have a mask, and reading the
  stored mask back gives exactly these weekdays.\<close>

theorem weekdays_stored_and_read:
  assumes "normalize_weekdays v = Inr ws"
  shows "\<exists>m. weekday_mask ws = Inr m \<and> 1 \<le> m \<and> m \<le> ALL_WEEKDAY_MASK \<and> weekdays_from_mask (PInt m) = ws"
proof -
  obtain m where m: "weekday_mask ws = Inr m" "weekdays_from_mask (PInt m) = ws"
    using normalized_weekdays_have_mask [OF assms] by blast
  with mask_loop_range show ?thesis by (auto simp: weekday_mask_def ALL_WEEKDAY_MASK_def)
qed

section \<open>Event keys\<close>

text \<open>C26: Event keys identify slots. The text that is hashed into the key determines venue, day, court and times of a validated slot of an
  active venue, although the court may contain the separator; so two different slots have the same key only where SHA-256 maps
  these two different texts to the same digest. Nothing is assumed of the hash.\<close>

theorem event_key_identifies_slot:
  assumes "validate_slot E x = Inr s" "validate_slot E y = Inr s'" "is_venue v" "is_venue v'"
  shows "(slot_identity v s = slot_identity v' s' \<longleftrightarrow> v = v' \<and> s = s')
    \<and> (slot_event_key E v s = slot_event_key E v' s' \<longleftrightarrow>
        v = v' \<and> s = s' \<or> slot_identity v s \<noteq> slot_identity v' s' \<and> sha256_hex E (slot_identity v s) = sha256_hex E (slot_identity v' s'))"
proof -
  have "slot_identity v s = slot_identity v' s' \<longleftrightarrow> v = v' \<and> s = s'"
    using slot_identity_inj [OF assms(3,4) validate_slot_ok [OF assms(1)] validate_slot_ok [OF assms(2)]] by blast
  then show ?thesis by (auto simp: slot_event_key_def)
qed

definition sample_slot_json :: "string \<Rightarrow> pyval" where
  "sample_slot_json court = PDict [(u ''date'', PStr (u ''1970-01-19'')), (u ''court_name'', PStr (u court)),
     (u ''start_time'', PStr (u ''09:00'')), (u ''end_time'', PStr (u ''10:00''))]"

lemma sample_times: "parse_time_str (u ''09:00'') = Inr 540" "parse_time_str (u ''10:00'') = Inr 600"
proof -
  have "time_match [48, 57, 58, 48, 48]" "time_match [49, 48, 58, 48, 48]"
    by (simp_all add: time_match_def is_digit_def digit_value_ascii)
  from parse_time_ascii [OF this(1)] parse_time_ascii [OF this(2)]
  show "parse_time_str (u ''09:00'') = Inr 540" "parse_time_str (u ''10:00'') = Inr 600" by (simp_all add: u_def)
qed

lemma sample_date: "date_fromisoformat (u ''1970-01-19'') = Some 18"
  by (simp add: date_fromisoformat_def ascii_field_def is_ascii_digit_def u_def make_date_def days_in_month_def
      day_of_civil_def Let_def)

lemma sample_slot_valid:
  assumes "strip (u court) = u court" "court \<noteq> []" "length court \<le> 100"
  shows "validate_slot E (sample_slot_json court) =
    Inr \<lparr>booking_date = 18, court_name = u court, start_time = u ''09:00'', end_time = u ''10:00''\<rparr>"
proof -
  have k: "u ''date'' \<noteq> u ''court_name''" "u ''date'' \<noteq> u ''start_time''" "u ''date'' \<noteq> u ''end_time''"
    "u ''court_name'' \<noteq> u ''start_time''" "u ''court_name'' \<noteq> u ''end_time''" "u ''start_time'' \<noteq> u ''end_time''"
    by (simp_all add: u_def)
  have n: "u court \<noteq> []" "u ''09:00'' \<noteq> []" "u ''10:00'' \<noteq> []" "u ''1970-01-19'' \<noteq> []" "length (u court) \<le> 100"
    using assms(2,3) by (simp_all add: u_def)
  note k' = k k [symmetric]
  show ?thesis
    unfolding validate_slot_def sample_slot_json_def
    using n assms(1) by (simp add: k' dget_def py_or_def text_field_def str_or_empty_def parse_time_def
      sample_date sample_times ebind_def)
qed

theorem event_key_identifies_slot_witness:
  "slot_event_key plain_env (u ''dsh'') \<lparr>booking_date = 18, court_name = u ''1'', start_time = u ''09:00'', end_time = u ''10:00''\<rparr>
   \<noteq> slot_event_key plain_env (u ''dsh'') \<lparr>booking_date = 18, court_name = u ''2'', start_time = u ''09:00'', end_time = u ''10:00''\<rparr>"
proof -
  have v: "is_venue (u ''dsh'')" unfolding is_venue_def VENUES_eval by (simp add: u_def)
  have s: "strip (u ''1'') = u ''1''" "strip (u ''2'') = u ''2''" by (simp_all add: py_eval)
  from event_key_identifies_slot [OF sample_slot_valid [of "''1''" plain_env] sample_slot_valid [of "''2''"] v v] s
  show ?thesis by (simp add: u_def plain_env_def)
qed

section \<open>Observations\<close>

text \<open>C27: A validated observation is well formed: an active venue, bounded texts, a scope, and slots that have
  a proper time span, listed in strictly increasing order of their event keys, so that no slot is
  listed twice.\<close>

theorem validated_observation_well_formed:
  assumes "validate_observation E payload now = Inr ob"
  shows "is_venue (vo_venue_id ob) \<and> length (vo_venue_name ob) \<le> 100 \<and> vo_scope ob \<noteq> [] \<and> length (vo_scope ob) \<le> 120
    \<and> (\<forall>s \<in> set (vo_slots ob). \<exists>a b. parse_time_str (start_time s) = Inr a \<and> parse_time_str (end_time s) = Inr b
         \<and> 0 \<le> a \<and> a < b \<and> b < 1440 \<and> 0 < length (court_name s) \<and> length (court_name s) \<le> 100)
    \<and> sorted_wrt (<) (map (slot_event_key E (vo_venue_id ob)) (vo_slots ob))"
proof -
  note ok = validate_observation_ok [OF assms]
  have "\<exists>a b. parse_time_str (start_time s) = Inr a \<and> parse_time_str (end_time s) = Inr b
      \<and> 0 \<le> a \<and> a < b \<and> b < 1440 \<and> 0 < length (court_name s) \<and> length (court_name s) \<le> 100"
    if "s \<in> set (vo_slots ob)" for s
  proof -
    have "slot_ok s" using ok that by (auto simp: observation_ok_def list_all_iff)
    moreover from this obtain a b where "parse_time_str (start_time s) = Inr a" "parse_time_str (end_time s) = Inr b"
      "0 \<le> a" "a < b" "b < 1440" by (rule slot_okE)
    ultimately show ?thesis by (auto simp: slot_ok_def)
  qed
  with ok show ?thesis by (simp add: observation_ok_def)
qed

text \<open>An observation that lists one slot twice.\<close>

definition sample_observation :: pyval where
  "sample_observation = PDict [(u ''venue_id'', PStr (u ''dsh'')), (u ''venue_name'', PStr (u ''D'')), (u ''healthy'', PBool True),
     (u ''slots'', PList [sample_slot_json ''c'', sample_slot_json ''c''])]"

lemma sample_observation_valid:
  "validate_observation E sample_observation now = Inr \<lparr>vo_venue_id = u ''dsh'', vo_venue_name = u ''D'', vo_scope = u ''default'', vo_healthy = True,
     vo_checked_at = now, vo_error = None,
     vo_slots = [\<lparr>booking_date = 18, court_name = u ''c'', start_time = u ''09:00'', end_time = u ''10:00''\<rparr>]\<rparr>"
proof -
  have "map_of VENUES (u ''dsh'') \<noteq> None" unfolding map_of_VENUES is_venue_def VENUES_eval by (simp add: u_def)
  then obtain n where n: "map_of VENUES (u ''dsh'') = Some n" by blast
  have "validate_slot E (sample_slot_json ''c'') = Inr \<lparr>booking_date = 18, court_name = u ''c'', start_time = u ''09:00'', end_time = u ''10:00''\<rparr>"
    by (rule sample_slot_valid) (simp_all add: py_eval)
  then show ?thesis using n unfolding validate_observation_def sample_observation_def
    by (simp add: py_eval Let_def unique_slots_def)
qed

theorem validated_observation_well_formed_witness:
  "\<exists>ob. validate_observation plain_env sample_observation 0 = Inr ob \<and> is_venue (vo_venue_id ob)
    \<and> (\<exists>s a b. vo_slots ob = [s] \<and> parse_time_str (start_time s) = Inr a \<and> parse_time_str (end_time s) = Inr b \<and> a < b \<and> b < 1440)"
proof -
  obtain ob s where ob: "validate_observation plain_env sample_observation 0 = Inr ob" "vo_slots ob = [s]"
    using sample_observation_valid [of plain_env 0] by auto
  from validated_observation_well_formed [OF ob(1)] ob show ?thesis by fastforce
qed

section \<open>Subscriptions\<close>

text \<open>What a subscription asks for is checked: active venues without repetition, weekdays, a proper time
  span, and a term the user's tier allows; and every allowed term resolves. A standard user gets 7 to 14 days
  and no renewal, a priority user at most 180 days, and only the long term renews itself.\<close>

theorem subscription_terms:
  assumes "validate_subscription E payload priority = Inr si"
  shows "list_all is_venue (si_venue_ids si) \<and> distinct (si_venue_ids si) \<and> si_venue_ids si \<noteq> []
    \<and> (\<exists>r. resolve_term (si_term_code si) now = Inr r
        \<and> now + days 7 \<le> rt_active_until r \<and> rt_active_until r \<le> now + days 180
        \<and> (rt_auto_renew r \<longleftrightarrow> si_term_code si = u ''long_term'')
        \<and> (priority \<or> rt_active_until r \<le> now + days 14 \<and> \<not> rt_auto_renew r))"
proof -
  note ok = validate_subscription_ok [OF assms, unfolded subscription_input_ok_def]
  have "set STANDARD_TERMS \<subseteq> set PRIORITY_TERMS" by (auto simp: term_codes_eval)
  with ok have t: "si_term_code si \<in> set PRIORITY_TERMS" by (auto split: if_splits)
  then obtain r where r: "resolve_term (si_term_code si) now = Inr r" "rt_term_code r = si_term_code si"
    "now + days 7 \<le> rt_active_until r" "rt_active_until r \<le> now + days 180" "rt_auto_renew r \<longleftrightarrow> si_term_code si = u ''long_term''"
    by (rule resolve_term_priority)
  have "priority \<or> rt_active_until r \<le> now + days 14 \<and> \<not> rt_auto_renew r"
    using ok resolve_term_standard [OF _ r(1)] by (auto split: if_splits)
  with ok r show ?thesis by (auto simp: strict_sorted_iff)
qed

definition sample_subscription_json :: pyval where
  "sample_subscription_json = PDict [(u ''venueIds'', PList [PStr (u ''dsh'')]), (u ''startTime'', PStr (u ''09:00'')),
     (u ''endTime'', PStr (u ''10:00'')), (u ''termCode'', PStr (u ''7d''))]"

lemma sample_subscription_valid:
  "\<exists>si. validate_subscription plain_env sample_subscription_json False = Inr si \<and> si_term_code si = u ''7d''"
proof -
  have v: "is_venue [100, 115, 104]" unfolding is_venue_def VENUES_eval by (simp add: u_def)
  have "u ''7d'' \<in> set STANDARD_TERMS" by (simp add: term_codes_eval)
  then have t: "[55, 100] \<in> set STANDARD_TERMS" by (simp add: u_def)
  show ?thesis
    unfolding validate_subscription_def sample_subscription_json_def
    using v t sample_times
    by (simp add: dget_def dget2_def raw_term_code_def normalize_weekdays_def plain_env_def Let_def u_def str_or_empty_def
        py_or_def strip_def lstrip_def is_space_def parse_time_def)
qed

section \<open>Matching\<close>

text \<open>C28: A slot matches a subscription exactly when its weekday is in the mask and there is a minute of the day
  that lies both in the slot and in the wished window; touching at an end point is no match.\<close>

theorem slot_matches_overlap:
  assumes "validate_slot E raw = Inr s" "parse_time_str st = Inr a" "parse_time_str en = Inr b" "a < b"
  shows "\<exists>x y. parse_time_str (start_time s) = Inr x \<and> parse_time_str (end_time s) = Inr y
    \<and> slot_matches s m st en = Inr (weekday_in_mask m (isoweekday (booking_date s))
        \<and> (\<exists>t. x \<le> t \<and> t < y \<and> a \<le> t \<and> t < b))"
proof -
  note ok = validate_slot_ok [OF assms(1)]
  obtain x y where "parse_time_str (start_time s) = Inr x" "parse_time_str (end_time s) = Inr y"
    using ok by (rule slot_okE)
  with slot_matches_iff [OF ok assms(2-4)] show ?thesis by blast
qed

theorem slot_matches_overlap_witness:
  "slot_matches \<lparr>booking_date = 18, court_name = u ''1'', start_time = u ''09:00'', end_time = u ''10:00''\<rparr> 127 (u ''09:00'') (u ''10:00'') = Inr True"
proof -
  have s: "strip (u ''1'') = u ''1''" by (simp add: py_eval)
  from slot_matches_overlap [OF sample_slot_valid [of "''1''" plain_env] sample_times(1) sample_times(2), of 127] s sample_times
  have "slot_matches \<lparr>booking_date = 18, court_name = u ''1'', start_time = u ''09:00'', end_time = u ''10:00''\<rparr> 127 (u ''09:00'') (u ''10:00'')
      = Inr (weekday_in_mask 127 (isoweekday 18) \<and> (\<exists>t::int. 540 \<le> t \<and> t < 600 \<and> 540 \<le> t \<and> t < 600))" by simp
  moreover have "weekday_in_mask 127 (isoweekday 18)" by (simp add: weekday_in_mask_def isoweekday_def)
  moreover have "\<exists>t::int. 540 \<le> t \<and> t < 600 \<and> 540 \<le> t \<and> t < 600" by (rule exI [of _ 540]) simp
  ultimately show ?thesis by simp
qed

section \<open>Invitation codes\<close>

lemma code_parts_word: "list_all is_code_char w \<Longrightarrow> code_parts cur (w @ rest) = code_parts (cur @ w) rest"
  by (induction w arbitrary: cur) auto

lemma code_parts_hyphen: "w \<noteq> [] \<Longrightarrow> list_all is_code_char w \<Longrightarrow> code_parts [] (w @ 45 # rest) = w # code_parts [] rest"
  by (simp add: code_parts_word is_code_char_def)

lemma code_parts_last: "w \<noteq> [] \<Longrightarrow> list_all is_code_char w \<Longrightarrow> code_parts [] w = [w]"
  using code_parts_word [of w "[]" "[]"] by simp

definition code_word :: "pystr \<Rightarrow> bool" where
  "code_word w \<longleftrightarrow> w \<noteq> [] \<and> list_all is_code_char w"

lemma invite_words:
  "list_all code_word INVITE_SCENES" "list_all code_word INVITE_MASCOTS" "code_word INVITE_PREFIX"
  "list_all is_code_char INVITE_ALPHABET" "length INVITE_SCENES = 64" "length INVITE_MASCOTS = 64" "length INVITE_ALPHABET = 32"
  by (simp_all add: INVITE_SCENES_def INVITE_MASCOTS_def INVITE_PREFIX_def INVITE_ALPHABET_def code_word_def u_def is_code_char_def)

lemma pick_in: "xs \<noteq> [] \<Longrightarrow> pick xs n \<in> set xs"
  by (simp add: pick_def)

lemma code_char_not_space: "is_code_char c \<Longrightarrow> \<not> is_space c"
  by (auto simp: is_code_char_def is_space_def)

lemma invite_parts_words:
  assumes "invite_parts_ok parts"
  obtains b c d where "parts = [INVITE_PREFIX, b, c, d]" "code_word b" "code_word c" "code_word d"
proof -
  from assms obtain b c d where p: "parts = [INVITE_PREFIX, b, c, d]" "b \<in> set INVITE_SCENES" "c \<in> set INVITE_MASCOTS"
    "length d = 6" "list_all (\<lambda>x. x \<in> set INVITE_ALPHABET) d"
    by (auto simp: invite_parts_ok_def split: list.splits)
  then have "code_word d" using invite_words(4) by (auto simp: code_word_def list_all_iff)
  with p show ?thesis using invite_words(1,2) by (intro that [of b c d]) (auto simp: list_all_iff)
qed

lemma normal_form:
  assumes ok: "invite_parts_ok parts" and up: "py_upper E (join (u ''-'') parts) = join (u ''-'') parts"
  shows "normalize_invite_code E (PStr (join (u ''-'') parts)) = Inr (join (u ''-'') parts)"
proof -
  obtain b c d where p: "parts = [INVITE_PREFIX, b, c, d]" and w: "code_word b" "code_word c" "code_word d"
    using ok by (rule invite_parts_words)
  let ?s = "INVITE_PREFIX @ 45 # b @ 45 # c @ 45 # d"
  have j: "join (u ''-'') parts = ?s" by (simp add: p u_def)
  have "\<not> is_space (last d)" using w(3) last_in_set [of d] code_char_not_space by (auto simp: code_word_def list_all_iff)
  moreover have "\<not> is_space (hd ?s)" by (simp add: INVITE_PREFIX_def u_def is_space_def)
  moreover have "last ?s = last d" using w(3) by (simp add: code_word_def)
  ultimately have "strip ?s = ?s" by (intro strip_fixed) simp
  moreover have "code_parts [] ?s = parts"
    using w invite_words(3) by (simp add: p code_word_def code_parts_hyphen code_parts_last)
  moreover have "?s \<noteq> []" by simp
  ultimately show ?thesis
    using up ok unfolding normalize_invite_code_def j
    by (simp add: str_or_empty_def py_or_def Let_def j)
qed

lemma generated_parts:
  assumes "length draws = 6"
  shows "\<exists>parts. invite_parts_ok parts \<and> generate_invite_code draws sd md = join (u ''-'') parts"
proof -
  have "INVITE_SCENES \<noteq> []" "INVITE_MASCOTS \<noteq> []" "INVITE_ALPHABET \<noteq> []"
    using invite_words(5-7) by auto
  then show ?thesis using assms
    by (intro exI [of _ "[INVITE_PREFIX, pick INVITE_SCENES sd, pick INVITE_MASCOTS md, map (pick INVITE_ALPHABET) draws]"])
      (simp add: invite_parts_ok_def generate_invite_code_def list_all_iff pick_in)
qed

lemma normalize_generated:
  assumes "length draws = 6" "py_upper E (generate_invite_code draws sd md) = generate_invite_code draws sd md"
  shows "normalize_invite_code E (PStr (generate_invite_code draws sd md)) = Inr (generate_invite_code draws sd md)"
  using generated_parts [OF assms(1), of sd md] normal_form assms(2) by metis

text \<open>C29: Invitation codes survive every hand: what \<open>generate_invite_code\<close> makes is its own normal form, a
  user who types it gets the hash it was stored under, and what is stored encrypted decrypts to it. Upper
  casing keeps the code's letters, digits and hyphens, and Fernet decrypts what it encrypted.\<close>

theorem invite_code_roundtrip:
  assumes "length draws = 6" "py_upper E (generate_invite_code draws sd md) = generate_invite_code draws sd md"
    and "\<And>text. fernet_encrypt pepper text \<noteq> [] \<and> fernet_decrypt pepper (fernet_encrypt pepper text) = Some text"
  shows "\<exists>stored. encrypt_invite_code E fernet_encrypt (generate_invite_code draws sd md) pepper = Inr stored
    \<and> decrypt_invite_code fernet_decrypt (Some stored) pepper = Some (generate_invite_code draws sd md)
    \<and> hash_invite_code E (PStr (generate_invite_code draws sd md)) pepper
        = Inr (hmac_hex E pepper (generate_invite_code draws sd md))"
  using normalize_generated [OF assms(1,2)] assms(3)
  by (simp add: encrypt_invite_code_def decrypt_invite_code_def hash_invite_code_def)

theorem invite_code_roundtrip_witness:
  "\<exists>stored. decrypt_invite_code (\<lambda>p c. Some (drop 1 c)) (Some stored) [] = Some (generate_invite_code [0, 1, 2, 3, 4, 5] 0 0)"
proof -
  have "py_upper plain_env x = x" for x by (simp add: plain_env_def)
  from invite_code_roundtrip [OF _ this, of "[0, 1, 2, 3, 4, 5]" "\<lambda>p m. 1 # m" "[]" "\<lambda>p c. Some (drop 1 c)" 0 0]
  show ?thesis by auto
qed

text \<open>A normalised code is a fixed point: whatever spelling was accepted, normalising the result again
  gives the same code, so a stored hash does not depend on how often the code was normalised.\<close>

theorem normalized_code_fixed:
  assumes "normalize_invite_code E v = Inr code" "py_upper E code = code"
  shows "normalize_invite_code E (PStr code) = Inr code"
proof -
  obtain parts where "invite_parts_ok parts" "code = join (u ''-'') parts"
    using assms(1) by (auto simp: normalize_invite_code_def Let_def split: if_splits)
  with normal_form assms(2) show ?thesis by blast
qed

end
