(* ===== verification/ServiceLaws.thy ===== *)
theory ServiceLaws
  imports DomainLaws Scenario
begin

text \<open>
  What \<open>host_core/service.py\<close> promises about an observation it ingests: at most one notification per
  subscription and event, no missed and no unfounded reminder, one current availability per
  observation key, and no effect of stale or repeated observations.
\<close>

section \<open>The frame of an ingest\<close>

text \<open>The tables an ingest reads but never writes.\<close>

definition same_context :: "db \<Rightarrow> db \<Rightarrow> bool" where
  "same_context db db' \<longleftrightarrow> subscriptions db' = subscriptions db \<and> subscription_venues db' = subscription_venues db
     \<and> user_delivery_tiers db' = user_delivery_tiers db \<and> notification_date_pauses db' = notification_date_pauses db
     \<and> subscription_generations db' = subscription_generations db \<and> delivery_attempts db' = delivery_attempts db
     \<and> email_delivery_claims db' = email_delivery_claims db \<and> runtime_control db' = runtime_control db"

text \<open>The tables matching leaves alone, besides.\<close>

definition same_observations :: "db \<Rightarrow> db \<Rightarrow> bool" where
  "same_observations db db' \<longleftrightarrow> same_context db db' \<and> venue_status db' = venue_status db \<and> observed_slots db' = observed_slots db
     \<and> current_availability db' = current_availability db \<and> observation_state db' = observation_state db"

lemmas frame_defs = same_context_def same_observations_def

lemma match_subscription_observations:
  "match_subscription E uuid ob rules now slot sub st = Inr st' \<Longrightarrow> same_observations (fst st) (fst st')"
  by (auto simp: match_subscription_def Let_def ebind_Inr_iff restore_paused_notification_def frame_defs
      split: if_splits prod.splits)

lemma match_all_observations:
  "match_all E uuid ob rules subs now db = Inr st' \<Longrightarrow> same_observations db (fst st')"
  by (erule match_all_induct [where P = "\<lambda>st. same_observations db (fst st)"])
    (simp add: frame_defs, drule match_subscription_observations, simp add: frame_defs)

lemma store_slots_context:
  "same_context db (fold (store_slot E ob now) slots db)
   \<and> venue_status (fold (store_slot E ob now) slots db) = venue_status db
   \<and> observation_state (fold (store_slot E ob now) slots db) = observation_state db
   \<and> subscription_events (fold (store_slot E ob now) slots db) = subscription_events db
   \<and> notification_outbox (fold (store_slot E ob now) slots db) = notification_outbox db"
proof (induction slots arbitrary: db)
  case (Cons s ss)
  from Cons.IH [of "store_slot E ob now s db"] show ?case by (simp add: store_slot_def frame_defs)
qed (simp add: frame_defs)

text \<open>The database an observation is matched against.\<close>

definition refreshed :: "pyenv \<Rightarrow> venue_observation \<Rightarrow> instant \<Rightarrow> db \<Rightarrow> db" where
  "refreshed E ob now db = set_health (observation_key ob) (vo_healthy ob) (replace_availability E ob now (upsert_status ob now db))"

lemma same_context_trans: "same_context a b \<Longrightarrow> same_context b c \<Longrightarrow> same_context a c"
  by (simp add: same_context_def)

lemma replace_availability_frame:
  "same_context db (replace_availability E ob now db)" "subscription_events (replace_availability E ob now db) = subscription_events db"
  "notification_outbox (replace_availability E ob now db) = notification_outbox db"
  "observation_state (replace_availability E ob now db) = observation_state db"
proof -
  let ?d = "db\<lparr>current_availability := filter (\<lambda>c. av_observation_key c \<noteq> observation_key ob) (current_availability db)\<rparr>"
  have d: "same_context db ?d" "subscription_events ?d = subscription_events db" "notification_outbox ?d = notification_outbox db"
    "observation_state ?d = observation_state db" by (simp_all add: frame_defs)
  note f = store_slots_context [of ?d E ob now "vo_slots ob"]
  show "same_context db (replace_availability E ob now db)"
    using same_context_trans [OF d(1)] f d(1) by (auto simp: replace_availability_def Let_def)
  show "subscription_events (replace_availability E ob now db) = subscription_events db"
    "notification_outbox (replace_availability E ob now db) = notification_outbox db"
    "observation_state (replace_availability E ob now db) = observation_state db"
    using f d by (simp_all add: replace_availability_def Let_def)
qed

lemma refreshed_frame:
  "same_context db (refreshed E ob now db)" "subscription_events (refreshed E ob now db) = subscription_events db"
  "notification_outbox (refreshed E ob now db) = notification_outbox db"
proof -
  let ?u = "upsert_status ob now db"
  have u: "same_context db ?u" "subscription_events ?u = subscription_events db" "notification_outbox ?u = notification_outbox db"
    by (simp_all add: upsert_status_def frame_defs)
  have h: "same_context x (set_health k b x)" "subscription_events (set_health k b x) = subscription_events x"
    "notification_outbox (set_health k b x) = notification_outbox x" for k b x by (simp_all add: set_health_def frame_defs)
  show "same_context db (refreshed E ob now db)"
    unfolding refreshed_def by (rule same_context_trans [OF u(1) same_context_trans [OF replace_availability_frame(1) h(1)]])
  show "subscription_events (refreshed E ob now db) = subscription_events db"
    "notification_outbox (refreshed E ob now db) = notification_outbox db"
    by (simp_all add: refreshed_def h replace_availability_frame u)
qed

lemma context_subscriptions:
  assumes "same_context db db'"
  shows "active_subscriptions db' v now = active_subscriptions db v now" "generation_of db' v = generation_of db v"
    "observation_rules db' es ds = observation_rules db es ds"
proof -
  have p: "is_priority db' = is_priority db" using assms by (intro ext) (simp add: is_priority_def same_context_def)
  have "subscription_live db' = subscription_live db" by (intro ext) (simp add: subscription_live_def p)
  moreover have "venue_subscription_rows db' v = venue_subscription_rows db v"
    using assms by (simp add: venue_subscription_rows_def subscription_of_def same_context_def)
  ultimately show "active_subscriptions db' v now = active_subscriptions db v now"
    by (simp add: active_subscriptions_def p)
  show "generation_of db' v = generation_of db v" "observation_rules db' es ds = observation_rules db es ds"
    using assms by (simp_all add: generation_of_def observation_rules_def same_context_def)
qed

text \<open>The stored state of an observation key, and the three ways an ingest ends.\<close>

definition state_of :: "db \<Rightarrow> venue_observation \<Rightarrow> observation_state_row option" where
  "state_of db ob = find_row os_observation_key (observation_key ob) (observation_state db)"

definition rules_for :: "db \<Rightarrow> venue_observation \<Rightarrow> active_subscription list \<Rightarrow> pause_row list" where
  "rules_for db ob subs = observation_rules db (map as_email subs) (map booking_date (vo_slots ob))"

lemma ingest_eq:
  "ingest_validated E uuid ob now sqlnow db =
     (let subs = active_subscriptions db (vo_venue_id ob) sqlnow; gate = make_gate (subs \<noteq> []) now;
          rules = rules_for db ob subs; fp = observation_fingerprint E ob; gen = generation_of db (vo_venue_id ob)
      in if (case state_of db ob of None \<Rightarrow> False | Some s \<Rightarrow> vo_checked_at ob < os_last_seen_at s)
         then Inr (upsert_status ob now db, OlderIgnored gate)
         else if is_unchanged (state_of db ob) fp gen rules now
         then Inr (touch_observation ob now (refreshed E ob now db), Accepted (vo_venue_id ob) (length (vo_slots ob)) 0 True gate)
         else ebind (match_all E uuid ob rules subs now (refreshed E ob now db)) (\<lambda>(db3, matched).
           Inr (set_health (observation_key ob) (vo_healthy ob) (save_observation ob fp gen now db3),
                Accepted (vo_venue_id ob) (length (vo_slots ob)) matched False gate)))"
proof -
  have u: "same_context db (upsert_status ob now db)" "observation_state (upsert_status ob now db) = observation_state db"
    by (simp_all add: upsert_status_def frame_defs)
  note c = context_subscriptions [OF u(1)] context_subscriptions [OF refreshed_frame(1) [of db E ob now]]
  show ?thesis
    unfolding ingest_validated_def Let_def refreshed_def [symmetric] state_of_def rules_for_def u(2) c ..
qed

section \<open>Uniqueness\<close>

lemma match_subscription_events:
  assumes "match_subscription E uuid ob rules now slot sub st = Inr st'" "distinct (map event_key_of (subscription_events (fst st)))"
  shows "distinct (map event_key_of (subscription_events (fst st')))"
  using assms by (auto simp: match_subscription_def Let_def ebind_Inr_iff restore_paused_notification_def has_key_iff
      event_key_of_def [of "\<lparr>e_subscription_id = _, e_event_key = _, e_created_at = _\<rparr>"]
      split: if_splits prod.splits)

lemma ingest_cases:
  assumes "ingest_observation E uuid payload parsed now sqlnow db = Inr (db', r)"
  obtains (kept) "subscription_events db' = subscription_events db" "notification_outbox db' = notification_outbox db"
  | (matched) ob rules subs db3 k where "validate_observation E payload parsed = Inr ob"
      "match_all E uuid ob rules subs now (refreshed E ob now db) = Inr (db3, k)"
      "subscription_events db' = subscription_events db3" "notification_outbox db' = notification_outbox db3"
proof -
  obtain ob where ob: "validate_observation E payload parsed = Inr ob" and iv: "ingest_validated E uuid ob now sqlnow db = Inr (db', r)"
    using assms by (auto simp: ingest_observation_def ebind_Inr_iff)
  from iv show ?thesis unfolding ingest_eq Let_def
  proof (split if_split_asm, goal_cases)
    case 1
    then show ?case by (intro kept) (auto simp: upsert_status_def)
  next
    case 2
    then show ?case
    proof (split if_split_asm, goal_cases)
      case 1
      then show ?case by (intro kept) (auto simp: touch_observation_def refreshed_frame)
    next
      case 2
      then show ?case by (auto simp: ebind_Inr_iff set_health_def save_observation_def intro!: matched [OF ob])
    qed
  qed
qed

text \<open>C20: No subscriber is told twice: if every pair of subscription and event occurs once among the recorded
  events and once in the outbox, the same holds after any observation is ingested.\<close>

theorem one_notification_per_event:
  assumes "ingest_observation E uuid payload parsed now sqlnow db = Inr (db', r)"
    and "distinct (map event_key_of (subscription_events db))" "distinct (map notification_key (notification_outbox db))"
  shows "distinct (map event_key_of (subscription_events db')) \<and> distinct (map notification_key (notification_outbox db'))"
proof -
  have ev: "distinct (map event_key_of (subscription_events db'))"
    using assms(1)
  proof (cases rule: ingest_cases)
    case (matched ob rules subs db3 k)
    have "distinct (map event_key_of (subscription_events (fst (db3, k))))"
      using matched(2) by (rule match_all_induct [where P = "\<lambda>st. distinct (map event_key_of (subscription_events (fst st)))"])
        (simp_all add: refreshed_frame assms(2) match_subscription_events)
    with matched show ?thesis by simp
  qed (use assms in simp)
  obtain g new where t: "notification_outbox db' = map g (notification_outbox db) @ new"
    and old: "\<forall>x \<in> set (notification_outbox db). restored x (g x)"
    and new: "\<forall>x \<in> set new. notification_key x \<notin> notification_key ` set (notification_outbox db)" "distinct (map notification_key new)"
    using ingest_grown(1) [OF assms(1)] unfolding grown_def by blast
  have "map (notification_key \<circ> g) (notification_outbox db) = map notification_key (notification_outbox db)"
    using old by (simp add: restored_def)
  then have "map notification_key (notification_outbox db') = map notification_key (notification_outbox db) @ map notification_key new"
    by (simp add: t)
  moreover have "set (map notification_key (notification_outbox db)) \<inter> set (map notification_key new) = {}" using new(1) by auto
  ultimately have "distinct (map notification_key (notification_outbox db'))" using new(2) assms(3) by (simp only: distinct_append)
  with ev show ?thesis by blast
qed

section \<open>No missed reminder\<close>

text \<open>The event was recorded, and if that happened just now its notification was queued.\<close>

definition announced :: "db \<Rightarrow> pystr \<times> pystr \<Rightarrow> db \<times> nat \<Rightarrow> bool" where
  "announced db k st \<longleftrightarrow> has_key event_key_of k (subscription_events (fst st))
     \<longrightarrow> has_key event_key_of k (subscription_events db) \<or> has_key notification_key k (notification_outbox (fst st))"

lemma restore_keys:
  "has_key notification_key k (notification_outbox (fst (restore_paused_notification s e c now t db))) = has_key notification_key k (notification_outbox db)"
  "subscription_events (fst (restore_paused_notification s e c now t db)) = subscription_events db"
  by (simp_all add: restore_paused_notification_def Let_def has_key_sql_update notification_key_def
      [abs_def])

lemma match_subscription_cases:
  fixes E ob slot sub now uuid
  defines "key \<equiv> slot_event_key E (vo_venue_id ob) slot"
  assumes m: "match_subscription E uuid ob rules now slot sub (d, c) = Inr st'"
  obtains (skip) "st' = (d, c)"
      "rule_allows_observation (rule_for rules (as_email sub) (booking_date slot)) (vo_checked_at ob) now \<Longrightarrow>
       slot_matches slot (as_weekday_mask sub) (as_start_time sub) (as_end_time sub) = Inr True \<Longrightarrow>
       has_key event_key_of (as_id sub, key) (subscription_events d)"
  | (restore) r where "rule_for rules (as_email sub) (booking_date slot) = Some r"
      "rule_allows_observation (Some r) (vo_checked_at ob) now"
      "has_key event_key_of (as_id sub, key) (subscription_events d)"
      "fst st' = fst (restore_paused_notification (as_id sub) key (vo_checked_at ob) now (as_tier sub) d)"
  | (new) "rule_allows_observation (rule_for rules (as_email sub) (booking_date slot)) (vo_checked_at ob) now"
      "slot_matches slot (as_weekday_mask sub) (as_start_time sub) (as_end_time sub) = Inr True"
      "\<not> has_key event_key_of (as_id sub, key) (subscription_events d)"
      "fst st' = d\<lparr>subscription_events := subscription_events d @ [\<lparr>e_subscription_id = as_id sub, e_event_key = key, e_created_at = now\<rparr>],
         notification_outbox := insert_or_ignore notification_key (new_notification (uuid (as_id sub) key)
           (format_slot_line (vo_venue_name ob) slot) key sub (vo_venue_id ob) now) (notification_outbox d)\<rparr>"
proof (cases "rule_allows_observation (rule_for rules (as_email sub) (booking_date slot)) (vo_checked_at ob) now")
  case False
  with m show ?thesis by (intro skip) (simp_all add: match_subscription_def Let_def)
next
  case allows: True
  with m obtain b where b: "slot_matches slot (as_weekday_mask sub) (as_start_time sub) (as_end_time sub) = Inr b"
    by (auto simp: match_subscription_def Let_def ebind_Inr_iff)
  note eq = m [unfolded match_subscription_def prod.case Let_def, folded key_def]
  show ?thesis
  proof (cases "b \<and> \<not> has_key event_key_of (as_id sub, key) (subscription_events d)")
    case True
    with eq allows b show ?thesis by (intro new) (auto simp: key_def)
  next
    case False
    show ?thesis
    proof (cases "b \<and> rule_for rules (as_email sub) (booking_date slot) \<noteq> None")
      case True
      then obtain r where r: "rule_for rules (as_email sub) (booking_date slot) = Some r" "b" by auto
      with False have h: "has_key event_key_of (as_id sub, key) (subscription_events d)" by simp
      from eq allows b r h show ?thesis
        by (intro restore [OF r(1)]) (auto simp: key_def split: prod.splits)
    qed (use eq allows b False in \<open>intro skip; simp split: if_splits\<close>)
  qed
qed

lemma notification_keys:
  "notification_key (new_notification i line key sub v now) = (as_id sub, key)"
  "event_key_of \<lparr>e_subscription_id = s, e_event_key = key, e_created_at = now\<rparr> = (s, key)"
  by (simp_all add: notification_key_def event_key_of_def new_notification_def)

lemma match_step_keys:
  assumes "match_subscription E uuid ob rules now slot sub st = Inr st'"
  shows "has_key event_key_of k (subscription_events (fst st)) \<Longrightarrow> has_key event_key_of k (subscription_events (fst st'))"
    "announced db k st \<Longrightarrow> announced db k st'"
    "rule_allows_observation (rule_for rules (as_email sub) (booking_date slot)) (vo_checked_at ob) now \<Longrightarrow>
     slot_matches slot (as_weekday_mask sub) (as_start_time sub) (as_end_time sub) = Inr True \<Longrightarrow>
     has_key event_key_of (as_id sub, slot_event_key E (vo_venue_id ob) slot) (subscription_events (fst st'))"
proof -
  obtain d c where st: "st = (d, c)" by (cases st)
  from assms [unfolded st] have "(has_key event_key_of k (subscription_events d) \<longrightarrow> has_key event_key_of k (subscription_events (fst st')))
    \<and> (announced db k (d, c) \<longrightarrow> announced db k st')
    \<and> (rule_allows_observation (rule_for rules (as_email sub) (booking_date slot)) (vo_checked_at ob) now \<longrightarrow>
       slot_matches slot (as_weekday_mask sub) (as_start_time sub) (as_end_time sub) = Inr True \<longrightarrow>
       has_key event_key_of (as_id sub, slot_event_key E (vo_venue_id ob) slot) (subscription_events (fst st')))"
  proof (cases rule: match_subscription_cases)
    case skip
    then show ?thesis by simp
  next
    case (restore r)
    then show ?thesis by (simp add: announced_def restore_keys)
  next
    case new
    then show ?thesis by (auto simp: announced_def has_key_append has_key_insert notification_keys) (auto simp: has_key_def notification_keys)
  qed
  then show "has_key event_key_of k (subscription_events (fst st)) \<Longrightarrow> has_key event_key_of k (subscription_events (fst st'))"
    "announced db k st \<Longrightarrow> announced db k st'"
    "rule_allows_observation (rule_for rules (as_email sub) (booking_date slot)) (vo_checked_at ob) now \<Longrightarrow>
     slot_matches slot (as_weekday_mask sub) (as_start_time sub) (as_end_time sub) = Inr True \<Longrightarrow>
     has_key event_key_of (as_id sub, slot_event_key E (vo_venue_id ob) slot) (subscription_events (fst st'))"
    by (simp_all add: st)
qed

lemma match_slot_invariant:
  assumes "match_slot E uuid ob rules subs now slot a = Inr b" "P a"
    and "\<And>sub x y. P x \<Longrightarrow> match_subscription E uuid ob rules now slot sub x = Inr y \<Longrightarrow> P y"
  shows "P b"
proof (cases "start_at (booking_date slot) (start_time slot) \<le> now")
  case False
  with assms(1) have "efold (match_subscription E uuid ob rules now slot) subs a = Inr b" by (simp add: match_slot_def)
  then show ?thesis using assms(2) by (rule efold_invariant) (rule assms(3))
qed (use assms(1,2) in \<open>simp add: match_slot_def\<close>)

lemma match_all_announces:
  assumes "match_all E uuid ob rules subs now db = Inr st'" "vo_healthy ob" "slot \<in> set (vo_slots ob)"
    and "now < start_at (booking_date slot) (start_time slot)" "sub \<in> set subs"
    and "rule_allows_observation (rule_for rules (as_email sub) (booking_date slot)) (vo_checked_at ob) now"
    and "slot_matches slot (as_weekday_mask sub) (as_start_time sub) (as_end_time sub) = Inr True"
  defines "k \<equiv> (as_id sub, slot_event_key E (vo_venue_id ob) slot)"
  shows "has_key event_key_of k (subscription_events (fst st')) \<and> announced db k st'"
proof -
  let ?P = "\<lambda>st. has_key event_key_of k (subscription_events (fst st)) \<and> announced db k st" and ?J = "announced db k"
  have J: "?J b" if "?J a" "match_slot E uuid ob rules subs now s a = Inr b" for s a b
    using that(2,1) by (rule match_slot_invariant [where P = ?J]) (rule match_step_keys(2))
  have P: "?P b" if "?P a" "match_slot E uuid ob rules subs now s a = Inr b" for s a b
    using that(2,1) by (rule match_slot_invariant [where P = ?P]) (auto intro: match_step_keys(1,2))
  have E: "?P b" if "?J a" "match_slot E uuid ob rules subs now slot a = Inr b" for a b
  proof -
    have "efold (match_subscription E uuid ob rules now slot) subs a = Inr b"
      using that(2) assms(4) by (simp add: match_slot_def)
    then show ?thesis using assms(5) that(1)
    proof (rule efold_establishes [where J = ?J and P = ?P])
      fix x y assume j: "?J x" and m: "match_subscription E uuid ob rules now slot sub x = Inr y"
      show "?P y" using match_step_keys(3) [OF m assms(6,7)] match_step_keys(2) [OF m j] by (simp add: k_def)
    next
      fix s x y assume p: "?P x" and m: "match_subscription E uuid ob rules now slot s x = Inr y"
      show "?P y" using match_step_keys(1,2) [OF m] p by blast
    qed (rule match_step_keys(2))
  qed
  have "efold (match_slot E uuid ob rules subs now) (vo_slots ob) (db, 0) = Inr st'"
    using assms(1,2) by (simp add: match_all_def)
  then show ?thesis using assms(3)
  proof (rule efold_establishes [where J = ?J and P = ?P])
    show "?J (db, 0)" by (simp add: announced_def)
  qed (rule J, assumption+, rule E, assumption+, rule P, assumption+)
qed

lemma ingest_matched:
  assumes "ingest_validated E uuid ob now sqlnow db = Inr (db', Accepted v n m False g)"
  obtains db3 where "match_all E uuid ob (rules_for db ob (active_subscriptions db (vo_venue_id ob) sqlnow))
      (active_subscriptions db (vo_venue_id ob) sqlnow) now (refreshed E ob now db) = Inr (db3, m)"
    "subscription_events db' = subscription_events db3" "notification_outbox db' = notification_outbox db3"
    "db' = set_health (observation_key ob) (vo_healthy ob)
       (save_observation ob (observation_fingerprint E ob) (generation_of db (vo_venue_id ob)) now db3)"
  using assms unfolding ingest_eq Let_def
  by (auto simp: ebind_Inr_iff set_health_def save_observation_def split: if_split_asm)

lemma reminder_announced:
  assumes "ingest_validated E uuid ob now sqlnow db = Inr (db', Accepted v n m False g)"
    and "vo_healthy ob" "slot \<in> set (vo_slots ob)"
    and "now < start_at (booking_date slot) (start_time slot)"
    and "sub \<in> set (active_subscriptions db (vo_venue_id ob) sqlnow)"
    and "slot_matches slot (as_weekday_mask sub) (as_start_time sub) (as_end_time sub) = Inr True"
    and "\<not> has_key pause_key (as_email sub, booking_date slot) (notification_date_pauses db)"
  defines "k \<equiv> (as_id sub, slot_event_key E (vo_venue_id ob) slot)"
  shows "has_key event_key_of k (subscription_events db')
    \<and> (has_key event_key_of k (subscription_events db) \<or> has_key notification_key k (notification_outbox db'))"
proof -
  let ?subs = "active_subscriptions db (vo_venue_id ob) sqlnow" let ?rules = "rules_for db ob ?subs"
  obtain db3 c where ma: "match_all E uuid ob ?rules ?subs now (refreshed E ob now db) = Inr (db3, c)"
    and db': "subscription_events db' = subscription_events db3" "notification_outbox db' = notification_outbox db3"
    using assms(1) by (rule ingest_matched)
  have "rule_for ?rules (as_email sub) (booking_date slot) = None"
    using assms(7) by (auto simp: rule_for_def find_row_None rules_for_def observation_rules_def has_key_iff)
  then have "rule_allows_observation (rule_for ?rules (as_email sub) (booking_date slot)) (vo_checked_at ob) now"
    by (simp add: rule_allows_observation_def)
  from match_all_announces [OF ma assms(2-5) this assms(6)] db' show ?thesis
    by (auto simp: announced_def refreshed_frame k_def)
qed

section \<open>A concrete observation\<close>

definition demo_seen :: slot_observation where
  "demo_seen = \<lparr>booking_date = 18, court_name = u ''c'', start_time = u ''09:00'', end_time = u ''10:00''\<rparr>"

definition demo_ob :: venue_observation where
  "demo_ob = \<lparr>vo_venue_id = u ''dsh'', vo_venue_name = u ''D'', vo_scope = u ''default'', vo_healthy = True,
     vo_checked_at = demo_now, vo_error = None, vo_slots = [demo_seen]\<rparr>"

definition demo_active :: active_subscription where
  "demo_active = \<lparr>as_id = u ''s'', as_email = demo_email, as_start_time = u ''08:00'', as_end_time = u ''12:00'',
     as_weekday_mask = 127, as_tier = Standard\<rparr>"

lemma demo_active_subscriptions: "active_subscriptions demo_db (u ''dsh'') demo_now = [demo_active]"
  by (simp add: active_subscriptions_def py_eval demo_active_def List.map_filter_simps)

lemma demo_seen_matches: "slot_matches demo_seen 127 (u ''08:00'') (u ''12:00'') = Inr True"
proof -
  have "parse_time_str (u ''08:00'') = Inr 480" "parse_time_str (u ''12:00'') = Inr 720"
    "parse_time_str (u ''09:00'') = Inr 540" "parse_time_str (u ''10:00'') = Inr 600"
    using parse_time_ascii [of 48 56 48 48] parse_time_ascii [of 49 50 48 48] parse_time_ascii [of 48 57 48 48] parse_time_ascii [of 49 48 48 48]
    by (simp_all add: u_def time_match_def is_digit_def digit_value_ascii)
  then show ?thesis by (simp add: slot_matches_def demo_seen_def weekday_in_mask_def isoweekday_def)
qed

lemma demo_ingest: "\<exists>db' m g. ingest_validated demo_env (\<lambda>s e. s @ e) demo_ob demo_now demo_now demo_db = Inr (db', Accepted (u ''dsh'') 1 m False g)"
proof -
  have "state_of demo_db demo_ob = None" by (simp add: state_of_def demo_db_def empty_db_def find_row_def)
  moreover have "vo_venue_id demo_ob = u ''dsh''" "length (vo_slots demo_ob) = 1" by (simp_all add: demo_ob_def)
  moreover have "\<exists>st. match_all demo_env uuid demo_ob rules [demo_active] demo_now d = Inr st" for uuid rules d
  proof -
    have "\<exists>st. match_subscription demo_env uuid demo_ob rules demo_now demo_seen demo_active (d, 0) = Inr st"
      using demo_seen_matches by (auto simp: match_subscription_def Let_def demo_active_def split: prod.split)
    then obtain st where "match_subscription demo_env uuid demo_ob rules demo_now demo_seen demo_active (d, 0) = Inr st" ..
    moreover have "vo_healthy demo_ob" "vo_slots demo_ob = [demo_seen]" by (simp_all add: demo_ob_def)
    ultimately show ?thesis by (simp add: match_all_def match_slot_def)
  qed
  then obtain d c where "match_all demo_env (\<lambda>s e. s @ e) demo_ob (rules_for demo_db demo_ob [demo_active]) [demo_active] demo_now
      (refreshed demo_env demo_ob demo_now demo_db) = Inr (d, c)" by (metis surj_pair)
  ultimately show ?thesis
    unfolding ingest_eq Let_def by (simp add: is_unchanged_def demo_active_subscriptions)
qed

lemma demo_observed:
  "vo_healthy demo_ob" "demo_seen \<in> set (vo_slots demo_ob)" "vo_venue_id demo_ob = u ''dsh''"
  "demo_now < start_at (booking_date demo_seen) (start_time demo_seen)"
  "demo_active \<in> set (active_subscriptions demo_db (vo_venue_id demo_ob) demo_now)"
  "slot_matches demo_seen (as_weekday_mask demo_active) (as_start_time demo_active) (as_end_time demo_active) = Inr True"
  "\<not> has_key pause_key (as_email demo_active, booking_date demo_seen) (notification_date_pauses demo_db)"
  "\<not> has_key event_key_of (as_id demo_active, slot_event_key demo_env (vo_venue_id demo_ob) demo_seen) (subscription_events demo_db)"
  "\<not> has_key notification_key (as_id demo_active, slot_event_key demo_env (vo_venue_id demo_ob) demo_seen) (notification_outbox demo_db)"
proof -
  show v: "vo_healthy demo_ob" "demo_seen \<in> set (vo_slots demo_ob)" "vo_venue_id demo_ob = u ''dsh''" by (simp_all add: demo_ob_def)
  show "demo_now < start_at (booking_date demo_seen) (start_time demo_seen)"
    using demo_start by (simp add: demo_seen_def demo_now_def duration_defs)
  show "demo_active \<in> set (active_subscriptions demo_db (vo_venue_id demo_ob) demo_now)" by (simp add: v demo_active_subscriptions)
  show "slot_matches demo_seen (as_weekday_mask demo_active) (as_start_time demo_active) (as_end_time demo_active) = Inr True"
    using demo_seen_matches by (simp add: demo_active_def)
  show "\<not> has_key pause_key (as_email demo_active, booking_date demo_seen) (notification_date_pauses demo_db)"
    by (simp add: demo_db_def empty_db_def has_key_def)
  show "\<not> has_key event_key_of (as_id demo_active, slot_event_key demo_env (vo_venue_id demo_ob) demo_seen) (subscription_events demo_db)"
    "\<not> has_key notification_key (as_id demo_active, slot_event_key demo_env (vo_venue_id demo_ob) demo_seen) (notification_outbox demo_db)"
    by (simp_all add: v demo_active_def demo_db_def has_key_def event_key_of_def demo_note_def new_notification_def notification_key_def
        slot_event_key_def slot_identity_def demo_env_def u_def)
qed

lemma demo_ingest_note:
  "\<exists>db' m g n. ingest_validated demo_env (\<lambda>s e. s @ e) demo_ob demo_now demo_now demo_db = Inr (db', Accepted (u ''dsh'') 1 m False g)
     \<and> n \<in> set (notification_outbox db') \<and> notification_key n = (as_id demo_active, slot_event_key demo_env (vo_venue_id demo_ob) demo_seen)"
proof -
  obtain db' m g where i: "ingest_validated demo_env (\<lambda>s e. s @ e) demo_ob demo_now demo_now demo_db = Inr (db', Accepted (u ''dsh'') 1 m False g)"
    using demo_ingest by blast
  from reminder_announced [OF i demo_observed(1,2,4-7)] demo_observed(8)
  have "has_key notification_key (as_id demo_active, slot_event_key demo_env (vo_venue_id demo_ob) demo_seen) (notification_outbox db')" by blast
  with i show ?thesis unfolding has_key_iff by (metis (no_types, lifting) imageE)
qed

theorem one_notification_per_event_witness:
  "\<exists>db' r. ingest_observation demo_env (\<lambda>s e. s @ e) sample_observation demo_now demo_now demo_now demo_db = Inr (db', r)
     \<and> has_key notification_key (u ''s'', slot_event_key demo_env (u ''dsh'') demo_seen) (notification_outbox db')
     \<and> distinct (map event_key_of (subscription_events db')) \<and> distinct (map notification_key (notification_outbox db'))"
proof -
  obtain db' m g n where i: "ingest_validated demo_env (\<lambda>s e. s @ e) demo_ob demo_now demo_now demo_db = Inr (db', Accepted (u ''dsh'') 1 m False g)"
    and n: "n \<in> set (notification_outbox db')" "notification_key n = (as_id demo_active, slot_event_key demo_env (vo_venue_id demo_ob) demo_seen)"
    using demo_ingest_note by blast
  have "validate_observation demo_env sample_observation demo_now = Inr demo_ob"
    by (simp add: sample_observation_valid demo_ob_def demo_seen_def)
  then have ing: "ingest_observation demo_env (\<lambda>s e. s @ e) sample_observation demo_now demo_now demo_now demo_db = Inr (db', Accepted (u ''dsh'') 1 m False g)"
    using i by (simp add: ingest_observation_def)
  have "has_key notification_key (u ''s'', slot_event_key demo_env (u ''dsh'') demo_seen) (notification_outbox db')"
    using n by (force simp: has_key_iff demo_active_def demo_ob_def)
  moreover have "distinct (map event_key_of (subscription_events demo_db))" "distinct (map notification_key (notification_outbox demo_db))"
    by (simp_all add: demo_db_def)
  ultimately show ?thesis using one_notification_per_event [OF ing] ing by blast
qed

text \<open>C18: No reminder is missed: when a healthy observation is matched, every slot that has not started yet and
  every live subscription of the venue whose weekdays and window it meets have their event on record
  afterwards, unless the subscriber ever paused that day; and where the event is new, a notification is queued.\<close>

theorem no_missed_reminder:
  assumes "ingest_validated E uuid ob now sqlnow db = Inr (db', Accepted v n m False g)"
    and "vo_healthy ob" "slot \<in> set (vo_slots ob)"
    and "now < start_at (booking_date slot) (start_time slot)"
    and "sub \<in> set (active_subscriptions db (vo_venue_id ob) sqlnow)"
    and "slot_matches slot (as_weekday_mask sub) (as_start_time sub) (as_end_time sub) = Inr True"
    and "\<not> has_key pause_key (as_email sub, booking_date slot) (notification_date_pauses db)"
  shows "has_key event_key_of (as_id sub, slot_event_key E (vo_venue_id ob) slot) (subscription_events db')
    \<and> (has_key event_key_of (as_id sub, slot_event_key E (vo_venue_id ob) slot) (subscription_events db) \<or> has_key notification_key (as_id sub, slot_event_key E (vo_venue_id ob) slot) (notification_outbox db'))"
  by (rule reminder_announced [OF assms])

theorem no_missed_reminder_witness:
  "\<exists>db' m g. ingest_validated demo_env (\<lambda>s e. s @ e) demo_ob demo_now demo_now demo_db = Inr (db', Accepted (u ''dsh'') 1 m False g)
     \<and> has_key event_key_of (u ''s'', slot_event_key demo_env (u ''dsh'') demo_seen) (subscription_events db')"
proof -
  obtain db' m g where i: "ingest_validated demo_env (\<lambda>s e. s @ e) demo_ob demo_now demo_now demo_db = Inr (db', Accepted (u ''dsh'') 1 m False g)"
    using demo_ingest by blast
  from no_missed_reminder [OF i demo_observed(1,2,4-7)]
  have "has_key event_key_of (u ''s'', slot_event_key demo_env (u ''dsh'') demo_seen) (subscription_events db')"
    by (simp add: demo_observed(3) demo_active_def)
  with i show ?thesis by blast
qed

section \<open>No unfounded reminder\<close>

definition justified :: "pyenv \<Rightarrow> venue_observation \<Rightarrow> pause_row list \<Rightarrow> active_subscription list \<Rightarrow> instant \<Rightarrow> notification_row \<Rightarrow> bool" where
  "justified E ob rules subs now n \<longleftrightarrow> o_status n = Pending \<and> vo_healthy ob \<and> (\<exists>slot sub. slot \<in> set (vo_slots ob)
     \<and> now < start_at (booking_date slot) (start_time slot) \<and> sub \<in> set subs
     \<and> n_subscription_id n = as_id sub \<and> n_event_key n = slot_event_key E (vo_venue_id ob) slot \<and> o_email n = as_email sub
     \<and> rule_allows_observation (rule_for rules (as_email sub) (booking_date slot)) (vo_checked_at ob) now
     \<and> slot_matches slot (as_weekday_mask sub) (as_start_time sub) (as_end_time sub) = Inr True)"

lemma restore_rows:
  assumes "n \<in> set (notification_outbox (fst (restore_paused_notification s e c now t db)))"
  obtains r where "r \<in> set (notification_outbox db)" "notification_key n = notification_key r" "o_status r \<noteq> Cancelled \<longrightarrow> n = r"
proof -
  from assms obtain r where r: "r \<in> set (notification_outbox db)" "n = (if restorable db s e r then
      r\<lparr>o_status := Pending, o_last_error := None, n_eligible_at := Some c, o_next_attempt_at := due_at t now, o_updated_at := now,
        n_tier := t, o_lease_owner := None, o_lease_until := None, n_delivery_claim_id := None\<rparr> else r)"
    by (auto simp: restore_paused_notification_def Let_def dest!: in_sql_update)
  show ?thesis by (rule that [OF r(1)]) (auto simp: r(2) notification_key_def restorable_def)
qed

lemma match_all_justified:
  assumes "match_all E uuid ob rules subs now db = Inr st'" "n \<in> set (notification_outbox (fst st'))"
    "\<not> has_key notification_key (notification_key n) (notification_outbox db)"
  shows "justified E ob rules subs now n"
proof -
  let ?P = "\<lambda>st. \<forall>n \<in> set (notification_outbox (fst st)). has_key notification_key (notification_key n) (notification_outbox db) \<or> justified E ob rules subs now n"
  have "?P st'"
  proof (rule match_all_induct [OF assms(1), where P = ?P])
    show "?P (db, 0)" by (auto simp: has_key_iff)
  next
    fix slot sub a b
    assume s: "vo_healthy ob" "slot \<in> set (vo_slots ob)" "now < start_at (booking_date slot) (start_time slot)" "sub \<in> set subs"
      and P: "?P a" and m: "match_subscription E uuid ob rules now slot sub a = Inr b"
    obtain d c where a: "a = (d, c)" by (cases a)
    from m [unfolded a] show "?P b"
    proof (cases rule: match_subscription_cases)
      case skip
      with P a show ?thesis by simp
    next
      case (restore r)
      show ?thesis
      proof
        fix x assume "x \<in> set (notification_outbox (fst b))"
        with restore(4) have "x \<in> set (notification_outbox (fst (restore_paused_notification (as_id sub) (slot_event_key E (vo_venue_id ob) slot)
            (vo_checked_at ob) now (as_tier sub) d)))" by simp
        then obtain y where y: "y \<in> set (notification_outbox d)" "notification_key x = notification_key y" "o_status y \<noteq> Cancelled \<longrightarrow> x = y"
          by (rule restore_rows)
        from P a y(1) have "has_key notification_key (notification_key y) (notification_outbox db) \<or> justified E ob rules subs now y" by simp
        with y(2,3) show "has_key notification_key (notification_key x) (notification_outbox db) \<or> justified E ob rules subs now x"
          by (auto simp: justified_def)
      qed
    next
      case new
      let ?n = "new_notification (uuid (as_id sub) (slot_event_key E (vo_venue_id ob) slot)) (format_slot_line (vo_venue_name ob) slot)
         (slot_event_key E (vo_venue_id ob) slot) sub (vo_venue_id ob) now"
      have "justified E ob rules subs now ?n"
        unfolding justified_def using s new(1,2) by (auto simp: new_notification_def intro!: exI [of _ slot] exI [of _ sub])
      moreover have "set (notification_outbox (fst b)) \<subseteq> insert ?n (set (notification_outbox d))"
        using new(4) by (auto simp: insert_or_ignore_def)
      ultimately show ?thesis using P a by auto
    qed
  qed
  with assms(2,3) show ?thesis by blast
qed

lemma allowed_not_paused:
  assumes "rule_allows_observation (rule_for (rules_for db ob subs) e d) checked now"
    and "e \<in> set (map as_email subs)" "d \<in> set (map booking_date (vo_slots ob))" "distinct (map pause_key (notification_date_pauses db))"
  shows "\<not> date_paused db e d"
proof
  assume "date_paused db e d"
  then obtain p where p: "p \<in> set (notification_date_pauses db)" "pause_key p = (e, d)" "p_paused p"
    by (auto simp: date_paused_def list_ex_iff pause_key_def)
  let ?f = "\<lambda>p. p_email p \<in> set (map as_email subs) \<and> p_booking_date p \<in> set (map booking_date (vo_slots ob))"
  have r: "rules_for db ob subs = filter ?f (notification_date_pauses db)"
    using assms(2,3) by (auto simp: rules_for_def observation_rules_def)
  have "p \<in> set (rules_for db ob subs)" using p assms(2,3) by (simp add: r pause_key_def)
  moreover have "distinct (map pause_key (rules_for db ob subs))" unfolding r using assms(4) by (rule distinct_map_filter)
  ultimately have "rule_for (rules_for db ob subs) e d = Some p"
    using find_row_unique [of pause_key "rules_for db ob subs" p] p(2) by (simp add: rule_for_def)
  with assms(1) p(3) show False by (simp add: rule_allows_observation_def)
qed

text \<open>C19: No reminder without reason: every notification an ingest adds is for a slot the observation lists as
  available and that has not started, of a live subscription for the venue whose weekdays and window the
  slot meets, and not for a day the subscriber has paused. It is queued as pending.\<close>

theorem no_unfounded_reminder:
  assumes "ingest_validated E uuid ob now sqlnow db = Inr (db', r)"
    and "n \<in> set (notification_outbox db')" "\<not> has_key notification_key (notification_key n) (notification_outbox db)"
    and "distinct (map pause_key (notification_date_pauses db))"
  shows "\<exists>slot sub. vo_healthy ob \<and> slot \<in> set (vo_slots ob) \<and> now < start_at (booking_date slot) (start_time slot)
    \<and> sub \<in> set (active_subscriptions db (vo_venue_id ob) sqlnow) \<and> n_subscription_id n = as_id sub
    \<and> n_event_key n = slot_event_key E (vo_venue_id ob) slot \<and> o_email n = as_email sub \<and> o_status n = Pending
    \<and> slot_matches slot (as_weekday_mask sub) (as_start_time sub) (as_end_time sub) = Inr True
    \<and> \<not> date_paused db (as_email sub) (booking_date slot)"
proof (cases r)
  case (OlderIgnored g)
  then have "notification_outbox db' = notification_outbox db"
    using assms(1) unfolding ingest_eq Let_def by (auto simp: ebind_Inr_iff upsert_status_def split: if_split_asm)
  with assms(2,3) show ?thesis by (auto simp: has_key_iff)
next
  case (Accepted v k m dup g)
  let ?subs = "active_subscriptions db (vo_venue_id ob) sqlnow"
  show ?thesis
  proof (cases dup)
    case True
    then have "notification_outbox db' = notification_outbox db"
      using assms(1) Accepted unfolding ingest_eq Let_def
      by (auto simp: ebind_Inr_iff touch_observation_def refreshed_frame split: if_split_asm)
    with assms(2,3) show ?thesis by (auto simp: has_key_iff)
  next
    case False
    then have "ingest_validated E uuid ob now sqlnow db = Inr (db', Accepted v k m False g)" using assms(1) Accepted by simp
    then obtain db3 where ma: "match_all E uuid ob (rules_for db ob ?subs) ?subs now (refreshed E ob now db) = Inr (db3, m)"
      and o: "notification_outbox db' = notification_outbox db3" by (rule ingest_matched)
    have "justified E ob (rules_for db ob ?subs) ?subs now n"
      using match_all_justified [OF ma] assms(2,3) o by (simp add: refreshed_frame)
    then show ?thesis using allowed_not_paused [OF _ _ _ assms(4)] unfolding justified_def by (auto 4 4)
  qed
qed

theorem no_unfounded_reminder_witness:
  "\<exists>db' r n. ingest_validated demo_env (\<lambda>s e. s @ e) demo_ob demo_now demo_now demo_db = Inr (db', r)
     \<and> n \<in> set (notification_outbox db') \<and> o_email n = demo_email \<and> o_status n = Pending"
proof -
  obtain db' m g n where i: "ingest_validated demo_env (\<lambda>s e. s @ e) demo_ob demo_now demo_now demo_db = Inr (db', Accepted (u ''dsh'') 1 m False g)"
    and n: "n \<in> set (notification_outbox db')" "notification_key n = (as_id demo_active, slot_event_key demo_env (vo_venue_id demo_ob) demo_seen)"
    using demo_ingest_note by blast
  have "\<not> has_key notification_key (notification_key n) (notification_outbox demo_db)" using demo_observed(9) n(2) by simp
  moreover have "distinct (map pause_key (notification_date_pauses demo_db))" by (simp add: demo_db_def empty_db_def)
  ultimately obtain sub where "sub \<in> set (active_subscriptions demo_db (vo_venue_id demo_ob) demo_now)" "o_email n = as_email sub" "o_status n = Pending"
    using no_unfounded_reminder [OF i n(1)] by blast
  then have "o_email n = demo_email" "o_status n = Pending" by (simp_all add: demo_observed(3) demo_active_subscriptions demo_active_def)
  with i n(1) show ?thesis by blast
qed

section \<open>Availability, stale and repeated observations\<close>

definition seen_now :: "pyenv \<Rightarrow> venue_observation \<Rightarrow> availability_row list" where
  "seen_now E ob = (if vo_healthy ob then map (\<lambda>s. \<lparr>av_observation_key = observation_key ob,
     av_event_key = slot_event_key E (vo_venue_id ob) s, av_last_seen_at = vo_checked_at ob\<rparr>) (vo_slots ob) else [])"

lemma store_slots_availability:
  "current_availability (fold (store_slot E ob now) slots db) = current_availability db
     @ map (\<lambda>s. \<lparr>av_observation_key = observation_key ob, av_event_key = slot_event_key E (vo_venue_id ob) s,
         av_last_seen_at = vo_checked_at ob\<rparr>) slots"
  by (induction slots arbitrary: db) (simp_all add: store_slot_def)

lemma refreshed_availability:
  "current_availability (refreshed E ob now db) =
     filter (\<lambda>c. av_observation_key c \<noteq> observation_key ob) (current_availability db) @ seen_now E ob"
  by (simp add: refreshed_def set_health_def replace_availability_def Let_def store_slots_availability seen_now_def upsert_status_def)

lemma accepted_availability:
  assumes "ingest_validated E uuid ob now sqlnow db = Inr (db', Accepted v n m dup g)"
  shows "current_availability db' = current_availability (refreshed E ob now db) \<and> same_context db db'"
proof (cases dup)
  case True
  with assms have "db' = touch_observation ob now (refreshed E ob now db)"
    unfolding ingest_eq Let_def by (auto simp: ebind_Inr_iff split: if_split_asm)
  then show ?thesis using refreshed_frame(1) by (simp add: touch_observation_def frame_defs)
next
  case False
  with assms obtain db3 where ma: "match_all E uuid ob (rules_for db ob (active_subscriptions db (vo_venue_id ob) sqlnow))
      (active_subscriptions db (vo_venue_id ob) sqlnow) now (refreshed E ob now db) = Inr (db3, m)"
    and db': "db' = set_health (observation_key ob) (vo_healthy ob)
       (save_observation ob (observation_fingerprint E ob) (generation_of db (vo_venue_id ob)) now db3)"
    by (auto elim: ingest_matched)
  from match_all_observations [OF ma] refreshed_frame(1) [of db E ob now]
  show ?thesis by (simp add: db' set_health_def save_observation_def frame_defs)
qed

text \<open>C21: Current availability is replaced, never mixed: after an accepted observation the available slots
  recorded for its key are exactly the slots it lists, none when it was unhealthy, and the records of
  all other keys are as before.\<close>

theorem availability_replaced:
  assumes "ingest_validated E uuid ob now sqlnow db = Inr (db', Accepted v n m dup g)"
  shows "filter (\<lambda>c. av_observation_key c = observation_key ob) (current_availability db') = seen_now E ob
    \<and> filter (\<lambda>c. av_observation_key c \<noteq> observation_key ob) (current_availability db')
        = filter (\<lambda>c. av_observation_key c \<noteq> observation_key ob) (current_availability db)"
proof -
  have "filter (\<lambda>c. av_observation_key c = observation_key ob) (seen_now E ob) = seen_now E ob"
    "filter (\<lambda>c. av_observation_key c \<noteq> observation_key ob) (seen_now E ob) = []"
    by (auto simp: seen_now_def filter_empty_conv)
  then show ?thesis using accepted_availability [OF assms] by (simp add: refreshed_availability)
qed

theorem availability_replaced_witness:
  "\<exists>db' m g. ingest_validated demo_env (\<lambda>s e. s @ e) demo_ob demo_now demo_now demo_db = Inr (db', Accepted (u ''dsh'') 1 m False g)
     \<and> length (filter (\<lambda>c. av_observation_key c = observation_key demo_ob) (current_availability db')) = 1"
proof -
  obtain db' m g where i: "ingest_validated demo_env (\<lambda>s e. s @ e) demo_ob demo_now demo_now demo_db = Inr (db', Accepted (u ''dsh'') 1 m False g)"
    using demo_ingest by blast
  from availability_replaced [OF i] have "length (filter (\<lambda>c. av_observation_key c = observation_key demo_ob) (current_availability db')) = 1"
    by (simp add: seen_now_def demo_ob_def)
  with i show ?thesis by blast
qed

text \<open>Observations that arrive out of order do no harm: one that was made before the last one recorded for
  its key changes neither the availability nor the slots, events, notifications or observation states.\<close>

theorem older_observation_ignored:
  assumes "state_of db ob = Some s" "vo_checked_at ob < os_last_seen_at s"
  shows "\<exists>db' g. ingest_validated E uuid ob now sqlnow db = Inr (db', OlderIgnored g)
    \<and> same_observations (db\<lparr>venue_status := venue_status db'\<rparr>) db'
    \<and> subscription_events db' = subscription_events db \<and> notification_outbox db' = notification_outbox db"
  unfolding ingest_eq Let_def using assms by (simp add: upsert_status_def frame_defs)

lemma saved_state:
  "\<exists>s. state_of (set_health (observation_key ob) h (save_observation ob fp gen now db)) (ob\<lparr>vo_checked_at := t\<rparr>) = Some s
     \<and> os_fingerprint s = fp \<and> os_subscription_generation s = gen \<and> os_last_seen_at s = vo_checked_at ob"
proof -
  let ?r = "\<lparr>os_observation_key = observation_key ob, os_venue_id = vo_venue_id ob, os_fingerprint = fp,
    os_subscription_generation = gen, os_last_seen_at = vo_checked_at ob, os_last_matched_at = Some now, os_updated_at = now, os_healthy = False\<rparr>"
  have k: "observation_key (ob\<lparr>vo_checked_at := t\<rparr>) = os_observation_key ?r" by (simp add: observation_key_def)
  have f: "find_row os_observation_key (os_observation_key ?r) (upsert os_observation_key (\<lambda>old new. new\<lparr>os_healthy := os_healthy old\<rparr>) ?r (observation_state db))
    = Some (case find_row os_observation_key (os_observation_key ?r) (observation_state db) of None \<Rightarrow> ?r | Some old \<Rightarrow> ?r\<lparr>os_healthy := os_healthy old\<rparr>)"
    by (rule find_row_upsert) simp
  show ?thesis unfolding state_of_def k
    using f by (auto simp: set_health_def save_observation_def find_row_sql_update split: option.split)
qed

text \<open>A day that was resumed and waits for a fresh observation: one listed by the observation, of a subscriber of its venue, resumed
  since the observation seen last, or that one is more than a quarter of an hour old.\<close>

definition resumed_day_waits :: "venue_observation \<Rightarrow> instant \<Rightarrow> instant \<Rightarrow> instant \<Rightarrow> db \<Rightarrow> bool" where
  "resumed_day_waits ob last_seen later sqllater db \<longleftrightarrow>
     (\<exists>p \<in> set (notification_date_pauses db). \<exists>sub \<in> set (active_subscriptions db (vo_venue_id ob) sqllater). \<exists>slot \<in> set (vo_slots ob).
        p_email p = as_email sub \<and> p_booking_date p = booking_date slot \<and> \<not> p_paused p
        \<and> (last_seen \<le> p_updated_at p \<or> minutes 15 < later - last_seen))"

lemma needs_resume_match_iff:
  "needs_resume_match (rules_for db ob (active_subscriptions db (vo_venue_id ob) sqllater)) last_seen later \<longleftrightarrow> resumed_day_waits ob last_seen later sqllater db"
proof -
  have "last_seen < later - minutes 15 \<longleftrightarrow> minutes 15 < later - last_seen" by linarith
  then show ?thesis by (force simp: needs_resume_match_def rules_for_def observation_rules_def list_ex_iff resumed_day_waits_def)
qed

text \<open>C25: A repeated poll is silent exactly when nothing asks for a new match. When an observation was matched and, whatever else happened
  in between, it is still the last one recorded for its scope, then a later report of the same slots is deduplicated, which queues
  nothing, if no subscription of the venue has changed since and no resumed day waits for a fresh observation; otherwise it is matched again.\<close>

theorem repeated_observation_deduplicated:
  assumes "ingest_validated E uuid ob now sqlnow db = Inr (db1, Accepted v n m False g)"
    and "state_of db2 ob = state_of db1 ob" "vo_checked_at ob \<le> t"
  shows "if generation_of db2 v = generation_of db1 v \<and> \<not> resumed_day_waits ob (vo_checked_at ob) later sqllater db2
    then \<exists>db3 g'. ingest_validated E uuid' (ob\<lparr>vo_checked_at := t\<rparr>) later sqllater db2 = Inr (db3, Accepted v n 0 True g')
      \<and> notification_outbox db3 = notification_outbox db2 \<and> subscription_events db3 = subscription_events db2
    else \<forall>db3 r. ingest_validated E uuid' (ob\<lparr>vo_checked_at := t\<rparr>) later sqllater db2 = Inr (db3, r) \<longrightarrow> (\<exists>m' g'. r = Accepted v n m' False g')"
proof -
  let ?ob = "ob\<lparr>vo_checked_at := t\<rparr>" and ?gen = "generation_of db (vo_venue_id ob)"
  obtain db3 where db1: "db1 = set_health (observation_key ob) (vo_healthy ob) (save_observation ob (observation_fingerprint E ob) ?gen now db3)"
    using assms(1) by (rule ingest_matched)
  obtain s where s: "state_of db1 ?ob = Some s" "os_fingerprint s = observation_fingerprint E ob"
    "os_subscription_generation s = ?gen" "os_last_seen_at s = vo_checked_at ob"
    unfolding db1 using saved_state by blast
  have st: "state_of db2 ?ob = Some s" using s(1) assms(2) by (simp add: state_of_def observation_key_def)
  have vn: "v = vo_venue_id ob" "n = length (vo_slots ob)"
    using assms(1) unfolding ingest_eq Let_def by (auto simp: ebind_Inr_iff split: if_split_asm)
  have gen: "generation_of db1 v = ?gen" using context_subscriptions(2) accepted_availability [OF assms(1)] vn(1) by blast
  have "observation_fingerprint E ?ob = observation_fingerprint E ob" by (simp add: observation_fingerprint_def)
  moreover have "rules_for db2 ?ob = rules_for db2 ob" by (simp add: rules_for_def fun_eq_iff)
  ultimately have u: "is_unchanged (state_of db2 ?ob) (observation_fingerprint E ?ob) (generation_of db2 v) (rules_for db2 ?ob (active_subscriptions db2 v sqllater)) later
      \<longleftrightarrow> generation_of db2 v = generation_of db1 v \<and> \<not> resumed_day_waits ob (vo_checked_at ob) later sqllater db2"
    using st s(2-4) gen needs_resume_match_iff [of db2 ob sqllater] vn(1) by (auto simp: is_unchanged_def)
  have old: "(case state_of db2 ?ob of None \<Rightarrow> False | Some s \<Rightarrow> vo_checked_at ?ob < os_last_seen_at s) = False"
    using st s(4) assms(3) by simp
  show ?thesis
  proof (cases "generation_of db2 v = generation_of db1 v \<and> \<not> resumed_day_waits ob (vo_checked_at ob) later sqllater db2")
    case True
    then show ?thesis using u old vn unfolding ingest_eq Let_def by (simp add: touch_observation_def refreshed_frame)
  next
    case False
    then show ?thesis using u old vn unfolding ingest_eq Let_def by (auto simp: ebind_Inr_iff)
  qed
qed

theorem repeated_observation_deduplicated_witness:
  "\<exists>db1 m g db2 db3 g'. ingest_validated demo_env (\<lambda>s e. s @ e) demo_ob demo_now demo_now demo_db = Inr (db1, Accepted (u ''dsh'') 1 m False g)
      \<and> db2 = db1\<lparr>notification_outbox := []\<rparr>
      \<and> ingest_validated demo_env (\<lambda>s e. s @ e) (demo_ob\<lparr>vo_checked_at := minutes 2\<rparr>) (minutes 2) (minutes 2) db2 = Inr (db3, Accepted (u ''dsh'') 1 0 True g')
      \<and> notification_outbox db3 = []"
proof -
  obtain db1 m g where i: "ingest_validated demo_env (\<lambda>s e. s @ e) demo_ob demo_now demo_now demo_db = Inr (db1, Accepted (u ''dsh'') 1 m False g)"
    using demo_ingest by blast
  let ?db2 = "db1\<lparr>notification_outbox := []\<rparr>"
  have "vo_checked_at demo_ob \<le> minutes 2" by (simp add: demo_ob_def demo_now_def duration_defs)
  moreover have "state_of ?db2 demo_ob = state_of db1 demo_ob" by (simp add: state_of_def)
  moreover have "notification_date_pauses demo_db = []" by (simp add: demo_db_def empty_db_def)
  then have "\<not> resumed_day_waits demo_ob (vo_checked_at demo_ob) (minutes 2) (minutes 2) ?db2"
    using accepted_availability [OF i] by (simp add: resumed_day_waits_def same_context_def)
  moreover have "generation_of ?db2 (u ''dsh'') = generation_of db1 (u ''dsh'')" by (simp add: generation_of_def)
  ultimately obtain db3 g' where "ingest_validated demo_env (\<lambda>s e. s @ e) (demo_ob\<lparr>vo_checked_at := minutes 2\<rparr>) (minutes 2) (minutes 2) ?db2
      = Inr (db3, Accepted (u ''dsh'') 1 0 True g')" "notification_outbox db3 = []"
    using repeated_observation_deduplicated [OF i, of ?db2 "minutes 2" "minutes 2" "minutes 2" "\<lambda>s e. s @ e"] by auto
  with i show ?thesis by blast
qed

end
