(* ===== verification/ApiLaws.thy ===== *)
theory ApiLaws
  imports ServiceLaws
begin

text \<open>
  What the handlers of \<open>host_core/api.py\<close> promise: verification codes are rate limited, locked after
  five wrong guesses and good for one use; subscriptions respect the limits and are matched at the
  next poll; cancelling and redeeming take effect once.
\<close>

section \<open>Verification\<close>

lemma filter_sql_update_other:
  "(\<And>r. p r \<Longrightarrow> \<not> q r \<and> \<not> q (f r)) \<Longrightarrow> filter q (sql_update p f t) = filter q t"
  by (induction t) (auto simp: sql_update_def)

lemma find_row_upsert_keyed:
  assumes "\<And>a. key (merge a r) = key a"
  shows "find_row key (key r) (upsert key merge r t) = Some (case find_row key (key r) t of None \<Rightarrow> r | Some old \<Rightarrow> merge old r)"
proof (cases "find_row key (key r) t")
  case None
  then have "\<not> has_key key (key r) t" by (simp add: find_row_None)
  with None show ?thesis by (simp add: upsert_def find_row_append) (simp add: find_row_def)
next
  case (Some old)
  then have "has_key key (key r) t" "key old = key r" using find_row_None [of key "key r" t] by (auto dest: find_row_Some)
  with Some assms show ?thesis by (simp add: upsert_def find_row_sql_update)
qed

lemma atomically_Inr: "atomically db m = (db', Inr x) \<longleftrightarrow> m = Inr (db', x)"
  by (auto simp: atomically_def split: sum.splits prod.splits)

lemma find_fresh:
  "\<not> has_key key k xs \<Longrightarrow> List.find (\<lambda>r. key r = k \<and> q r) (xs @ ys) = List.find (\<lambda>r. key r = k \<and> q r) ys"
  by (induction xs) (auto simp: has_key_def)

definition challenge_named :: "pystr \<Rightarrow> challenge_row \<Rightarrow> db \<Rightarrow> bool" where
  "challenge_named cid c db \<longleftrightarrow> distinct (map ch_id (verification_challenges db)) \<and> c \<in> set (verification_challenges db) \<and> ch_id c = cid"

lemma find_open_challenge:
  assumes "challenge_named cid c db"
  shows "List.find (open_challenge now cid) (verification_challenges db) =
    (if ch_consumed_at c = None \<and> now < ch_expires_at c then Some c else None)"
proof (cases "ch_consumed_at c = None \<and> now < ch_expires_at c")
  case True
  then have o: "open_challenge now cid c" using assms by (simp add: open_challenge_def challenge_named_def)
  show ?thesis
  proof (cases "List.find (open_challenge now cid) (verification_challenges db)")
    case None
    then show ?thesis using o assms by (auto simp: find_None_iff challenge_named_def)
  next
    case (Some d)
    then have "d \<in> set (verification_challenges db)" "ch_id d = cid" by (auto simp: find_Some_iff open_challenge_def)
    then have "d = c" using assms key_unique by (metis challenge_named_def)
    with Some True show ?thesis by simp
  qed
next
  case False
  have "\<not> open_challenge now cid d" if "d \<in> set (verification_challenges db)" for d
    using False assms that key_unique by (metis challenge_named_def open_challenge_def)
  with False show ?thesis by (auto simp: find_None_iff)
qed

lemma verify_refused:
  assumes "challenge_named cid c db" "strip (str_or_empty E raw) = cid" "5 \<le> ch_attempts c \<or> ch_consumed_at c \<noteq> None"
  shows "verify_email E pepper raw code token now db = (db, Inl (HttpError 400))"
  using find_open_challenge [OF assms(1), of now] assms(2,3)
  by (cases "ch_consumed_at c = None \<and> now < ch_expires_at c") (auto simp: verify_email_def Let_def)

lemma verify_wrong:
  assumes "challenge_named cid c db" "strip (str_or_empty E raw) = cid"
    and "hash_verification_code E cid (strip (str_or_empty E code)) pepper \<noteq> ch_code_hash c"
  shows "snd (verify_email E pepper raw code token now db) = Inl (HttpError 400)
    \<and> (\<exists>c'. challenge_named cid c' (fst (verify_email E pepper raw code token now db)) \<and> ch_code_hash c' = ch_code_hash c
       \<and> ch_consumed_at c' = ch_consumed_at c \<and> ch_expires_at c' = ch_expires_at c
       \<and> ch_attempts c' = ch_attempts c + (if strip (str_or_empty E code) \<noteq> [] \<and> cid \<noteq> [] \<and> ch_consumed_at c = None \<and> now < ch_expires_at c \<and> ch_attempts c < 5 then 1 else 0))"
proof -
  let ?upd = "sql_update (\<lambda>c. ch_id c = cid) (\<lambda>c. c\<lparr>ch_attempts := ch_attempts c + 1\<rparr>) (verification_challenges db)"
  have "map ch_id ?upd = map ch_id (verification_challenges db)" by (rule map_key_sql_update) simp
  moreover have "c\<lparr>ch_attempts := ch_attempts c + 1\<rparr> \<in> set ?upd"
    using assms(1) by (auto simp: set_sql_update challenge_named_def intro: rev_image_eqI)
  ultimately have "challenge_named cid (c\<lparr>ch_attempts := ch_attempts c + 1\<rparr>) (db\<lparr>verification_challenges := ?upd\<rparr>)"
    using assms(1) by (simp add: challenge_named_def)
  with find_open_challenge [OF assms(1), of now] assms show ?thesis
    by (cases "ch_consumed_at c = None \<and> now < ch_expires_at c"; cases "5 \<le> ch_attempts c")
      (auto simp: verify_email_def Let_def constant_time_equal_def)
qed

text \<open>A sequence of guesses: the code, the token that would be granted, and the time.\<close>

primrec after_guesses :: "pyenv \<Rightarrow> pystr \<Rightarrow> pyval \<Rightarrow> (pyval \<times> pystr \<times> instant) list \<Rightarrow> db \<Rightarrow> db" where
  "after_guesses E pepper raw [] db = db"
| "after_guesses E pepper raw (g # gs) db = after_guesses E pepper raw gs
     (fst (verify_email E pepper raw (fst g) (fst (snd g)) (snd (snd g)) db))"

definition wrong_guess :: "pyenv \<Rightarrow> pystr \<Rightarrow> challenge_row \<Rightarrow> pyval \<times> pystr \<times> instant \<Rightarrow> bool" where
  "wrong_guess E pepper c g \<longleftrightarrow> (case g of (code, token, now) \<Rightarrow> strip (str_or_empty E code) \<noteq> []
     \<and> hash_verification_code E (ch_id c) (strip (str_or_empty E code)) pepper \<noteq> ch_code_hash c \<and> now < ch_expires_at c)"

lemma after_wrong_guesses:
  assumes "challenge_named cid c db" "strip (str_or_empty E raw) = cid" "cid \<noteq> []"
    and "list_all (wrong_guess E pepper c) gs"
  shows "\<exists>c'. challenge_named cid c' (after_guesses E pepper raw gs db) \<and> ch_consumed_at c' = ch_consumed_at c
    \<and> (ch_consumed_at c \<noteq> None \<or> 5 \<le> ch_attempts c' \<or> ch_attempts c' = ch_attempts c + int (length gs))"
  using assms
proof (induction gs arbitrary: c db)
  case (Cons g gs)
  obtain code token now where g: "g = (code, token, now)" by (cases g) auto
  let ?db = "fst (verify_email E pepper raw code token now db)"
  have w: "strip (str_or_empty E code) \<noteq> []" "hash_verification_code E cid (strip (str_or_empty E code)) pepper \<noteq> ch_code_hash c" "now < ch_expires_at c"
    using Cons.prems(1,4) g by (auto simp: wrong_guess_def challenge_named_def)
  obtain c1 where c1: "challenge_named cid c1 ?db" "ch_code_hash c1 = ch_code_hash c" "ch_consumed_at c1 = ch_consumed_at c"
    "ch_expires_at c1 = ch_expires_at c"
    "ch_attempts c1 = ch_attempts c + (if ch_consumed_at c = None \<and> ch_attempts c < 5 then 1 else 0)"
    using verify_wrong [OF Cons.prems(1,2) w(2), of token now] w Cons.prems(3) by auto
  have "\<exists>c'. challenge_named cid c' (after_guesses E pepper raw gs ?db) \<and> ch_consumed_at c' = ch_consumed_at c1
    \<and> (ch_consumed_at c1 \<noteq> None \<or> 5 \<le> ch_attempts c' \<or> ch_attempts c' = ch_attempts c1 + int (length gs))"
  proof (rule Cons.IH [OF c1(1) Cons.prems(2,3)])
    have "ch_id c1 = ch_id c" using c1(1) Cons.prems(1) by (simp add: challenge_named_def)
    then have "wrong_guess E pepper c1 = wrong_guess E pepper c" using c1(2,4) by (simp add: wrong_guess_def fun_eq_iff)
    with Cons.prems(4) show "list_all (wrong_guess E pepper c1) gs" by simp
  qed
  then show ?case using c1 by (auto simp: g split: if_splits)
qed auto

text \<open>C31: Guessing is bounded: after five wrong guesses made while a challenge is open, every further request for it
  is refused and changes nothing, even one with the right code.\<close>

theorem wrong_guesses_lock_challenge:
  assumes "challenge_named cid c db" "strip (str_or_empty E raw) = cid" "cid \<noteq> []"
    and "0 \<le> ch_attempts c" "5 \<le> length gs"
    and "list_all (wrong_guess E pepper c) gs"
  shows "verify_email E pepper raw code' token' now' (after_guesses E pepper raw gs db)
    = (after_guesses E pepper raw gs db, Inl (HttpError 400))"
proof -
  obtain c' where c': "challenge_named cid c' (after_guesses E pepper raw gs db)" "ch_consumed_at c' = ch_consumed_at c"
    "ch_consumed_at c \<noteq> None \<or> 5 \<le> ch_attempts c' \<or> ch_attempts c' = ch_attempts c + int (length gs)"
    using after_wrong_guesses [OF assms(1-3,6)] by blast
  then have "5 \<le> ch_attempts c' \<or> ch_consumed_at c' \<noteq> None" using assms(4,5) by auto
  with c'(1) assms(2) show ?thesis by (rule verify_refused)
qed

definition demo_challenge :: challenge_row where
  [py_eval]: "demo_challenge = \<lparr>ch_id = u ''c'', ch_email = demo_email,
     ch_code_hash = hash_verification_code demo_env (u ''c'') (u ''123456'') (u ''p''), ch_ip_hash = [], ch_expires_at = minutes 10,
     ch_attempts = 0, ch_consumed_at = None, ch_created_at = 0\<rparr>"

definition demo_challenged :: db where
  "demo_challenged = demo_db\<lparr>verification_challenges := [demo_challenge]\<rparr>"

lemma demo_challenge_named: "challenge_named (u ''c'') demo_challenge demo_challenged"
  by (simp add: challenge_named_def demo_challenged_def demo_challenge_def)

lemma demo_codes:
  "strip (str_or_empty E (PStr (u ''c''))) = u ''c''" "strip (str_or_empty E (PStr (u ''1''))) = u ''1''"
  "strip (str_or_empty E (PStr (u ''123456''))) = u ''123456''"
  by (simp_all add: py_eval)

lemma demo_codes_nonempty: "u ''c'' \<noteq> []" "u ''1'' \<noteq> []" "u ''123456'' \<noteq> []"
  by (simp_all add: u_def)

lemma demo_challenge_fields:
  "ch_id demo_challenge = u ''c''" "ch_email demo_challenge = demo_email" "ch_attempts demo_challenge = 0"
  "ch_code_hash demo_challenge = hash_verification_code demo_env (u ''c'') (u ''123456'') (u ''p'')"
  by (simp_all add: demo_challenge_def)

theorem wrong_guesses_lock_challenge_witness:
  "snd (verify_email demo_env (u ''p'') (PStr (u ''c'')) (PStr (u ''123456'')) (u ''t'') demo_now
     (after_guesses demo_env (u ''p'') (PStr (u ''c'')) (replicate 5 (PStr (u ''1''), u ''t'', demo_now)) demo_challenged)) = Inl (HttpError 400)"
proof -
  have "hash_verification_code demo_env (u ''c'') (u ''1'') (u ''p'') \<noteq> ch_code_hash demo_challenge"
    by (simp add: hash_verification_code_def demo_challenge_def demo_env_def u_def)
  moreover have "demo_now < ch_expires_at demo_challenge" by (simp add: demo_now_def demo_challenge_def duration_defs)
  ultimately have w: "wrong_guess demo_env (u ''p'') demo_challenge (PStr (u ''1''), u ''t'', demo_now)"
    using demo_codes_nonempty by (simp add: wrong_guess_def demo_codes demo_challenge_fields)
  have "verify_email demo_env (u ''p'') (PStr (u ''c'')) (PStr (u ''123456'')) (u ''t'') demo_now
     (after_guesses demo_env (u ''p'') (PStr (u ''c'')) (replicate 5 (PStr (u ''1''), u ''t'', demo_now)) demo_challenged)
     = (after_guesses demo_env (u ''p'') (PStr (u ''c'')) (replicate 5 (PStr (u ''1''), u ''t'', demo_now)) demo_challenged, Inl (HttpError 400))"
    by (rule wrong_guesses_lock_challenge [OF demo_challenge_named demo_codes(1)])
      (use w in \<open>simp_all add: demo_challenge_fields u_def list_all_iff\<close>)
  then show ?thesis by simp
qed

section \<open>Receipts\<close>

text \<open>C32: Verifying an address logs in once: a successful verification consumes its challenge, so the code is refused
  from then on; and until the receipt expires after 180 days, requests bearing the new token are
  made as the address the code was sent to.\<close>

theorem verified_once_then_identified:
  assumes "verify_email E pepper raw code token now db = (db1, Inr (tok, email))"
    and "distinct (map ch_id (verification_challenges db))"
    and "\<not> has_key r_token_hash (hash_token E token) (verified_receipts db)"
    and "strip token = token" "token \<noteq> []" "t < now + days RECEIPT_DAYS"
  shows "verify_email E pepper raw code' token' now' db1 = (db1, Inl (HttpError 400))
    \<and> tok = token \<and> (\<exists>masked. mask_email email = Inr masked
      \<and> snd (identity E (u ''Bearer '' @ token) t db1) = Some (email, masked))"
proof -
  let ?cid = "strip (str_or_empty E raw)"
  obtain c masked where c: "List.find (open_challenge now ?cid) (verification_challenges db) = Some c"
    and e: "mask_email (ch_email c) = Inr masked" "email = ch_email c" "tok = token"
    and d1: "db1 = grant_receipt E token (ch_email c) masked now (db\<lparr>verification_challenges := sql_update (\<lambda>c. ch_id c = ?cid)
       (\<lambda>c. c\<lparr>ch_consumed_at := Some now\<rparr>) (verification_challenges db)\<rparr>)"
    using assms(1) by (auto simp: verify_email_def Let_def split: if_splits option.splits sum.splits)
  have "c \<in> set (verification_challenges db)" "ch_id c = ?cid" using c by (auto simp: find_Some_iff open_challenge_def)
  then have "challenge_named ?cid (c\<lparr>ch_consumed_at := Some now\<rparr>) db1"
    using assms(2) by (auto simp: challenge_named_def d1 grant_receipt_def set_sql_update map_key_sql_update intro: rev_image_eqI)
  then have refused: "verify_email E pepper raw code' token' now' db1 = (db1, Inl (HttpError 400))"
    by (rule verify_refused) simp_all
  have "List.find (\<lambda>r. r_token_hash r = hash_token E token \<and> r_revoked_at r = None \<and> t < r_expires_at r) (verified_receipts db1)
    = Some \<lparr>r_token_hash = hash_token E token, r_email = ch_email c, r_masked_email = masked,
              r_expires_at = now + days RECEIPT_DAYS, r_last_used_at = now, r_created_at = now, r_revoked_at = None\<rparr>"
    using assms(3,6) by (simp add: d1 grant_receipt_def find_fresh)
  then have "snd (identity E (u ''Bearer '' @ token) t db1) = Some (ch_email c, masked)"
    using assms(4,5) by (simp add: identity_def Let_def u_def startswith_def)
  with refused e show ?thesis by simp
qed

theorem verified_once_then_identified_witness:
  "snd (identity demo_env (u ''Bearer t'') demo_now
     (fst (verify_email demo_env (u ''p'') (PStr (u ''c'')) (PStr (u ''123456'')) (u ''t'') demo_now demo_challenged))) = Some (demo_email, u ''a***@b.cn'')"
proof -
  have m: "mask_email demo_email = Inr (u ''a***@b.cn'')"
    by (simp add: mask_email_def partition_at_def demo_email_def u_def numeral_3_eq_3)
  have "List.find (open_challenge demo_now (u ''c'')) [demo_challenge] = Some demo_challenge"
    by (simp add: open_challenge_def demo_challenge_def demo_now_def duration_defs)
  then obtain db1 where v: "verify_email demo_env (u ''p'') (PStr (u ''c'')) (PStr (u ''123456'')) (u ''t'') demo_now demo_challenged
     = (db1, Inr (u ''t'', demo_email))"
    using m demo_codes_nonempty by (simp add: verify_email_def Let_def demo_codes demo_challenged_def constant_time_equal_def demo_challenge_fields)
  have "t < demo_now + days RECEIPT_DAYS" if "t = demo_now" for t using that by (simp add: duration_defs RECEIPT_DAYS_def)
  with verified_once_then_identified [OF v, of demo_now] m v show ?thesis
    by (simp add: demo_challenged_def demo_db_def has_key_def u_def strip_fixed is_space_def empty_db_def)
qed

lemma contains_middle: "contains (a @ t @ b) t"
  unfolding contains_def list_ex_iff by (rule bexI [of _ "length a"]) auto

lemma ascii_digit_not_space: "is_ascii_digit c \<Longrightarrow> \<not> is_space c"
  by (auto simp: is_ascii_digit_def is_space_def)

text \<open>C33: Codes are rationed and work: an accepted request mails one code, to the normalised address; in the past hour the
  address then has at most three and the client at most twenty challenges; and within ten minutes entering the
  mailed code verifies the address.\<close>

theorem mailed_code_verifies:
  assumes "send_verification_code E pepper raw ip now cid mail_id draw db = (db1, Inr (cid', expires))"
    and "normalize_email E raw = Inr email" "\<not> has_key ch_id cid (verification_challenges db)"
    and "strip cid = cid" "cid \<noteq> []" "t < expires"
  shows "recent_challenges (\<lambda>c. ch_email c = email) now db1 \<le> 3
    \<and> recent_challenges (\<lambda>c. ch_ip_hash c = client_ip_hash E ip pepper) now db1 \<le> 20
    \<and> expires = now + minutes CHALLENGE_MINUTES
    \<and> (\<exists>m. system_email_outbox db1 = system_email_outbox db @ [m] \<and> o_email m = email \<and> o_status m = Pending
        \<and> y_expires_at m = Some expires \<and> contains (o_body m) (random_verification_code draw))
    \<and> snd (verify_email E pepper (PStr cid') (PStr (random_verification_code draw)) token t db1) = Inr (token, email)"
proof -
  let ?code = "random_verification_code draw"
  let ?c = "\<lparr>ch_id = cid, ch_email = email, ch_code_hash = hash_verification_code E cid ?code pepper,
      ch_ip_hash = client_ip_hash E ip pepper, ch_expires_at = now + minutes CHALLENGE_MINUTES, ch_attempts = 0,
      ch_consumed_at = None, ch_created_at = now\<rparr>"
  let ?m = "verification_mail mail_id cid email ?code now (now + minutes CHALLENGE_MINUTES)"
  have few: "recent_challenges (\<lambda>c. ch_email c = email) now db < 3"
      "recent_challenges (\<lambda>c. ch_ip_hash c = client_ip_hash E ip pepper) now db < 20"
    and d1: "db1 = db\<lparr>verification_challenges := verification_challenges db @ [?c], system_email_outbox := system_email_outbox db @ [?m]\<rparr>"
    and r: "cid' = cid" "expires = now + minutes CHALLENGE_MINUTES"
    using assms(1,2) by (auto simp: send_verification_code_def atomically_def Let_def split: if_splits)
  have le: "recent_challenges p now db1 \<le> Suc (recent_challenges p now db)" for p
    by (simp add: recent_challenges_def d1)
  have "list_all is_ascii_digit ?code" "?code \<noteq> []" using random_code_shape [of draw] by auto
  then have code: "strip ?code = ?code" "?code \<noteq> []"
    by (auto simp: list_all_iff ascii_digit_not_space intro!: strip_fixed)
  have found: "List.find (open_challenge t cid) (verification_challenges db1) = Some ?c"
    using assms(3,6) by (simp add: d1 r find_fresh open_challenge_def [abs_def])
  have "64 \<in> set email" using assms(2) by (auto simp: normalize_email_def email_match_def Let_def split: if_splits)
  then obtain masked where "mask_email email = Inr masked" by (auto simp: mask_email_def partition_at_def Let_def)
  then have "snd (verify_email E pepper (PStr cid') (PStr ?code) token t db1) = Inr (token, email)"
    using code found assms(4,5) by (simp add: verify_email_def r str_or_empty_def py_or_def constant_time_equal_def)
  moreover have "contains (o_body ?m) ?code"
    using contains_middle [of "[20320, 30340, 39564, 35777, 30721, 26159, 32]" ?code] by (simp add: verification_mail_def)
  moreover have "o_email ?m = email \<and> o_status ?m = Pending \<and> y_expires_at ?m = Some expires" by (simp add: verification_mail_def r)
  ultimately show ?thesis using few le [of "\<lambda>c. ch_email c = email"] le [of "\<lambda>c. ch_ip_hash c = client_ip_hash E ip pepper"] r
    by (auto simp: d1 [THEN arg_cong [of _ _ system_email_outbox]])
qed

theorem mailed_code_verifies_witness:
  "\<exists>db1 expires. send_verification_code demo_env (u ''p'') (PStr demo_email) (u ''ip'') 0 (u ''c'') (u ''m'') 42 (empty_db 0) = (db1, Inr (u ''c'', expires))
     \<and> snd (verify_email demo_env (u ''p'') (PStr (u ''c'')) (PStr (random_verification_code 42)) (u ''t'') demo_now db1) = Inr (u ''t'', demo_email)"
proof -
  have e: "normalize_email demo_env (PStr demo_email) = Inr demo_email"
    by (simp add: normalize_email_def email_match_def demo_env_def demo_email_def str_or_empty_def py_or_def u_def strip_fixed
        is_space_def upt_rec)
  have s: "send_verification_code demo_env (u ''p'') (PStr demo_email) (u ''ip'') 0 (u ''c'') (u ''m'') 42 (empty_db 0)
    = (fst (send_verification_code demo_env (u ''p'') (PStr demo_email) (u ''ip'') 0 (u ''c'') (u ''m'') 42 (empty_db 0)), Inr (u ''c'', minutes 10))"
    by (simp add: send_verification_code_def e atomically_def Let_def recent_challenges_def empty_db_def CHALLENGE_MINUTES_def)
  have c: "\<not> has_key ch_id (u ''c'') (verification_challenges (empty_db 0))" "strip (u ''c'') = u ''c''" "demo_now < minutes 10"
    by (simp_all add: has_key_def empty_db_def strip_fixed u_def is_space_def demo_now_def duration_defs)
  from mailed_code_verifies [OF s e c(1,2) demo_codes_nonempty(1) c(3), of "u ''t''"] s show ?thesis by blast
qed

section \<open>Subscriptions\<close>

text \<open>What a successful \<open>create_subscription\<close> did.\<close>

definition subscription_added :: "subscription_row \<Rightarrow> instant \<Rightarrow> instant \<Rightarrow> db \<Rightarrow> db \<Rightarrow> bool" where
  "subscription_added row now gen_now db db' \<longleftrightarrow>
     db' = increment_subscription_generations (s_venue_ids row) gen_now
        (db\<lparr>subscriptions := subscriptions (deactivate_expired (s_email row) now db) @ [row],
            subscription_venues := subscription_venues db
              @ map (\<lambda>v. \<lparr>sv_subscription_id = s_id row, sv_venue_id = v\<rparr>) (s_venue_ids row)\<rparr>)
     \<and> s_active row \<and> now < s_active_until row
     \<and> \<not> list_ex (\<lambda>s. s_email s = s_email row \<and> s_dedupe_key s = s_dedupe_key row \<and> s_active s)
           (subscriptions (deactivate_expired (s_email row) now db))"

lemma create_subscription_effect:
  assumes "create_subscription E limits email payload now gen_now sid db = (db', Inr row)"
  shows "subscription_added row now gen_now db db'" "s_id row = sid" "s_email row = email"
    "int (active_count (deactivate_expired email now db) email now) < limits (tier_of db email)"
proof -
  let ?db1 = "deactivate_expired email now db"
  have tier: "tier_of ?db1 email = tier_of db email" by (simp add: tier_of_def is_priority_def deactivate_expired_def)
  obtain si m tm where si: "validate_subscription E payload (tier_of db email = Priority) = Inr si"
    and few: "\<not> limits (tier_of db email) \<le> int (active_count ?db1 email now)"
    and tm: "resolve_term (si_term_code si) now = Inr tm"
    and row: "row = subscription_row_of sid email si m (subscription_dedupe_key E email (si_venue_ids si) (si_start_time si) (si_end_time si) m) tm now"
    and ins: "insert_subscription row gen_now ?db1 = Inr db'"
    using assms unfolding create_subscription_def Let_def atomically_Inr tier
    by (auto simp: ebind_Inr_iff split: sum.splits if_splits)
  show "s_id row = sid" "s_email row = email" by (simp_all add: row subscription_row_of_def)
  show "int (active_count ?db1 email now) < limits (tier_of db email)" using few by simp
  note ok = validate_subscription_ok [OF si, unfolded subscription_input_ok_def]
  have "set STANDARD_TERMS \<subseteq> set PRIORITY_TERMS" by (auto simp: term_codes_eval)
  with ok have "si_term_code si \<in> set PRIORITY_TERMS" by (auto split: if_splits)
  then obtain r where "resolve_term (si_term_code si) now = Inr r" "now + days 7 \<le> rt_active_until r"
    by (rule resolve_term_priority)
  with tm have "now < rt_active_until tm" by (auto simp: duration_defs)
  with ins show "subscription_added row now gen_now db db'"
    by (auto simp: subscription_added_def insert_subscription_def row subscription_row_of_def deactivate_expired_def split: if_splits)
qed

text \<open>C34: Subscriptions stay within bounds: after a successful request the user has no more running subscriptions than
  the tier's limit, the new one is active and runs, and it is the only active one for the same venues, weekdays and window.\<close>

theorem subscription_within_limits:
  assumes "create_subscription E limits email payload now gen_now sid db = (db', Inr row)"
  shows "int (active_count db' email now) \<le> limits (tier_of db email)
    \<and> filter (\<lambda>s. s_email s = email \<and> s_dedupe_key s = s_dedupe_key row \<and> s_active s) (subscriptions db') = [row]
    \<and> now < s_active_until row"
proof -
  note e = create_subscription_effect [OF assms]
  have subs: "subscriptions db' = subscriptions (deactivate_expired email now db) @ [row]"
    using e by (simp add: subscription_added_def increment_subscription_generations_def)
  have act: "s_active row" "now < s_active_until row" using e(1) by (simp_all add: subscription_added_def)
  have "active_count db' email now \<le> Suc (active_count (deactivate_expired email now db) email now)"
    by (simp add: active_count_def subs)
  moreover have "filter (\<lambda>s. s_email s = email \<and> s_dedupe_key s = s_dedupe_key row \<and> s_active s) (subscriptions db') = [row]"
  proof -
    have "filter (\<lambda>s. s_email s = email \<and> s_dedupe_key s = s_dedupe_key row \<and> s_active s) (subscriptions (deactivate_expired email now db)) = []"
      using e by (simp add: subscription_added_def list_ex_iff filter_empty_conv)
    then show ?thesis using act e(3) by (simp add: subs)
  qed
  ultimately show ?thesis using act e(4) by simp
qed

definition sample_input :: subscription_input where
  "sample_input = \<lparr>si_venue_ids = [u ''dsh''], si_weekdays = [1, 2, 3, 4, 5, 6, 7], si_start_time = u ''09:00'', si_end_time = u ''10:00'',
    si_term_code = u ''7d''\<rparr>"

lemma sample_input_valid: "validate_subscription demo_env sample_subscription_json False = Inr sample_input"
proof -
  have v: "is_venue [100, 115, 104]" unfolding is_venue_def VENUES_eval by (simp add: u_def)
  have "u ''7d'' \<in> set STANDARD_TERMS" by (simp add: term_codes_eval)
  then have "[55, 100] \<in> set STANDARD_TERMS" by (simp add: u_def)
  with v show ?thesis
    unfolding validate_subscription_def sample_subscription_json_def sample_input_def
    using sample_times by (simp add: dget_def dget2_def raw_term_code_def normalize_weekdays_def Let_def u_def str_or_empty_def
        py_or_def strip_def lstrip_def is_space_def demo_env_def)
qed

lemma sample_input_mask: "weekday_mask (si_weekdays sample_input) = Inr 127"
  by code_simp

lemma created_demo:
  "\<exists>db1 row. create_subscription demo_env (\<lambda>_. 3) demo_email sample_subscription_json demo_now demo_now (u ''x'') (empty_db 0) = (db1, Inr row)
     \<and> s_venue_ids row = [u ''dsh''] \<and> s_weekday_mask row = 127 \<and> s_start_time row = u ''09:00'' \<and> s_end_time row = u ''10:00''
     \<and> \<not> s_auto_renew row"
proof -
  note sample_input_valid sample_input_mask
  moreover have "\<exists>tm. resolve_term (u ''7d'') demo_now = Inr tm \<and> \<not> rt_auto_renew tm"
    by (simp add: resolve_term_def TERM_DAYS_def u_def)
  moreover have "tier_of (deactivate_expired demo_email demo_now (empty_db 0)) demo_email = Standard"
    "subscriptions (deactivate_expired demo_email demo_now (empty_db 0)) = []"
    by (simp_all add: tier_of_def is_priority_def deactivate_expired_def empty_db_def sql_update_def find_row_def)
  ultimately show ?thesis
    by (auto simp: create_subscription_def atomically_Inr Let_def active_count_def insert_subscription_def subscription_row_of_def
        sample_input_def)
qed

theorem subscription_within_limits_witness:
  "\<exists>db' row. create_subscription demo_env (\<lambda>_. 3) demo_email sample_subscription_json demo_now demo_now (u ''x'') (empty_db 0) = (db', Inr row)
     \<and> int (active_count db' demo_email demo_now) \<le> 3"
  using created_demo subscription_within_limits by fast

lemma generation_incremented:
  "generation_of (increment_subscription_generations vs now db) v = (if v \<in> set vs then generation_of db v + 1 else generation_of db v)"
proof -
  let ?f = "\<lambda>w. upsert g_venue_id (\<lambda>old new. old\<lparr>g_generation := g_generation old + 1, g_updated_at := g_updated_at new\<rparr>)
      \<lparr>g_venue_id = w, g_generation = 1, g_updated_at = now\<rparr>"
  let ?g = "\<lambda>t. case find_row g_venue_id v t of None \<Rightarrow> 0 | Some g \<Rightarrow> g_generation g"
  have one: "?g (?f w t) = (if w = v then ?g t + 1 else ?g t)" for w t
  proof (cases "has_key g_venue_id w t")
    case True
    then have "w = v \<Longrightarrow> find_row g_venue_id v t \<noteq> None" by (simp add: find_row_None)
    with True show ?thesis by (auto simp: upsert_def find_row_sql_update dest: find_row_Some split: option.splits)
  next
    case False
    then have "find_row g_venue_id w t = None" by (simp add: find_row_None)
    with False show ?thesis by (auto simp: upsert_def find_row_append split: option.splits) (auto simp: find_row_def)
  qed
  have "distinct ws \<Longrightarrow> ?g (fold ?f ws t) = (if v \<in> set ws then ?g t + 1 else ?g t)" for ws t
  proof (induction ws arbitrary: t)
    case (Cons w ws)
    then show ?case using Cons.IH [of "?f w t"] one [of w t] by auto
  qed simp
  from this [of "sort (remdups vs)"] show ?thesis by (simp add: increment_subscription_generations_def generation_of_def)
qed

lemma subscription_of_added:
  assumes "subscription_added row now gen_now db db'" "\<not> has_key s_id (s_id row) (subscriptions db)"
  shows "subscription_of db' (s_id row) = Some row"
proof -
  have "\<not> has_key s_id (s_id row) (subscriptions (deactivate_expired e now db))" for e
    using assms(2) by (simp add: deactivate_expired_def has_key_sql_update)
  then have "find_row s_id (s_id row) (subscriptions (deactivate_expired e now db) @ [row]) = Some row" for e
    by (simp add: find_row_append find_row_None [THEN iffD2]) (simp add: find_row_def)
  moreover have "subscriptions db' = subscriptions (deactivate_expired (s_email row) now db) @ [row]"
    using assms(1) by (simp add: subscription_added_def increment_subscription_generations_def)
  ultimately show ?thesis by (simp add: subscription_of_def)
qed

definition active_of :: "db \<Rightarrow> subscription_row \<Rightarrow> active_subscription" where
  "active_of db s = \<lparr>as_id = s_id s, as_email = s_email s, as_start_time = s_start_time s, as_end_time = s_end_time s,
     as_weekday_mask = s_weekday_mask s, as_tier = (if is_priority db (s_email s) then Priority else Standard)\<rparr>"

lemma added_is_active:
  assumes "subscription_added row now gen_now db db'" "\<not> has_key s_id (s_id row) (subscriptions db)"
    "v \<in> set (s_venue_ids row)" "subscription_live db' sqlnow row"
  shows "active_of db' row \<in> set (active_subscriptions db' v sqlnow)"
proof -
  have "subscription_venues db' = subscription_venues db @ map (\<lambda>v. \<lparr>sv_subscription_id = s_id row, sv_venue_id = v\<rparr>) (s_venue_ids row)"
    using assms(1) by (simp add: subscription_added_def increment_subscription_generations_def)
  then have "\<lparr>sv_subscription_id = s_id row, sv_venue_id = v\<rparr> \<in> set (subscription_venues db')" using assms(3) by auto
  then have "row \<in> set (venue_subscription_rows db' v)"
    using subscription_of_added [OF assms(1,2)] by (force simp: venue_subscription_rows_def map_filter_def)
  with assms(4) show ?thesis by (auto simp: active_subscriptions_def active_of_def)
qed

text \<open>
  The history of the subscription generations: the transactions that raise one or record one with an observation, and
  any other transaction, which leaves both tables alone.
\<close>

inductive service_step :: "db \<Rightarrow> db \<Rightarrow> bool" where
  ss_ingest: "ingest_observation E uuid payload parsed now sqlnow db = Inr (db', response) \<Longrightarrow> service_step db db'"
| ss_create: "create_subscription E limits email payload now gen_now sid db = (db', created) \<Longrightarrow> service_step db db'"
| ss_cancel: "cancel_subscription email sid sqlnow gen_now db = (db', cancelled) \<Longrightarrow> service_step db db'"
| ss_pause: "update_notification_pauses email payload now gen_now db = (db', view) \<Longrightarrow> service_step db db'"
| ss_elsewhere: "observation_state db' = observation_state db \<Longrightarrow> subscription_generations db' = subscription_generations db \<Longrightarrow> service_step db db'"

definition service_init :: "db \<Rightarrow> bool" where
  [py_eval]: "service_init db \<longleftrightarrow> observation_state db = []"

text \<open>No observation was recorded with a generation its venue has not reached.\<close>

definition generations_behind :: "db \<Rightarrow> bool" where
  "generations_behind db \<longleftrightarrow> (\<forall>s \<in> set (observation_state db). is_venue (os_venue_id s)
     \<and> (\<exists>scope. os_observation_key s = os_venue_id s @ u '':'' @ scope) \<and> os_subscription_generation s \<le> generation_of db (os_venue_id s))"

lemma generations_behind_mono:
  assumes "generations_behind db" "observation_state db' = observation_state db" "\<And>v. generation_of db v \<le> generation_of db' v"
  shows "generations_behind db'"
  using assms unfolding generations_behind_def by (metis order_trans)

lemma generations_behind_incremented:
  assumes "generations_behind db" "observation_state d = observation_state db" "subscription_generations d = subscription_generations db"
  shows "generations_behind (increment_subscription_generations vs now d)"
proof (rule generations_behind_mono [OF assms(1)])
  show "observation_state (increment_subscription_generations vs now d) = observation_state db"
    using assms(2) by (simp add: increment_subscription_generations_def)
  have "generation_of d v = generation_of db v" for v using assms(3) by (simp add: generation_of_def)
  then show "generation_of db v \<le> generation_of (increment_subscription_generations vs now d) v" for v
    by (simp add: generation_incremented)
qed

lemma update_pauses_frame:
  assumes "update_pauses db email payload now = Inr (db1, view, changed)"
  shows "observation_state db1 = observation_state db" "subscription_generations db1 = subscription_generations db"
proof -
  obtain action dates where "db1 = (case action of Pause \<Rightarrow> do_pause email dates now db | Resume \<Rightarrow> do_resume email dates now db)"
    using update_pauses_db [OF assms] by blast
  moreover have "observation_state (do_pause email dates now db) = observation_state db"
    "subscription_generations (do_pause email dates now db) = subscription_generations db"
    by (simp_all add: do_pause_def Let_def release_unused_claims_def split: list.split)
  ultimately show "observation_state db1 = observation_state db" "subscription_generations db1 = subscription_generations db"
    by (cases action; simp add: do_resume_def)+
qed

lemma generations_behind_updated:
  assumes "generations_behind db" "\<And>s. os_observation_key (f s) = os_observation_key s \<and> os_venue_id (f s) = os_venue_id s
      \<and> os_subscription_generation (f s) = os_subscription_generation s"
  shows "generations_behind (db\<lparr>observation_state := sql_update p f (observation_state db)\<rparr>)"
  using assms by (auto simp: generations_behind_def set_sql_update generation_of_def)

lemma generations_behind_saved:
  assumes "generations_behind db" "is_venue (vo_venue_id ob)" "gen \<le> generation_of db (vo_venue_id ob)"
  shows "generations_behind (save_observation ob fp gen now db)"
proof -
  let ?row = "\<lparr>os_observation_key = observation_key ob, os_venue_id = vo_venue_id ob, os_fingerprint = fp, os_subscription_generation = gen,
     os_last_seen_at = vo_checked_at ob, os_last_matched_at = Some now, os_updated_at = now, os_healthy = False\<rparr>"
  let ?db = "save_observation ob fp gen now db"
  have rows: "s \<in> set (observation_state db) \<or> (\<exists>h. s = ?row\<lparr>os_healthy := h\<rparr>)" if "s \<in> set (observation_state ?db)" for s
    using that by (auto simp: save_observation_def upsert_def set_sql_update split: if_splits)
  have g: "generation_of ?db v = generation_of db v" for v by (simp add: save_observation_def generation_of_def)
  show ?thesis unfolding generations_behind_def g
  proof
    fix s assume "s \<in> set (observation_state ?db)"
    from rows [OF this] show "is_venue (os_venue_id s) \<and> (\<exists>scope. os_observation_key s = os_venue_id s @ u '':'' @ scope)
        \<and> os_subscription_generation s \<le> generation_of db (os_venue_id s)"
    proof
      assume "\<exists>h. s = ?row\<lparr>os_healthy := h\<rparr>"
      then show ?thesis using assms(2,3) by (auto simp: observation_key_def)
    qed (use assms(1) in \<open>simp add: generations_behind_def\<close>)
  qed
qed

lemma ingest_generations:
  assumes "generations_behind db" "ingest_observation E uuid payload parsed now sqlnow db = Inr (db', r)"
  shows "generations_behind db'"
proof -
  obtain ob where ob: "validate_observation E payload parsed = Inr ob" "ingest_validated E uuid ob now sqlnow db = Inr (db', r)"
    using assms(2) by (auto simp: ingest_observation_def ebind_Inr_iff)
  have v: "is_venue (vo_venue_id ob)" using validate_observation_ok [OF ob(1)] by (simp add: observation_ok_def)
  have health: "generations_behind (set_health k b d)" if "generations_behind d" for k b d
    unfolding set_health_def using generations_behind_updated [OF that, of "\<lambda>s. s\<lparr>os_healthy := b\<rparr>"] by simp
  have frame: "generations_behind d'" if "generations_behind d" "observation_state d' = observation_state d" "same_context d d'" for d d'
    using generations_behind_mono [OF that(1,2)] that(3) by (simp add: generation_of_def frame_defs)
  have status: "generations_behind (upsert_status ob now db)"
    by (rule frame [OF assms(1)]) (simp_all add: upsert_status_def frame_defs)
  have fresh: "generations_behind (refreshed E ob now db)"
    unfolding refreshed_def by (rule health, rule frame [OF status]) (simp_all add: replace_availability_frame)
  have touched: "generations_behind (touch_observation ob now (refreshed E ob now db))"
    unfolding touch_observation_def using generations_behind_updated [OF fresh, of "\<lambda>s. s\<lparr>os_last_seen_at := vo_checked_at ob, os_updated_at := now\<rparr>"] by simp
  have matched: "generations_behind (set_health (observation_key ob) (vo_healthy ob) (save_observation ob fp (generation_of db (vo_venue_id ob)) now db3))"
    if m: "match_all E uuid ob rules subs now (refreshed E ob now db) = Inr (db3, n)" for rules subs db3 n fp
  proof (rule health, rule generations_behind_saved [OF _ v])
    have o: "same_observations (refreshed E ob now db) db3" using match_all_observations [OF m] by simp
    then show "generations_behind db3" by (intro frame [OF fresh]) (simp_all add: frame_defs)
    have "same_context db db3" using o refreshed_frame(1) [of db E ob now] by (simp add: frame_defs)
    then show "generation_of db (vo_venue_id ob) \<le> generation_of db3 (vo_venue_id ob)" by (simp add: frame_defs generation_of_def)
  qed
  from ob(2) show ?thesis unfolding ingest_eq Let_def
    by (auto simp: ebind_Inr_iff status touched split: if_split_asm intro: matched)
qed

lemma service_step_generations:
  assumes "service_step db db'" "generations_behind db"
  shows "generations_behind db'"
  using assms
proof cases
  case (ss_ingest E uuid payload parsed now sqlnow response)
  then show ?thesis using ingest_generations assms(2) by blast
next
  case (ss_create E limits email payload now gen_now sid created)
  show ?thesis
  proof (cases created)
    case (Inl e)
    have "db' = db" if "atomically db m = (db', Inl e)" for m :: "api_error + db \<times> subscription_row"
      using that by (cases m) (auto simp: atomically_def)
    then have "db' = db" using ss_create Inl unfolding create_subscription_def by blast
    then show ?thesis using assms(2) by simp
  next
    case (Inr row)
    then show ?thesis using create_subscription_effect(1) [of E limits email payload now gen_now sid db db' row] ss_create
      by (auto simp: subscription_added_def intro!: generations_behind_incremented [OF assms(2)])
  qed
next
  case (ss_cancel email sid sqlnow gen_now cancelled)
  then show ?thesis using assms(2)
    by (auto simp: cancel_subscription_def split: option.splits intro!: generations_behind_incremented [OF assms(2)])
next
  case (ss_pause email payload now gen_now view)
  show ?thesis
  proof (cases "update_pauses db email payload now")
    case (Inl e)
    then have "db' = db" using ss_pause by (simp add: update_notification_pauses_def atomically_def)
    then show ?thesis using assms(2) by simp
  next
    case (Inr r)
    obtain db1 v c where r: "r = (db1, v, c)" by (cases r)
    note f = update_pauses_frame [OF Inr [unfolded r]]
    have "generations_behind db1" using generations_behind_mono [OF assms(2) f(1)] f(2) by (simp add: generation_of_def)
    then show ?thesis using ss_pause Inr r generations_behind_incremented [OF assms(2) f]
      by (auto simp: update_notification_pauses_def atomically_def Let_def split: if_splits)
  qed
next
  case ss_elsewhere
  then show ?thesis using generations_behind_mono [OF assms(2)] by (simp add: generation_of_def)
qed

interpretation service: transition_system service_init service_step generations_behind
  by unfold_locales (simp add: service_init_def generations_behind_def, rule service_step_generations)

text \<open>Keys of observations of different venues differ, so the state found for an observation is one of its venue.\<close>

lemma venue_no_colon: "is_venue v \<Longrightarrow> 58 \<notin> set v"
  unfolding is_venue_def VENUES_eval by (auto simp: u_def)

lemma state_generation:
  assumes "generations_behind db" "state_of db ob = Some s" "is_venue (vo_venue_id ob)"
  shows "os_subscription_generation s \<le> generation_of db (vo_venue_id ob)"
proof -
  have "s \<in> set (observation_state db)" "os_observation_key s = observation_key ob"
    using find_row_Some [OF assms(2) [unfolded state_of_def]] by auto
  then obtain scope where k: "os_venue_id s @ 58 # scope = vo_venue_id ob @ 58 # vo_scope ob" and v: "is_venue (os_venue_id s)"
    and g: "os_subscription_generation s \<le> generation_of db (os_venue_id s)"
    using assms(1) by (auto simp: generations_behind_def observation_key_def u_def)
  have "os_venue_id s = vo_venue_id ob" using split_at_bar [OF k venue_no_colon [OF v] venue_no_colon [OF assms(3)]] by simp
  with g show ?thesis by simp
qed

text \<open>C30: A new subscription is served by the next poll. In any state the service can get into, when a subscription was created under a fresh
  identifier, the next healthy observation of one of its venues, if it is not older than the last one of its scope, is matched although its
  slots may be the same as last time, and every listed slot that has not started, meets the subscription and is of a day the
  subscriber never paused has its notification queued.\<close>

theorem new_subscription_served:
  assumes "reachable service_init service_step db"
    and "create_subscription E limits email payload now gen_now sid db = (db1, Inr row)"
    and "\<not> has_key s_id sid (subscriptions db)" "list_all (\<lambda>e. e_subscription_id e \<noteq> sid) (subscription_events db)"
    and "is_venue (vo_venue_id ob)" "case state_of db ob of None \<Rightarrow> True | Some s \<Rightarrow> os_last_seen_at s \<le> vo_checked_at ob"
    and "vo_venue_id ob \<in> set (s_venue_ids row)" "vo_healthy ob" "slot \<in> set (vo_slots ob)"
    and "later < start_at (booking_date slot) (start_time slot)" "subscription_live db1 sqlnow row"
    and "slot_matches slot (s_weekday_mask row) (s_start_time row) (s_end_time row) = Inr True"
    and "\<not> has_key pause_key (email, booking_date slot) (notification_date_pauses db)"
    and "ingest_validated E uuid ob later sqlnow db1 = Inr (db2, r)"
  shows "has_key notification_key (sid, slot_event_key E (vo_venue_id ob) slot) (notification_outbox db2)"
proof -
  note e = create_subscription_effect [OF assms(2)]
  let ?sub = "active_of db1 row" and ?v = "vo_venue_id ob"
  have frame: "observation_state db1 = observation_state db" "subscription_events db1 = subscription_events db"
    "notification_date_pauses db1 = notification_date_pauses db"
    using e(1) by (simp_all add: subscription_added_def increment_subscription_generations_def)
  have "generation_of db1 ?v = generation_of db ?v + 1"
  proof -
    have "generation_of (db\<lparr>subscriptions := a, subscription_venues := b\<rparr>) ?v = generation_of db ?v" for a b by (simp add: generation_of_def)
    then show ?thesis using e(1) assms(7) by (auto simp: subscription_added_def generation_incremented)
  qed
  moreover have "os_subscription_generation s \<le> generation_of db ?v \<and> os_last_seen_at s \<le> vo_checked_at ob" if "state_of db1 ob = Some s" for s
    using that frame(1) assms(6) state_generation [OF service.reachable_inv [OF assms(1)] _ assms(5)] by (simp add: state_of_def)
  ultimately have fresh: "\<not> is_unchanged (state_of db1 ob) f (generation_of db1 ?v) rs later"
    "(case state_of db1 ob of None \<Rightarrow> False | Some s \<Rightarrow> vo_checked_at ob < os_last_seen_at s) = False" for f rs
    by (fastforce simp: is_unchanged_def split: option.splits)+
  then obtain n m g where "ingest_validated E uuid ob later sqlnow db1 = Inr (db2, Accepted ?v n m False g)"
    using assms(14) unfolding ingest_eq Let_def by (auto simp: ebind_Inr_iff)
  moreover have "?sub \<in> set (active_subscriptions db1 ?v sqlnow)" using added_is_active [OF e(1)] e(2) assms(3,7,11) by simp
  moreover have "slot_matches slot (as_weekday_mask ?sub) (as_start_time ?sub) (as_end_time ?sub) = Inr True"
    using assms(12) by (simp add: active_of_def)
  moreover have "\<not> has_key pause_key (as_email ?sub, booking_date slot) (notification_date_pauses db1)"
    using assms(13) e(3) frame(3) by (simp add: active_of_def)
  ultimately have "has_key event_key_of (as_id ?sub, slot_event_key E ?v slot) (subscription_events db1)
    \<or> has_key notification_key (as_id ?sub, slot_event_key E ?v slot) (notification_outbox db2)"
    using reminder_announced assms(8-10) by blast
  moreover have "\<not> has_key event_key_of (sid, k) (subscription_events db)" for k
    using assms(4) by (auto simp: has_key_def list_ex_iff list_all_iff event_key_of_def)
  ultimately show ?thesis using e(2) frame(2) by (simp add: active_of_def)
qed

lemma match_single:
  assumes "vo_healthy ob" "vo_slots ob = [slot]" "slot_matches slot (as_weekday_mask sub) (as_start_time sub) (as_end_time sub) = Inr b"
  shows "\<exists>d c. match_all E uuid ob rules [sub] now db = Inr (d, c)"
proof -
  have "\<exists>st. match_subscription E uuid ob rules now slot sub (db, 0) = Inr st"
    using assms(3) by (auto simp: match_subscription_def Let_def split: prod.split)
  then obtain st where "match_subscription E uuid ob rules now slot sub (db, 0) = Inr st" ..
  then show ?thesis using assms by (cases st) (simp add: match_all_def match_slot_def)
qed

theorem new_subscription_served_witness:
  "\<exists>db1 row db2 r. create_subscription demo_env (\<lambda>_. 3) demo_email sample_subscription_json demo_now demo_now (u ''x'') (empty_db 0) = (db1, Inr row)
     \<and> ingest_validated demo_env (\<lambda>s e. s @ e) demo_ob demo_now demo_now db1 = Inr (db2, r)
     \<and> has_key notification_key (u ''x'', slot_event_key demo_env (u ''dsh'') demo_seen) (notification_outbox db2)"
proof -
  obtain db1 row where c: "create_subscription demo_env (\<lambda>_. 3) demo_email sample_subscription_json demo_now demo_now (u ''x'') (empty_db 0) = (db1, Inr row)"
    and row: "s_venue_ids row = [u ''dsh'']" "s_weekday_mask row = 127" "s_start_time row = u ''09:00''" "s_end_time row = u ''10:00''" "\<not> s_auto_renew row"
    using created_demo by blast
  note e = create_subscription_effect [OF c]
  have live: "subscription_live db1 demo_now row" using e(1) row(5) by (simp add: subscription_added_def subscription_live_def)
  have m: "slot_matches demo_seen 127 (u ''09:00'') (u ''10:00'') = Inr True"
    using sample_times by (simp add: slot_matches_def demo_seen_def weekday_in_mask_def isoweekday_def)
  then have am: "slot_matches demo_seen (as_weekday_mask (active_of db1 row)) (as_start_time (active_of db1 row)) (as_end_time (active_of db1 row)) = Inr True"
    by (simp add: active_of_def row)
  have one: "vo_slots demo_ob = [demo_seen]" by (simp add: demo_ob_def)
  have "subscription_venues db1 = [\<lparr>sv_subscription_id = s_id row, sv_venue_id = u ''dsh''\<rparr>]"
    using e(1) row(1) by (simp add: subscription_added_def increment_subscription_generations_def empty_db_def)
  moreover have "subscription_of db1 (s_id row) = Some row" using e(1) by (rule subscription_of_added) (simp add: has_key_def empty_db_def)
  ultimately have "active_subscriptions db1 (u ''dsh'') demo_now = [active_of db1 row]"
    using live by (simp add: active_subscriptions_def venue_subscription_rows_def List.map_filter_simps active_of_def)
  moreover obtain d k where "match_all demo_env (\<lambda>s e. s @ e) demo_ob (rules_for db1 demo_ob [active_of db1 row]) [active_of db1 row] demo_now
      (refreshed demo_env demo_ob demo_now db1) = Inr (d, k)"
    using match_single [OF demo_observed(1) one am] by blast
  moreover have "state_of db1 demo_ob = None"
    using e(1) by (simp add: subscription_added_def increment_subscription_generations_def empty_db_def state_of_def find_row_def)
  ultimately obtain db2 r where i: "ingest_validated demo_env (\<lambda>s e. s @ e) demo_ob demo_now demo_now db1 = Inr (db2, r)"
    unfolding ingest_eq Let_def by (simp add: is_unchanged_def demo_observed(3))
  have "has_key notification_key (u ''x'', slot_event_key demo_env (vo_venue_id demo_ob) demo_seen) (notification_outbox db2)"
    by (rule new_subscription_served [OF reach_init c _ _ _ _ _ demo_observed(1,2,4) live _ _ i])
      (use row m in \<open>simp_all add: service_init_def empty_db_def has_key_def demo_observed(3) demo_venue state_of_def find_row_def\<close>)
  with c i demo_observed(3) show ?thesis by auto
qed

lemma cancel_effect:
  assumes "distinct (map s_id (subscriptions db))" "cancel_subscription email sid sqlnow gen_now db = (db', Inr ())"
  obtains s where "subscription_of db sid = Some s" "s_email s = email" "s_active s"
    "db' = increment_subscription_generations (s_venue_ids s) gen_now
       (db\<lparr>subscriptions := sql_update (\<lambda>s. s_id s = sid \<and> s_email s = email) (\<lambda>s. s\<lparr>s_active := False, s_updated_at := sqlnow\<rparr>) (subscriptions db),
           notification_outbox := sql_update (\<lambda>n. n_subscription_id n = sid \<and> is_open (o_status n))
             (withdraw (u ''subscription_cancelled'') sqlnow) (notification_outbox db)\<rparr>)"
proof -
  obtain s where s: "List.find (\<lambda>s. s_id s = sid \<and> s_email s = email \<and> s_active s) (subscriptions db) = Some s"
    and d': "db' = increment_subscription_generations (s_venue_ids s) gen_now
       (db\<lparr>subscriptions := sql_update (\<lambda>s. s_id s = sid \<and> s_email s = email) (\<lambda>s. s\<lparr>s_active := False, s_updated_at := sqlnow\<rparr>) (subscriptions db),
           notification_outbox := sql_update (\<lambda>n. n_subscription_id n = sid \<and> is_open (o_status n))
             (withdraw (u ''subscription_cancelled'') sqlnow) (notification_outbox db)\<rparr>)"
    using assms(2) by (auto simp: cancel_subscription_def split: option.splits)
  have in_db: "s \<in> set (subscriptions db)" "s_id s = sid" "s_email s = email" "s_active s" using s by (auto simp: find_Some_iff)
  moreover have "subscription_of db sid = Some s" using find_row_unique [OF assms(1) in_db(1)] in_db(2) by (simp add: subscription_of_def)
  ultimately show ?thesis using that d' by blast
qed

text \<open>C35: Cancelling withdraws exactly what is open. Only the owner can cancel; afterwards the subscription is inactive, each of its
  notifications that was pending, retrying or claimed is cancelled with the reason and loses its lease, with no other change to it, and every other row of the outbox, the sent
  ones of the same subscription included, is as before. Besides these two tables only the generations change: those of
  the venues of the subscription grow by one. A second attempt by anybody finds nothing.\<close>

theorem cancel_withdraws:
  assumes "distinct (map s_id (subscriptions db))" "cancel_subscription email sid sqlnow gen_now db = (db', Inr ())"
  shows "\<exists>s. subscription_of db sid = Some s \<and> s_email s = email \<and> s_active s
    \<and> list_all2 (\<lambda>x y. y = (if s_id x = sid then x\<lparr>s_active := False, s_updated_at := sqlnow\<rparr> else x)) (subscriptions db) (subscriptions db')
    \<and> list_all2 (\<lambda>n n'. n' = (if n_subscription_id n = sid \<and> o_status n \<in> {Pending, Retry, Processing}
          then n\<lparr>o_status := Cancelled, o_last_error := Some (u ''subscription_cancelled''), o_updated_at := sqlnow, o_lease_owner := None, o_lease_until := None\<rparr> else n))
        (notification_outbox db) (notification_outbox db')
    \<and> (\<forall>v. generation_of db' v = (if v \<in> set (s_venue_ids s) then generation_of db v + 1 else generation_of db v))
    \<and> db'\<lparr>subscriptions := subscriptions db, notification_outbox := notification_outbox db, subscription_generations := subscription_generations db\<rparr> = db
    \<and> cancel_subscription other sid t t' db' = (db', Inl (HttpError 404))"
proof -
  obtain s where s: "subscription_of db sid = Some s" "s_email s = email" "s_active s"
    "db' = increment_subscription_generations (s_venue_ids s) gen_now
       (db\<lparr>subscriptions := sql_update (\<lambda>s. s_id s = sid \<and> s_email s = email) (\<lambda>s. s\<lparr>s_active := False, s_updated_at := sqlnow\<rparr>) (subscriptions db),
           notification_outbox := sql_update (\<lambda>n. n_subscription_id n = sid \<and> is_open (o_status n))
             (withdraw (u ''subscription_cancelled'') sqlnow) (notification_outbox db)\<rparr>)"
    using cancel_effect [OF assms] .
  have f: "subscriptions db' = sql_update (\<lambda>s. s_id s = sid \<and> s_email s = email) (\<lambda>s. s\<lparr>s_active := False, s_updated_at := sqlnow\<rparr>) (subscriptions db)"
    "notification_outbox db' = sql_update (\<lambda>n. n_subscription_id n = sid \<and> is_open (o_status n)) (withdraw (u ''subscription_cancelled'') sqlnow) (notification_outbox db)"
    by (simp_all add: s(4) increment_subscription_generations_def)
  have only: "x = s" if "x \<in> set (subscriptions db)" "s_id x = sid" for x
    using find_row_unique [OF assms(1) that(1)] that(2) s(1) by (simp add: subscription_of_def)
  have "subscriptions db' = sql_update (\<lambda>x. s_id x = sid) (\<lambda>x. x\<lparr>s_active := False, s_updated_at := sqlnow\<rparr>) (subscriptions db)"
    unfolding f(1) sql_update_def using only s(2) by auto
  then have subs: "list_all2 (\<lambda>x y. y = (if s_id x = sid then x\<lparr>s_active := False, s_updated_at := sqlnow\<rparr> else x)) (subscriptions db) (subscriptions db')"
    by (simp add: sql_update_def list_all2_map2 list_all2_same)
  have outbox: "list_all2 (\<lambda>n n'. n' = (if n_subscription_id n = sid \<and> o_status n \<in> {Pending, Retry, Processing}
          then n\<lparr>o_status := Cancelled, o_last_error := Some (u ''subscription_cancelled''), o_updated_at := sqlnow, o_lease_owner := None, o_lease_until := None\<rparr> else n)) (notification_outbox db) (notification_outbox db')"
    unfolding f(2) by (simp add: sql_update_def list_all2_map2 list_all2_same withdraw_def is_open_def) blast
  have "\<not> s_active y" if y: "y \<in> set (subscriptions db')" "s_id y = sid" for y
  proof -
    obtain x where x: "x \<in> set (subscriptions db)"
      "y = (if s_id x = sid \<and> s_email x = email then x\<lparr>s_active := False, s_updated_at := sqlnow\<rparr> else x)"
      using in_sql_update [OF y(1) [unfolded f(1)]] by blast
    then have "s_id x = sid" using y(2) by (simp split: if_split_asm)
    then show ?thesis using x only [OF x(1)] s(2) by simp
  qed
  then have "List.find (\<lambda>s. s_id s = sid \<and> s_email s = other \<and> s_active s) (subscriptions db') = None" by (auto simp: find_None_iff)
  then have again: "cancel_subscription other sid t t' db' = (db', Inl (HttpError 404))" by (simp add: cancel_subscription_def)
  have gen: "generation_of db' v = (if v \<in> set (s_venue_ids s) then generation_of db v + 1 else generation_of db v)" for v
    unfolding s(4) generation_incremented by (simp add: generation_of_def)
  have "db'\<lparr>subscriptions := subscriptions db, notification_outbox := notification_outbox db, subscription_generations := subscription_generations db\<rparr> = db"
    by (simp add: s(4) increment_subscription_generations_def)
  with s subs outbox gen again show ?thesis by blast
qed

theorem cancel_withdraws_witness:
  "\<exists>db' n'. cancel_subscription demo_email (u ''s'') demo_now demo_now demo_db = (db', Inr ()) \<and> notification_outbox db' = [n'] \<and> o_status n' = Cancelled
     \<and> generation_of db' (u ''dsh'') = 1 \<and> cancel_subscription demo_email (u ''s'') demo_now demo_now db' = (db', Inl (HttpError 404))"
proof -
  have f: "List.find (\<lambda>s. s_id s = u ''s'' \<and> s_email s = demo_email \<and> s_active s) (subscriptions demo_db) = Some demo_subscription"
    "subscription_of demo_db (u ''s'') = Some demo_subscription" "s_venue_ids demo_subscription = [u ''dsh'']" "generation_of demo_db (u ''dsh'') = 0"
    by (simp_all add: demo_db_def demo_subscription_def subscription_of_def find_row_def generation_of_def empty_db_def)
  have n: "notification_outbox demo_db = [demo_note]" "n_subscription_id demo_note = u ''s''" "o_status demo_note = Pending"
    by (simp_all add: demo_db_def demo_note_def new_notification_def)
  obtain db' where c: "cancel_subscription demo_email (u ''s'') demo_now demo_now demo_db = (db', Inr ())"
    using f(1) by (simp add: cancel_subscription_def)
  have "distinct (map s_id (subscriptions demo_db))" by (simp add: demo_db_def)
  from cancel_withdraws [OF this c, of demo_email demo_now demo_now] show ?thesis
    using c f(2-4) n by (auto simp: list_all2_Cons1)
qed

section \<open>Invitations\<close>

lemma priority_made: "is_priority (make_priority email i now db) email"
proof -
  let ?r = "\<lparr>t_email = email, t_tier = Priority, t_source_invite_id = Some i, t_created_at = now, t_updated_at = now, t_revoked_at = None\<rparr>"
  have "find_row t_email email (user_delivery_tiers (make_priority email i now db)) = Some (case find_row t_email email (user_delivery_tiers db) of
     None \<Rightarrow> ?r | Some old \<Rightarrow> old\<lparr>t_tier := Priority, t_source_invite_id := Some i, t_updated_at := now, t_revoked_at := None\<rparr>)"
    using find_row_upsert_keyed [of t_email "\<lambda>old new. old\<lparr>t_tier := Priority, t_source_invite_id := t_source_invite_id new,
        t_updated_at := t_updated_at new, t_revoked_at := None\<rparr>" ?r "user_delivery_tiers db"]
    by (simp add: make_priority_def split: option.splits)
  then show ?thesis by (simp add: is_priority_def split: option.splits)
qed

text \<open>C36: An invitation code grants priority once: redeeming it makes the user a priority user and marks the code used
  by this user, and from then on the code is refused for everybody, while each refusal is counted.\<close>

theorem invite_redeemed_once:
  assumes "redeem_priority E pepper email raw ip now aid db = (db', Inr ())"
    and "distinct (map iv_code_hash (priority_invite_codes db))" "distinct (map iv_id (priority_invite_codes db))"
  shows "is_priority db' email
    \<and> (\<exists>i. i \<in> set (priority_invite_codes db') \<and> iv_redeemed_by i = Some email \<and> Inr (iv_code_hash i) = hash_invite_code E raw pepper)
    \<and> snd (redeem_priority E pepper other raw ip' later aid' db') \<in> {Inl (HttpError 400), Inl (HttpError 429)}"
proof -
  obtain h row where h: "hash_invite_code E raw pepper = Inr h"
    and row: "List.find (redeemable h now) (priority_invite_codes db) = Some row"
    and d': "db' = make_priority email (iv_id row) now (db\<lparr>priority_invite_attempts := priority_invite_attempts db
        @ [\<lparr>ia_id = aid, ia_email = email, ia_ip_hash = ip, ia_success = True, ia_created_at = now\<rparr>],
        priority_invite_codes := sql_update (\<lambda>i. iv_id i = iv_id row)
          (\<lambda>i. i\<lparr>iv_redeemed_by := Some email, iv_redeemed_at := Some now, iv_updated_at := now\<rparr>) (priority_invite_codes db)\<rparr>)"
    using assms(1) by (auto simp: redeem_priority_def Let_def split: sum.splits if_splits option.splits)
  have r: "row \<in> set (priority_invite_codes db)" "iv_code_hash row = h" using row by (auto simp: find_Some_iff redeemable_def)
  let ?u = "\<lambda>i. i\<lparr>iv_redeemed_by := Some email, iv_redeemed_at := Some now, iv_updated_at := now\<rparr>"
  have codes: "priority_invite_codes db' = sql_update (\<lambda>i. iv_id i = iv_id row) ?u (priority_invite_codes db)"
    by (simp add: d' make_priority_def)
  have "is_priority db' email" unfolding d' by (rule priority_made)
  moreover have "?u row \<in> set (priority_invite_codes db')" using r(1) by (auto simp: codes set_sql_update intro: rev_image_eqI)
  moreover have "\<not> redeemable h later i" if "i \<in> set (priority_invite_codes db')" for i
  proof -
    obtain q where q: "q \<in> set (priority_invite_codes db)" "i = (if iv_id q = iv_id row then ?u q else q)"
      using \<open>i \<in> set (priority_invite_codes db')\<close> unfolding codes by (auto dest: in_sql_update)
    show ?thesis
    proof (cases "iv_code_hash q = h")
      case True
      then have "q = row" using key_unique [OF assms(2) q(1) r(1)] r(2) by simp
      with q show ?thesis by (simp add: redeemable_def)
    qed (use q in \<open>simp add: redeemable_def\<close>)
  qed
  then have "List.find (redeemable h later) (priority_invite_codes db') = None" by (simp add: find_None_iff)
  then have "snd (redeem_priority E pepper other raw ip' later aid' db') \<in> {Inl (HttpError 400), Inl (HttpError 429)}"
    by (simp add: redeem_priority_def h Let_def)
  ultimately show ?thesis using h r(2) by auto
qed

definition demo_code :: pystr where
  "demo_code = generate_invite_code [0, 1, 2, 3, 4, 5] 0 0"

lemma demo_code_normal: "normalize_invite_code demo_env (PStr demo_code) = Inr demo_code"
  unfolding demo_code_def by (rule normalize_generated) (simp_all add: demo_env_def)

definition demo_invited :: db where
  "demo_invited = (empty_db 0)\<lparr>priority_invite_codes :=
     [new_invite (u ''i'') (hmac_hex demo_env (u ''p'') demo_code) demo_code [] (days 30) None 0]\<rparr>"

theorem invite_redeemed_once_witness:
  "\<exists>db'. redeem_priority demo_env (u ''p'') demo_email (PStr demo_code) [] demo_now (u ''a'') demo_invited = (db', Inr ())
     \<and> is_priority db' demo_email"
proof -
  have h: "hash_invite_code demo_env (PStr demo_code) (u ''p'') = Inr (hmac_hex demo_env (u ''p'') demo_code)"
    by (simp add: hash_invite_code_def demo_code_normal)
  have "redeemable (hmac_hex demo_env (u ''p'') demo_code) demo_now (new_invite (u ''i'') (hmac_hex demo_env (u ''p'') demo_code) demo_code [] (days 30) None 0)"
    by (simp add: redeemable_def new_invite_def demo_now_def duration_defs)
  then obtain db' where r: "redeem_priority demo_env (u ''p'') demo_email (PStr demo_code) [] demo_now (u ''a'') demo_invited = (db', Inr ())"
    by (simp add: redeem_priority_def h Let_def demo_invited_def empty_db_def)
  have "distinct (map iv_code_hash (priority_invite_codes demo_invited))" "distinct (map iv_id (priority_invite_codes demo_invited))"
    by (simp_all add: demo_invited_def)
  from invite_redeemed_once [OF r this] r show ?thesis by blast
qed

lemma coffee_claimed:
  assumes "coffee_invite E enc decr pepper email raw code iid now db = (db', Inr (c, False, st))"
    and h: "hash_invite_code E (PStr code) pepper = Inr hash" "encrypt_invite_code E enc code pepper = Inr stored"
  obtains key ip where "\<not> has_key cc_email email (coffee_invite_claims db)" "\<not> has_key iv_id iid (priority_invite_codes db)"
    "coffee_invite_claims db' = coffee_invite_claims db @ [\<lparr>cc_email = email, cc_session_id = key, cc_invite_id = iid, cc_ip_hash = ip, cc_claimed_at = now\<rparr>]"
    "priority_invite_codes db' = priority_invite_codes db
       @ [new_invite iid hash stored (code_hint code) (now + days 30) (Some (u ''coffee-support'')) now]" "c = code"
proof -
  obtain sid sep sec where p: "partition_at 46 (str_or_empty E raw) = (sid, sep, sec)" by (rule prod_cases3)
  let ?old = "Option.bind (find_row cc_email email (coffee_invite_claims db)) (\<lambda>c. find_row iv_id (cc_invite_id c) (priority_invite_codes db))"
  let ?key = "sid @ u '':'' @ hash_token E sec"
  note eq = assms(1) [unfolded coffee_invite_def p prod.case Let_def h sum.case]
  from eq have s: "sep" by (cases sep) simp_all
  with eq have n: "?old = None" by (cases ?old) (auto split: option.split_asm if_split_asm)
  with eq s obtain session where f: "List.find (\<lambda>s. cs_id s = ?key \<and> cs_email s = email) (coffee_invite_sessions db) = Some session"
    by (auto split: option.split_asm)
  from eq s n f show thesis
    by (simp add: atomically_def split: if_split_asm) (auto intro: that)
qed

text \<open>A coffee supporter gets one code: after the first claim every further claim of this user, with whatever
  session, returns the same code and leaves the database as it is.\<close>

theorem coffee_code_stable:
  assumes "coffee_invite E enc decr pepper email raw code iid now db = (db', Inr (c, False, st))"
    and "normalize_invite_code E (PStr code) = Inr code"
    and "\<And>text. enc pepper text \<noteq> [] \<and> decr pepper (enc pepper text) = Some text"
    and "46 \<in> set (str_or_empty E raw')"
  shows "c = code \<and> (\<exists>st'. coffee_invite E enc decr pepper email raw' other iid' later db' = (db', Inr (code, True, st')))"
proof -
  have sep: "\<exists>a r. partition_at 46 (str_or_empty E raw') = (a, True, r)" using assms(4) by (simp add: partition_at_def)
  have h: "hash_invite_code E (PStr code) pepper = Inr (hmac_hex E pepper code)" "encrypt_invite_code E enc code pepper = Inr (enc pepper code)"
    using assms(2) by (simp_all add: hash_invite_code_def encrypt_invite_code_def)
  let ?i = "new_invite iid (hmac_hex E pepper code) (enc pepper code) (code_hint code) (now + days 30) (Some (u ''coffee-support'')) now"
  obtain key ip where fresh: "\<not> has_key cc_email email (coffee_invite_claims db)" "\<not> has_key iv_id iid (priority_invite_codes db)"
    and "coffee_invite_claims db' = coffee_invite_claims db @ [\<lparr>cc_email = email, cc_session_id = key, cc_invite_id = iid, cc_ip_hash = ip, cc_claimed_at = now\<rparr>]"
    and "priority_invite_codes db' = priority_invite_codes db @ [?i]" and c: "c = code"
    using assms(1) by (rule coffee_claimed [OF _ h])
  then have "find_row cc_email email (coffee_invite_claims db') = Some \<lparr>cc_email = email, cc_session_id = key, cc_invite_id = iid, cc_ip_hash = ip, cc_claimed_at = now\<rparr>"
    "find_row iv_id iid (priority_invite_codes db') = Some ?i"
    using fresh [folded find_row_None] by (simp_all add: find_row_append) (simp_all add: find_row_def new_invite_def)
  moreover have "decrypt_invite_code decr (iv_encrypted_code ?i) pepper = Some code" "code \<noteq> []"
  proof -
    show "decrypt_invite_code decr (iv_encrypted_code ?i) pepper = Some code"
      using assms(3) by (simp add: decrypt_invite_code_def new_invite_def)
    have "join (u ''-'') parts \<noteq> []" if "invite_parts_ok parts" for parts
      using that by (auto simp: invite_parts_ok_def INVITE_PREFIX_def u_def split: list.splits)
    then show "code \<noteq> []" using assms(2) by (auto simp: normalize_invite_code_def Let_def split: if_splits)
  qed
  ultimately show ?thesis using sep c by (auto simp: coffee_invite_def Let_def)
qed

definition demo_coffee :: db where
  "demo_coffee = (empty_db 0)\<lparr>coffee_invite_sessions := [\<lparr>cs_id = u ''s:x'', cs_email = demo_email, cs_ip_hash = [],
     cs_shown_at = 0, cs_claimable_at = seconds 5, cs_expires_at = minutes 10, cs_consumed_at = None, cs_created_at = 0\<rparr>]\<rparr>"

section \<open>Errors the handlers do not expect\<close>

text \<open>C37: A subscription that renews itself blocks its own replacement: when an active subscription with the same venues, weekdays
  and window has run past its end and is only kept for renewal, the check for a duplicate does not see it and the insert
  violates the unique index, so the request fails with a database error instead of the answer 409.\<close>

theorem lapsed_renewal_raises_unique_violation:
  assumes "s \<in> set (subscriptions db)" "s_email s = email" "s_active s" "s_auto_renew s" "s_active_until s \<le> now"
    and "validate_subscription E payload (tier_of db email = Priority) = Inr si" "weekday_mask (si_weekdays si) = Inr wmask"
    and "s_dedupe_key s = Some (subscription_dedupe_key E email (si_venue_ids si) (si_start_time si) (si_end_time si) wmask)"
    and "int (active_count (deactivate_expired email now db) email now) < limits (tier_of db email)"
    and "\<And>x. x \<in> set (subscriptions db) \<Longrightarrow> s_email x = email \<Longrightarrow> s_active x \<Longrightarrow> s_dedupe_key x = s_dedupe_key s \<Longrightarrow> s_active_until x \<le> now"
  shows "create_subscription E limits email payload now gen_now sid db = (db, Inl UniqueViolation)"
proof -
  let ?db1 = "deactivate_expired email now db"
  let ?key = "subscription_dedupe_key E email (si_venue_ids si) (si_start_time si) (si_end_time si) wmask"
  have tier: "tier_of ?db1 email = tier_of db email" by (simp add: tier_of_def is_priority_def deactivate_expired_def)
  have db1_rows: "subscriptions ?db1 = sql_update (\<lambda>s. s_email s = email \<and> s_active s \<and> s_active_until s \<le> now \<and> \<not> s_auto_renew s)
     (\<lambda>s. s\<lparr>s_active := False, s_updated_at := now\<rparr>) (subscriptions db)" by (simp add: deactivate_expired_def)
  have kept: "s \<in> set (subscriptions ?db1)" using assms(1,4) unfolding db1_rows set_sql_update by (auto intro: rev_image_eqI)
  have "\<not> (s_email x = email \<and> s_dedupe_key x = Some ?key \<and> s_active x \<and> now < s_active_until x)" if m: "x \<in> set (subscriptions ?db1)" for x
  proof -
    obtain y where "y \<in> set (subscriptions db)" "x = (if s_email y = email \<and> s_active y \<and> s_active_until y \<le> now \<and> \<not> s_auto_renew y
        then y\<lparr>s_active := False, s_updated_at := now\<rparr> else y)"
      using in_sql_update [OF m [unfolded db1_rows]] by blast
    then show ?thesis using assms(10) [of y] assms(8) by auto
  qed
  then have unseen: "\<not> list_ex (\<lambda>s. s_email s = email \<and> s_dedupe_key s = Some ?key \<and> s_active s \<and> now < s_active_until s) (subscriptions ?db1)"
    by (auto simp: list_ex_iff)
  note ok = validate_subscription_ok [OF assms(6), unfolded subscription_input_ok_def]
  have "set STANDARD_TERMS \<subseteq> set PRIORITY_TERMS" by (auto simp: term_codes_eval)
  with ok have "si_term_code si \<in> set PRIORITY_TERMS" by (auto split: if_splits)
  then obtain tm where tm: "resolve_term (si_term_code si) now = Inr tm" by (rule resolve_term_priority)
  have "insert_subscription (subscription_row_of sid email si wmask ?key tm now) gen_now ?db1 = Inl UniqueViolation"
    using kept assms(2,3,8) by (auto simp: insert_subscription_def subscription_row_of_def list_ex_iff)
  then show ?thesis
    using assms(6,7,9) unseen tm by (simp add: create_subscription_def Let_def tier atomically_def)
qed

theorem lapsed_renewal_raises_unique_violation_witness:
  "snd (create_subscription demo_env (\<lambda>_. 3) demo_email sample_subscription_json demo_now demo_now (u ''x'')
     ((empty_db 0)\<lparr>subscriptions := [demo_subscription\<lparr>s_auto_renew := True, s_active_until := 0,
        s_dedupe_key := Some (subscription_dedupe_key demo_env demo_email [u ''dsh''] (u ''09:00'') (u ''10:00'') 127)\<rparr>]\<rparr>)) = Inl UniqueViolation"
  (is "snd (create_subscription _ _ _ _ _ _ _ ?db) = _")
proof -
  have t: "tier_of ?db demo_email = Standard" by (simp add: tier_of_def is_priority_def empty_db_def find_row_def)
  then have v: "validate_subscription demo_env sample_subscription_json (tier_of ?db demo_email = Priority) = Inr sample_input"
    using sample_input_valid by simp
  have "create_subscription demo_env (\<lambda>_. 3) demo_email sample_subscription_json demo_now demo_now (u ''x'') ?db = (?db, Inl UniqueViolation)"
    by (rule lapsed_renewal_raises_unique_violation [OF _ _ _ _ _ v sample_input_mask])
      (auto simp: demo_subscription_def t sample_input_def active_count_def deactivate_expired_def sql_update_def
        demo_now_def duration_defs)
  then show ?thesis by simp
qed

end
