(* ===== verification/Ledger.thy ===== *)
theory Ledger
  imports PyJson PyDate
begin

text \<open>
  The sender agent's durable ledger (\<open>sender_agent/ledger.py\<close>): one row per idempotency key in
  a SQLite table, with the operations that claim a key, cross the irreversible boundary, and record
  the outcome. Each operation is one SQLite transaction.
\<close>

section \<open>Rows and operations\<close>

datatype send_status = LPreparing | LDispatching | LSent | LSubmissionUnknown | LNotSubmitted

text \<open>\<open>result_json\<close> holds what \<open>json.loads\<close> reads back of the stored payload.\<close>

record send_row =
  sn_idempotency_key :: pystr
  sn_payload_hash :: pystr
  sn_status :: send_status
  sn_result :: "pyval option"
  sn_created_at :: instant
  sn_updated_at :: instant

type_synonym ledger = "send_row list"

datatype ledger_error = NotAcknowledged | NoStoredResult

datatype claim_phase = PhaseConflict | PhaseSent pyval | PhaseClaimed | PhaseUnknown

definition set_preparing :: "instant \<Rightarrow> send_row \<Rightarrow> send_row" where
  [py_eval]: "set_preparing now r = r\<lparr>sn_status := LPreparing, sn_result := None, sn_updated_at := now\<rparr>"

definition ledger_claim ::
    "pystr \<Rightarrow> pystr \<Rightarrow> bool \<Rightarrow> instant \<Rightarrow> ledger \<Rightarrow> ledger_error + (ledger \<times> claim_phase)" where
  "ledger_claim key payload_hash preparing now t =
     (case find_row sn_idempotency_key key t of
        Some row \<Rightarrow>
          if sn_payload_hash row \<noteq> payload_hash then Inr (t, PhaseConflict)
          else if sn_status row = LSent then
            (case sn_result row of None \<Rightarrow> Inl NoStoredResult | Some v \<Rightarrow> Inr (t, PhaseSent v))
          else if preparing \<and> (sn_status row = LPreparing \<or> sn_status row = LNotSubmitted) then
            Inr (sql_update (\<lambda>r. sn_idempotency_key r = key) (set_preparing now) t, PhaseClaimed)
          else Inr (t, PhaseUnknown)
      | None \<Rightarrow>
          Inr (t @ [\<lparr>sn_idempotency_key = key, sn_payload_hash = payload_hash,
                     sn_status = (if preparing then LPreparing else LDispatching), sn_result = None,
                     sn_created_at = now, sn_updated_at = now\<rparr>], PhaseClaimed))"

text \<open>The rowcount of the update is the number of rows that satisfy its condition.\<close>

definition mark_submitting :: "pystr \<Rightarrow> instant \<Rightarrow> ledger \<Rightarrow> ledger_error + ledger" where
  "mark_submitting key now t =
     (let p = (\<lambda>r. sn_idempotency_key r = key \<and> sn_status r = LPreparing) in
      if length (filter p t) \<noteq> 1 then Inl NotAcknowledged
      else Inr (sql_update p (\<lambda>r. r\<lparr>sn_status := LDispatching, sn_updated_at := now\<rparr>) t))"

text \<open>
  \<open>finish\<close>; the outcomes it accepts are a type, so that the ValueError for any other status
  cannot arise. A result that is falsy is stored as NULL.
\<close>

datatype ledger_outcome = OSent | OSubmissionUnknown | ONotSubmitted

definition outcome_status :: "ledger_outcome \<Rightarrow> send_status" where
  [py_eval]: "outcome_status out = (case out of OSent \<Rightarrow> LSent | OSubmissionUnknown \<Rightarrow> LSubmissionUnknown
     | ONotSubmitted \<Rightarrow> LNotSubmitted)"

definition ledger_finish :: "pystr \<Rightarrow> ledger_outcome \<Rightarrow> pyval \<Rightarrow> instant \<Rightarrow> ledger \<Rightarrow> ledger" where
  "ledger_finish key out payload now t =
     sql_update (\<lambda>r. sn_idempotency_key r = key \<and> (sn_status r = LPreparing \<or> sn_status r = LDispatching)
         \<and> (out \<noteq> ONotSubmitted \<or> sn_status r = LPreparing))
       (\<lambda>r. r\<lparr>sn_status := outcome_status out, sn_result := (if truthy payload then Some payload else None),
             sn_updated_at := now\<rparr>) t"

record ledger_evidence =
  ev_status :: send_status
  ev_updated_at :: instant
  ev_confirmed :: bool
  ev_sent_count :: pyval

text \<open>
  \<open>lookup\<close>: \<open>None\<close> is the answer \<open>not_found\<close>. A payload is always stored as an object.
\<close>

definition ledger_lookup :: "pystr \<Rightarrow> pystr \<Rightarrow> ledger \<Rightarrow> ledger_evidence option" where
  "ledger_lookup key payload_hash t =
     map_option (\<lambda>row.
         let payload = (case sn_result row of Some (PDict d) \<Rightarrow> d | _ \<Rightarrow> []) in
         \<lparr>ev_status = sn_status row, ev_updated_at = sn_updated_at row,
          ev_confirmed = (sn_status row = LSent \<and> dget payload (u ''success'') = PBool True),
          ev_sent_count = (case map_of payload (u ''sent_count'') of Some v \<Rightarrow> v | None \<Rightarrow> PInt 0)\<rparr>)
       (List.find (\<lambda>r. sn_idempotency_key r = key \<and> sn_payload_hash r = payload_hash) t)"

section \<open>The irreversible boundary\<close>

text \<open>
  A store whose operations move keys over a boundary that no operation leads back over. Along every
  sequence of operations each key crosses it at most once.
\<close>

primrec crossings :: "('a \<Rightarrow> 's \<Rightarrow> 's) \<Rightarrow> ('a \<Rightarrow> 's \<Rightarrow> 'k option) \<Rightarrow> 'a list \<Rightarrow> 's \<Rightarrow> 'k list" where
  "crossings step crosses [] s = []"
| "crossings step crosses (p # ps) s =
     (case crosses p s of None \<Rightarrow> [] | Some k \<Rightarrow> [k]) @ crossings step crosses ps (step p s)"

locale one_way_boundary =
  fixes inv :: "'s \<Rightarrow> bool"
    and step :: "'a \<Rightarrow> 's \<Rightarrow> 's"
    and crosses :: "'a \<Rightarrow> 's \<Rightarrow> 'k option"
    and crossed :: "'s \<Rightarrow> 'k \<Rightarrow> bool"
  assumes inv_step: "inv s \<Longrightarrow> inv (step p s)"
    and crosses_new: "inv s \<Longrightarrow> crosses p s = Some k \<Longrightarrow> \<not> crossed s k \<and> crossed (step p s) k"
    and crossed_stays: "inv s \<Longrightarrow> crossed s k \<Longrightarrow> crossed (step p s) k"
begin

lemma crossed_never_again: "inv s \<Longrightarrow> crossed s k \<Longrightarrow> k \<notin> set (crossings step crosses ps s)"
proof (induction ps arbitrary: s)
  case (Cons p ps)
  then show ?case using crossed_stays [of s k p] crosses_new [of s p k] inv_step by (auto split: option.splits)
qed simp

lemma crossings_distinct: "inv s \<Longrightarrow> distinct (crossings step crosses ps s)"
proof (induction ps arbitrary: s)
  case (Cons p ps)
  then show ?case using crosses_new crossed_never_again inv_step by (auto split: option.splits)
qed simp

lemma run_keeps: "inv s \<Longrightarrow> inv (fold step ps s) \<and> (crossed s k \<longrightarrow> crossed (fold step ps s) k)"
  by (induction ps arbitrary: s) (auto intro: crossed_stays inv_step)

end

text \<open>A key has crossed when its row is past \<open>preparing\<close> and was not recorded as not submitted.\<close>

definition past_boundary :: "send_status \<Rightarrow> bool" where
  [py_eval]: "past_boundary s \<longleftrightarrow> s = LDispatching \<or> s = LSent \<or> s = LSubmissionUnknown"

definition crossed_key :: "ledger \<Rightarrow> pystr \<Rightarrow> bool" where
  "crossed_key t k \<longleftrightarrow> (case find_row sn_idempotency_key k t of None \<Rightarrow> False | Some r \<Rightarrow> past_boundary (sn_status r))"

definition ledger_inv :: "ledger \<Rightarrow> bool" where
  "ledger_inv t \<longleftrightarrow> distinct (map sn_idempotency_key t)"

text \<open>What the operations do to the row of a key; the rows of other keys stay.\<close>

lemma find_row_update_keyed:
  assumes "\<And>r. key (f r) = key r"
  shows "find_row key k (sql_update (\<lambda>r. key r = c \<and> p r) f t) = map_option (\<lambda>r. if k = c \<and> p r then f r else r) (find_row key k t)"
  using assms by (auto simp: find_row_sql_update dest: find_row_Some intro!: option.map_cong)

lemma find_row_snoc:
  "find_row key k (t @ [r]) = (case find_row key k t of Some x \<Rightarrow> Some x | None \<Rightarrow> if key r = k then Some r else None)"
  by (induction t) (auto simp: find_row_def)

lemma claim_cases:
  assumes "ledger_claim key h b now t = Inr (t', ph)"
  obtains (new) r where "find_row sn_idempotency_key key t = None" "ph = PhaseClaimed" "t' = t @ [r]"
      "sn_idempotency_key r = key" "sn_payload_hash r = h" "sn_status r = (if b then LPreparing else LDispatching)"
  | (again) r where "find_row sn_idempotency_key key t = Some r" "ph = PhaseClaimed" "sn_payload_hash r = h" b
      "sn_status r = LPreparing \<or> sn_status r = LNotSubmitted"
      "t' = sql_update (\<lambda>r. sn_idempotency_key r = key) (set_preparing now) t"
  | (kept) r where "find_row sn_idempotency_key key t = Some r" "ph \<noteq> PhaseClaimed" "t' = t"
  using assms unfolding ledger_claim_def by (auto split: option.splits if_splits)

lemma claim_rows:
  assumes "ledger_claim key h b now t = Inr (t', ph)"
  shows "ledger_inv t \<Longrightarrow> ledger_inv t'"
    "k \<noteq> key \<Longrightarrow> find_row sn_idempotency_key k t' = find_row sn_idempotency_key k t"
    "ph \<noteq> PhaseClaimed \<Longrightarrow> t' = t"
    "ph = PhaseClaimed \<Longrightarrow> b \<Longrightarrow> \<exists>r. find_row sn_idempotency_key key t' = Some r \<and> sn_payload_hash r = h \<and> sn_status r = LPreparing"
    "ph = PhaseClaimed \<Longrightarrow> \<not> crossed_key t key"
proof -
  have keyed: "sn_idempotency_key (set_preparing now r) = sn_idempotency_key r" for r by (simp add: set_preparing_def)
  note again_row = find_row_update_keyed [where key = sn_idempotency_key and p = "\<lambda>_. True" and f = "set_preparing now", OF keyed, simplified]
  from assms show "ledger_inv t \<Longrightarrow> ledger_inv t'"
    by (cases rule: claim_cases) (simp_all add: ledger_inv_def find_row_None has_key_iff map_key_sql_update keyed)
  from assms show "k \<noteq> key \<Longrightarrow> find_row sn_idempotency_key k t' = find_row sn_idempotency_key k t"
    by (cases rule: claim_cases) (simp_all add: find_row_snoc again_row option.map_ident split: option.splits)
  from assms show "ph \<noteq> PhaseClaimed \<Longrightarrow> t' = t" by (cases rule: claim_cases) simp_all
  from assms show "ph = PhaseClaimed \<Longrightarrow> b \<Longrightarrow> \<exists>r. find_row sn_idempotency_key key t' = Some r \<and> sn_payload_hash r = h \<and> sn_status r = LPreparing"
    by (cases rule: claim_cases) (simp_all add: find_row_snoc again_row set_preparing_def)
  from assms show "ph = PhaseClaimed \<Longrightarrow> \<not> crossed_key t key"
    by (cases rule: claim_cases) (auto simp: crossed_key_def past_boundary_def)
qed

lemma mark_rows:
  assumes "mark_submitting key now t = Inr t'"
  shows "ledger_inv t \<Longrightarrow> ledger_inv t'"
    "find_row sn_idempotency_key k t' = map_option (\<lambda>r. if k = key \<and> sn_status r = LPreparing
       then r\<lparr>sn_status := LDispatching, sn_updated_at := now\<rparr> else r) (find_row sn_idempotency_key k t)"
  using assms
  by (auto simp: mark_submitting_def ledger_inv_def Let_def map_key_sql_update find_row_update_keyed split: if_splits)

lemma mark_succeeds_iff:
  assumes "ledger_inv t"
  shows "(\<exists>t'. mark_submitting key now t = Inr t') \<longleftrightarrow> (\<exists>r. find_row sn_idempotency_key key t = Some r \<and> sn_status r = LPreparing)"
proof -
  let ?p = "\<lambda>r. sn_idempotency_key r = key \<and> sn_status r = LPreparing"
  have "length (filter ?p t) = 1 \<longleftrightarrow> (\<exists>r. find_row sn_idempotency_key key t = Some r \<and> sn_status r = LPreparing)"
    using assms unfolding ledger_inv_def
  proof (induction t)
    case (Cons a t)
    then show ?case
      by (cases "sn_idempotency_key a = key") (auto simp: find_row_def filter_empty_conv image_iff dest!: find_row_Some [unfolded find_row_def])
  qed (simp add: find_row_def)
  then show ?thesis by (auto simp: mark_submitting_def Let_def)
qed

lemma finish_rows_ledger:
  "ledger_inv t \<Longrightarrow> ledger_inv (ledger_finish key out payload now t)"
  "find_row sn_idempotency_key k (ledger_finish key out payload now t) = map_option (\<lambda>r. if k = key
       \<and> (sn_status r = LPreparing \<or> sn_status r = LDispatching) \<and> (out \<noteq> ONotSubmitted \<or> sn_status r = LPreparing)
     then r\<lparr>sn_status := outcome_status out, sn_result := (if truthy payload then Some payload else None), sn_updated_at := now\<rparr>
     else r) (find_row sn_idempotency_key k t)"
  by (auto simp: ledger_finish_def ledger_inv_def map_key_sql_update find_row_update_keyed)

section \<open>The ledger crosses once\<close>

datatype ledger_op = Claim pystr pystr bool instant | MarkSubmitting pystr instant | Finish pystr ledger_outcome pyval instant

primrec ledger_step :: "ledger_op \<Rightarrow> ledger \<Rightarrow> ledger" where
  "ledger_step (Claim key h b now) t = (case ledger_claim key h b now t of Inl e \<Rightarrow> t | Inr (t', _) \<Rightarrow> t')"
| "ledger_step (MarkSubmitting key now) t = (case mark_submitting key now t of Inl e \<Rightarrow> t | Inr t' \<Rightarrow> t')"
| "ledger_step (Finish key out payload now) t = ledger_finish key out payload now t"

primrec ledger_crosses :: "ledger_op \<Rightarrow> ledger \<Rightarrow> pystr option" where
  "ledger_crosses (Claim key h b now) t = None"
| "ledger_crosses (MarkSubmitting key now) t = (case mark_submitting key now t of Inl e \<Rightarrow> None | Inr _ \<Rightarrow> Some key)"
| "ledger_crosses (Finish key out payload now) t = None"

lemma ledger_step_inv: "ledger_inv t \<Longrightarrow> ledger_inv (ledger_step p t)"
  by (cases p) (auto simp: claim_rows(1) mark_rows(1) finish_rows_ledger(1) split: sum.splits)

lemma ledger_step_crossed:
  assumes "crossed_key t k"
  shows "crossed_key (ledger_step p t) k"
proof (cases p)
  case (Claim key h b now)
  show ?thesis
  proof (cases "ledger_claim key h b now t")
    case (Inr st)
    obtain t' ph where st: "st = (t', ph)" by (cases st)
    show ?thesis
    proof (cases "ph = PhaseClaimed")
      case True
      then have "k \<noteq> key" using claim_rows(5) [OF Inr [unfolded st]] assms by auto
      then show ?thesis using claim_rows(2) [OF Inr [unfolded st], of k] assms Inr st Claim by (simp add: crossed_key_def)
    qed (use claim_rows(3) [OF Inr [unfolded st]] assms Inr st Claim in simp)
  qed (use assms Claim in simp)
next
  case (MarkSubmitting key now)
  then show ?thesis using assms by (auto simp: crossed_key_def mark_rows(2) past_boundary_def split: sum.splits option.splits)
next
  case (Finish key out payload now)
  then show ?thesis using assms
    by (cases out) (auto simp: crossed_key_def finish_rows_ledger(2) past_boundary_def outcome_status_def split: option.splits)
qed

interpretation ledger_boundary: one_way_boundary ledger_inv ledger_step ledger_crosses crossed_key
proof
  fix t p k assume t: "ledger_inv t" and c: "ledger_crosses p t = Some k"
  then obtain now t' where p: "p = MarkSubmitting k now" and m: "mark_submitting k now t = Inr t'" by (cases p) (auto split: sum.splits)
  obtain r where "find_row sn_idempotency_key k t = Some r" "sn_status r = LPreparing" using mark_succeeds_iff [OF t] m by blast
  then show "\<not> crossed_key t k \<and> crossed_key (ledger_step p t) k"
    using mark_rows(2) [OF m, of k] m p by (simp add: crossed_key_def past_boundary_def)
qed (simp_all add: ledger_step_inv ledger_step_crossed)

end
