(* ===== verification/Sender.thy ===== *)
theory Sender
  imports Ledger
begin

text \<open>
  The sender agent: \<open>sender_agent/app.py\<close> and the sending loop of
  \<open>wechat_sender/appium_text_sender.py\<close>. The phone is a parameter: for each message a script says
  how the user interface reacts, and it may say that the process dies. \<open>device_lock\<close> makes the
  handler run alone, so a history of the device is a sequence of whole (possibly cut off) requests.
\<close>

section \<open>The phone\<close>

text \<open>Exceptions of the sending code: a timeout of the driver, the sender's own errors, and all others.\<close>

datatype sender_error = InvalidSendRequestError | DeviceNotReadyError | ContactNotFoundError | AppiumTimeoutError | SendFailedError

definition error_code :: "sender_error \<Rightarrow> pystr" where
  [py_eval]: "error_code e = (case e of InvalidSendRequestError \<Rightarrow> u ''invalid_request'' | DeviceNotReadyError \<Rightarrow> u ''wechat_not_ready''
     | ContactNotFoundError \<Rightarrow> u ''contact_not_found'' | AppiumTimeoutError \<Rightarrow> u ''appium_timeout'' | SendFailedError \<Rightarrow> u ''send_failed'')"

datatype ui_exn = TimeoutException | SenderError sender_error | OtherException

text \<open>
  The reaction to one message: writing it or finding the send button raises; the tap or the wait
  after it raises; the message is confirmed; the process dies before the checkpoint, between
  checkpoint and tap, or after the tap.
\<close>

datatype ui_event = PrepareRaises ui_exn | TapRaises ui_exn | Confirms | DiesBefore | DiesMarked | DiesAfter

datatype run_result = Completed | Raised ui_exn | Died

record send_progress =
  submission_started :: bool
  confirmed_count :: int
  cleanup_failed :: bool

definition fresh_progress :: send_progress where
  [py_eval]: "fresh_progress = \<lparr>submission_started = False, confirmed_count = 0, cleanup_failed = False\<rparr>"

text \<open>\<open>SendProgress.submitting\<close> with \<open>before_submit\<close> the ledger checkpoint; \<open>False\<close> when it raises.\<close>

definition submitting :: "pystr \<Rightarrow> instant \<Rightarrow> ledger \<times> send_progress \<Rightarrow> (ledger \<times> send_progress) \<times> bool" where
  [py_eval]: "submitting key now st = (case st of (t, p) \<Rightarrow>
     if submission_started p then ((t, p), True)
     else case mark_submitting key now t of
            Inl e \<Rightarrow> ((t, p\<lparr>submission_started := True\<rparr>), False)
          | Inr t' \<Rightarrow> ((t', p\<lparr>submission_started := True\<rparr>), True))"

text \<open>
  The loop over the messages; \<open>wrap\<close> is how it translates exceptions. Besides the state and the
  result it gives the messages whose send button was tapped.
\<close>

fun send_loop ::
    "(ui_exn \<Rightarrow> ui_exn) \<Rightarrow> pystr \<Rightarrow> instant \<Rightarrow> pystr list \<Rightarrow> ui_event list \<Rightarrow> ledger \<times> send_progress
     \<Rightarrow> (ledger \<times> send_progress) \<times> pystr list \<times> run_result" where
  "send_loop wrap key now [] es st = (st, [], Completed)"
| "send_loop wrap key now (m # ms) es st =
     (case es of
        [] \<Rightarrow> (st, [], Died)
      | e # es' \<Rightarrow>
          (case e of
             PrepareRaises x \<Rightarrow> (st, [], Raised (wrap x))
           | DiesBefore \<Rightarrow> (st, [], Died)
           | _ \<Rightarrow>
               (case submitting key now st of (st', ok) \<Rightarrow>
                  if \<not> ok then (st', [], Raised (wrap OtherException))
                  else case e of
                    TapRaises x \<Rightarrow> (st', [m], Raised (wrap x))
                  | DiesAfter \<Rightarrow> (st', [m], Died)
                  | DiesMarked \<Rightarrow> (st', [], Died)
                  | _ \<Rightarrow>
                      (case send_loop wrap key now ms es'
                              (fst st', (snd st')\<lparr>confirmed_count := confirmed_count (snd st') + 1\<rparr>) of
                         (st'', tapped, r) \<Rightarrow> (st'', m # tapped, r)))))"

text \<open>\<open>_send_accessible_messages\<close> turns a timeout into \<open>appium_timeout\<close> and all else into \<open>send_failed\<close>.\<close>

definition send_accessible_messages where
  [py_eval]: "send_accessible_messages key now messages es st =
     send_loop (\<lambda>x. case x of TimeoutException \<Rightarrow> SenderError AppiumTimeoutError | _ \<Rightarrow> SenderError SendFailedError)
       key now messages es st"

text \<open>\<open>_send_visual_messages\<close> passes the sender's own errors on; its taps follow the same order.\<close>

definition send_visual_messages where
  [py_eval]: "send_visual_messages key now messages es st =
     send_loop (\<lambda>x. case x of SenderError c \<Rightarrow> SenderError c | _ \<Rightarrow> SenderError SendFailedError) key now messages es st"

definition blank :: "pystr \<Rightarrow> bool" where
  [py_eval]: "blank s \<longleftrightarrow> strip s = []"

definition validate_send_request :: "pystr \<Rightarrow> pystr \<Rightarrow> pystr \<Rightarrow> pystr list \<Rightarrow> bool" where
  [py_eval]: "validate_send_request appium_url device receiver messages \<longleftrightarrow>
     \<not> blank appium_url \<and> \<not> blank device \<and> \<not> blank receiver \<and> \<not> list_ex blank messages \<and> messages \<noteq> []"

text \<open>
  What the surroundings of one request are: the configuration, whether the device lock, the lease
  and the ledger answered, how opening the chat went, which input the chat offers, and the script.
\<close>

datatype lease_state = LeaseHeld | LeaseFree | LeaseBusy | LeaseFails

record device_env =
  dv_allowed_device :: pystr
  dv_appium_url :: pystr
  dv_lock_acquired :: bool
  dv_lease :: lease_state
  dv_claim_ok :: bool
  dv_navigation :: "ui_exn option"
  dv_navigation_path :: pystr
  dv_session_reused :: bool
  dv_accessible :: bool
  dv_script :: "ui_event list"
  dv_finish_ok :: bool

record send_request =
  rq_receiver :: pystr
  rq_messages :: "pystr list"
  rq_device_name :: pystr
  rq_idempotency_key :: "pystr option"

definition send_text_messages ::
    "pystr \<Rightarrow> instant \<Rightarrow> send_request \<Rightarrow> device_env \<Rightarrow> ledger \<times> send_progress \<Rightarrow> (ledger \<times> send_progress) \<times> pystr list \<times> run_result" where
  "send_text_messages key now req dv st =
     (if \<not> validate_send_request (dv_appium_url dv) (rq_device_name req) (rq_receiver req) (rq_messages req)
      then (st, [], Raised (SenderError InvalidSendRequestError))
      else case dv_navigation dv of
        Some (SenderError c) \<Rightarrow> (st, [], Raised (SenderError c))
      | Some _ \<Rightarrow> (st, [], Raised (SenderError SendFailedError))
      | None \<Rightarrow>
          if dv_accessible dv then send_accessible_messages key now (rq_messages req) (dv_script dv) st
          else send_visual_messages key now (rq_messages req) (dv_script dv) st)"

section \<open>The send endpoint\<close>

datatype send_reply = JsonError nat pystr | Reply nat pyval | NoReply

definition payload_hash_of :: "pyenv \<Rightarrow> pystr \<Rightarrow> pystr \<Rightarrow> pystr list \<Rightarrow> pystr" where
  [py_eval]: "payload_hash_of E device receiver messages =
     sha256_hex E (json_dumps E (PDict [(u ''device'', PStr device), (u ''receiver'', PStr receiver),
       (u ''messages'', PList (map PStr messages))]))"

definition request_hash :: "pyenv \<Rightarrow> send_request \<Rightarrow> pystr" where
  [py_eval]: "request_hash E req = payload_hash_of E (rq_device_name req) (rq_receiver req) (rq_messages req)"

definition request_key :: "pyenv \<Rightarrow> send_request \<Rightarrow> pystr" where
  [py_eval]: "request_key E req = (case rq_idempotency_key req of
     Some k \<Rightarrow> if k = [] then request_hash E req else k | None \<Rightarrow> request_hash E req)"

definition lease_name_ok :: "pystr \<Rightarrow> bool" where
  [py_eval]: "lease_name_ok s \<longleftrightarrow> s \<noteq> [] \<and> list_all (\<lambda>c. (65 \<le> c \<and> c \<le> 90) \<or> (97 \<le> c \<and> c \<le> 122) \<or> (48 \<le> c \<and> c \<le> 57)
     \<or> c = 46 \<or> c = 95 \<or> c = 58 \<or> c = 45) s"

definition failure_payload :: "pystr \<Rightarrow> send_progress \<Rightarrow> pyval" where
  [py_eval]: "failure_payload code p = PDict [(u ''success'', PBool False), (u ''error'', PStr code),
     (u ''message'', PStr (if submission_started p then u ''sender outcome requires reconciliation''
        else u ''sender failed before submission'')),
     (u ''submission_state'', PStr (if submission_started p then u ''submission_unknown'' else u ''not_submitted'')),
     (u ''safe_to_retry'', PBool (\<not> submission_started p)), (u ''sent_count'', PInt (confirmed_count p))]"

definition success_payload :: "send_request \<Rightarrow> device_env \<Rightarrow> pyval" where
  [py_eval]: "success_payload req dv = PDict [(u ''success'', PBool True), (u ''device_name'', PStr (rq_device_name req)),
     (u ''receiver'', PStr (strip (rq_receiver req))), (u ''sent_count'', PInt (int (length (rq_messages req)))),
     (u ''navigation_path'', PStr (dv_navigation_path dv)), (u ''session_reused'', PBool (dv_session_reused dv))]"

text \<open>The ledger write that ends a request; when it fails the row stays as it is and the answer is 500.\<close>

definition record_outcome ::
    "pystr \<Rightarrow> ledger_outcome \<Rightarrow> pyval \<Rightarrow> nat \<Rightarrow> instant \<Rightarrow> device_env \<Rightarrow> ledger \<Rightarrow> ledger \<times> send_reply" where
  [py_eval]: "record_outcome key out payload code now dv t =
     (if dv_finish_ok dv then (ledger_finish key out payload now t, Reply code payload)
      else (t, JsonError 500 (u ''submission_unknown'')))"

definition send_claimed ::
    "pystr \<Rightarrow> instant \<Rightarrow> send_request \<Rightarrow> device_env \<Rightarrow> ledger \<Rightarrow> ledger \<times> pystr list \<times> send_reply" where
  "send_claimed key now req dv t =
     (case send_text_messages key now req dv (t, fresh_progress) of ((t1, p), tapped, result) \<Rightarrow>
        (case result of
           Died \<Rightarrow> (t1, tapped, NoReply)
         | Raised x \<Rightarrow>
             let code = (case x of SenderError e \<Rightarrow> error_code e | _ \<Rightarrow> u ''send_failed'');
                 out = (if submission_started p then OSubmissionUnknown else ONotSubmitted)
             in (case record_outcome key out (failure_payload code p)
                        (if code = u ''appium_timeout'' then 504 else 500) now dv t1 of
                   (t2, reply) \<Rightarrow> (t2, tapped, reply))
         | Completed \<Rightarrow>
             (case record_outcome key OSent (success_payload req dv) 200 now dv t1 of
                (t2, reply) \<Rightarrow> (t2, tapped, reply))))"

definition send_wechat ::
    "pyenv \<Rightarrow> send_request \<Rightarrow> device_env \<Rightarrow> instant \<Rightarrow> ledger \<Rightarrow> ledger \<times> pystr list \<times> send_reply" where
  "send_wechat E req dv now t =
     (if dv_allowed_device dv = [] then (t, [], JsonError 503 (u ''service_misconfigured''))
      else if rq_device_name req \<noteq> dv_allowed_device dv then (t, [], JsonError 403 (u ''device_not_allowed''))
      else if \<not> dv_lock_acquired dv then (t, [], JsonError 409 (u ''device_busy''))
      else if dv_lease dv \<noteq> LeaseHeld \<and> (\<not> lease_name_ok (rq_device_name req) \<or> dv_lease dv = LeaseFails)
      then (t, [], JsonError 500 (u ''submission_unknown''))
      else if dv_lease dv = LeaseBusy then (t, [], JsonError 409 (u ''device_busy''))
      else
        let key = request_key E req in
        if \<not> dv_claim_ok dv then (t, [], JsonError 503 (u ''ledger_unavailable''))
        else case ledger_claim key (request_hash E req) True now t of
          Inl e \<Rightarrow> (t, [], JsonError 503 (u ''ledger_unavailable''))
        | Inr (t1, phase) \<Rightarrow>
            (case phase of
               PhaseSent cached \<Rightarrow> (t1, [], Reply 200 cached)
             | PhaseConflict \<Rightarrow> (t1, [], JsonError 409 (u ''idempotency_conflict''))
             | PhaseUnknown \<Rightarrow> (t1, [], JsonError 409 (u ''submission_unknown''))
             | PhaseClaimed \<Rightarrow> send_claimed key now req dv t1))"

text \<open>\<open>SendRequest\<close>: the framework answers a payload its validators refuse before the handler runs.\<close>

definition send_request_valid :: "send_request \<Rightarrow> bool" where
  [py_eval]: "send_request_valid req \<longleftrightarrow> \<not> blank (rq_receiver req) \<and> \<not> blank (rq_device_name req)
     \<and> rq_messages req \<noteq> [] \<and> \<not> list_ex blank (rq_messages req) \<and> rq_idempotency_key req \<noteq> Some []"

definition send_endpoint ::
    "pyenv \<Rightarrow> send_request \<Rightarrow> device_env \<Rightarrow> instant \<Rightarrow> ledger \<Rightarrow> ledger \<times> pystr list \<times> send_reply" where
  "send_endpoint E req dv now t =
     (if send_request_valid req then send_wechat E req dv now t else (t, [], JsonError 400 (u ''invalid_request'')))"

definition send_status_reply :: "pystr \<Rightarrow> pystr \<Rightarrow> bool \<Rightarrow> bool \<Rightarrow> ledger \<Rightarrow> (nat \<times> pystr) + ledger_evidence option" where
  [py_eval]: "send_status_reply key payload_hash lock_acquired ledger_ok t =
     (if \<not> lock_acquired then Inl (409, u ''device_busy'')
      else if \<not> ledger_ok then Inl (503, u ''ledger_unavailable'')
      else Inr (ledger_lookup key payload_hash t))"

end
