(* ===== verification/SenderLaws.thy ===== *)
theory SenderLaws
  imports Sender
begin

text \<open>
  What the sender agent promises: whatever requests arrive and wherever the process dies, the
  messages of an idempotency key are tapped in at most one run, and a finished send is answered
  from the ledger ever after.
\<close>

section \<open>A request as ledger operations\<close>

definition ledger_run :: "ledger \<Rightarrow> ledger \<Rightarrow> bool" where
  "ledger_run t t' \<longleftrightarrow> (\<exists>ops. t' = fold ledger_step ops t)"

lemma ledger_run_refl [simp]: "ledger_run t t"
  unfolding ledger_run_def by (rule exI [of _ "[]"]) simp

lemma ledger_run_trans: "ledger_run a b \<Longrightarrow> ledger_run b c \<Longrightarrow> ledger_run a c"
  unfolding ledger_run_def by (metis comp_apply fold_append)

lemma ledger_run_step: "ledger_run t (ledger_step p t)"
  unfolding ledger_run_def by (rule exI [of _ "[p]"]) simp

lemma ledger_run_mark: "mark_submitting key now t = Inr t' \<Longrightarrow> ledger_run t t'"
  using ledger_run_step [of t "MarkSubmitting key now"] by simp

lemma ledger_run_finish: "ledger_run t (ledger_finish key out v now t)"
  using ledger_run_step [of t "Finish key out v now"] by simp

lemma ledger_run_claim: "ledger_claim key h b now t = Inr (t', ph) \<Longrightarrow> ledger_run t t'"
  using ledger_run_step [of t "Claim key h b now"] by simp

lemma ledger_run_keeps:
  "ledger_run t t' \<Longrightarrow> ledger_inv t \<Longrightarrow> ledger_inv t' \<and> (crossed_key t k \<longrightarrow> crossed_key t' k)"
  unfolding ledger_run_def using ledger_boundary.run_keeps by blast

text \<open>A run of the phone marks the key at most once, and before its first tap.\<close>

lemma send_loop_marks:
  assumes "send_loop wrap key now ms es (t, p) = ((t', p'), tapped, r)"
  shows "prefix tapped ms \<and> (r = Completed \<longrightarrow> tapped = ms) \<and> (t' = t \<or> \<not> submission_started p \<and> mark_submitting key now t = Inr t')
    \<and> (tapped \<noteq> [] \<longrightarrow> submission_started p \<or> mark_submitting key now t = Inr t')
    \<and> (submission_started p \<or> tapped \<noteq> [] \<longrightarrow> submission_started p')"
  using assms
proof (induction ms arbitrary: es t p t' p' tapped r)
  case (Cons m ms)
  consider (early) "t' = t" "p' = p" "tapped = []" "r \<noteq> Completed"
    | (late) st ok e es' where "es = e # es'" "submitting key now (t, p) = (st, ok)" "e \<notin> range PrepareRaises" "e \<noteq> DiesBefore"
    using Cons.prems by (cases es; cases "hd es"; cases "submitting key now (t, p)") auto
  then show ?case
  proof cases
    case late
    obtain t1 p1 where st: "st = (t1, p1)" by (cases st)
    have s: "submission_started p1" "t1 = t \<or> \<not> submission_started p \<and> mark_submitting key now t = Inr t1"
      "ok \<Longrightarrow> submission_started p \<or> mark_submitting key now t = Inr t1"
      using late(2) st by (auto simp: submitting_def split: if_splits sum.splits)
    show ?thesis
    proof (cases "ok \<and> e = Confirms")
      case False
      then have "t' = t1" "p' = p1" "tapped = [] \<or> ok \<and> tapped = [m]" "r \<noteq> Completed"
        using Cons.prems late st by (cases e; auto split: if_splits)+
      with s show ?thesis by auto
    next
      case True
      let ?p = "p1\<lparr>confirmed_count := confirmed_count p1 + 1\<rparr>"
      obtain t2 p2 tp r2 where l: "send_loop wrap key now ms es' (t1, ?p) = ((t2, p2), tp, r2)" by (metis surj_pair)
      then have "t' = t2" "p' = p2" "tapped = m # tp" "r = r2" using Cons.prems late st True by auto
      with Cons.IH [OF l] s True show ?thesis by auto
    qed
  qed simp
qed simp

lemma send_text_marks:
  assumes "send_text_messages key now req dv (t, fresh_progress) = ((t', p'), tapped, r)"
  shows "prefix tapped (rq_messages req) \<and> (r = Completed \<longrightarrow> tapped = rq_messages req \<and> tapped \<noteq> [])
    \<and> (t' = t \<or> mark_submitting key now t = Inr t') \<and> (tapped \<noteq> [] \<longrightarrow> mark_submitting key now t = Inr t' \<and> submission_started p')"
proof -
  consider (none) "t' = t" "tapped = []" "r \<noteq> Completed"
    | (loop) wrap where "rq_messages req \<noteq> []" "send_loop wrap key now (rq_messages req) (dv_script dv) (t, fresh_progress) = ((t', p'), tapped, r)"
    using assms by (auto simp: send_text_messages_def send_accessible_messages_def send_visual_messages_def validate_send_request_def
        split: if_splits option.splits ui_exn.splits)
  then show ?thesis
  proof cases
    case loop
    then show ?thesis using send_loop_marks [OF loop(2)] by (auto simp: fresh_progress_def)
  qed simp
qed

text \<open>The key of a request that taps was not past the boundary before, and is past it afterwards.\<close>

lemma crossed_after_mark:
  assumes "ledger_inv t" "mark_submitting key now t = Inr t1" "ledger_run t1 t'"
  shows "crossed_key t' key"
proof -
  have "crossed_key t1 key"
    using ledger_boundary.crosses_new [OF assms(1), of "MarkSubmitting key now" key] assms(2) by simp
  moreover have "ledger_inv t1" using mark_rows(1) [OF assms(2) assms(1)] .
  ultimately show ?thesis using ledger_run_keeps [OF assms(3)] by blast
qed

lemma send_claimed_run:
  assumes "send_claimed key now req dv t = (t', tapped, reply)"
  shows "ledger_run t t' \<and> prefix tapped (rq_messages req) \<and> (ledger_inv t \<longrightarrow> tapped \<noteq> [] \<longrightarrow> crossed_key t' key)"
proof -
  obtain t1 p1 r where s: "send_text_messages key now req dv (t, fresh_progress) = ((t1, p1), tapped, r)"
    and t': "t' = t1 \<or> (\<exists>out v. t' = ledger_finish key out v now t1)"
    using assms(1) by (auto simp: send_claimed_def record_outcome_def Let_def split: prod.splits run_result.splits if_splits)
  have r: "ledger_run t1 t'" "ledger_run t t1" using t' ledger_run_finish send_text_marks [OF s] ledger_run_mark by auto
  with send_text_marks [OF s] show ?thesis using crossed_after_mark ledger_run_trans by blast
qed

lemma send_wechat_cases:
  assumes "send_wechat E req dv now t = (t', tapped, reply)"
  obtains (refused) "t' = t" "tapped = []"
  | (claimed) t1 where "ledger_claim (request_key E req) (request_hash E req) True now t = Inr (t1, PhaseClaimed)"
      "send_claimed (request_key E req) now req dv t1 = (t', tapped, reply)"
  using assms claim_rows(3) [of "request_key E req" "request_hash E req" True now t]
  by (auto simp: send_wechat_def Let_def split: if_splits sum.splits claim_phase.splits)

section \<open>Histories of the device\<close>

type_synonym device_request = "send_request \<times> device_env \<times> instant"

definition device_step :: "pyenv \<Rightarrow> device_request \<Rightarrow> ledger \<Rightarrow> ledger" where
  "device_step E q t = (case q of (req, dv, now) \<Rightarrow> fst (send_wechat E req dv now t))"

definition device_taps :: "pyenv \<Rightarrow> device_request \<Rightarrow> ledger \<Rightarrow> pystr list" where
  "device_taps E q t = (case q of (req, dv, now) \<Rightarrow> fst (snd (send_wechat E req dv now t)))"

definition device_crosses :: "pyenv \<Rightarrow> device_request \<Rightarrow> ledger \<Rightarrow> pystr option" where
  "device_crosses E q t = (if device_taps E q t = [] then None else Some (request_key E (fst q)))"

text \<open>What was tapped on the phone, run by run, each with its key and the messages of its request.\<close>

primrec tap_log :: "pyenv \<Rightarrow> device_request list \<Rightarrow> ledger \<Rightarrow> (pystr \<times> pystr list \<times> pystr list) list" where
  "tap_log E [] t = []"
| "tap_log E (q # qs) t =
     (if device_taps E q t = [] then [] else [(request_key E (fst q), rq_messages (fst q), device_taps E q t)])
     @ tap_log E qs (device_step E q t)"

lemma device_step_run:
  "ledger_run t (device_step E q t)" "prefix (device_taps E q t) (rq_messages (fst q))"
  "ledger_inv t \<Longrightarrow> device_taps E q t \<noteq> [] \<Longrightarrow> \<not> crossed_key t (request_key E (fst q)) \<and> crossed_key (device_step E q t) (request_key E (fst q))"
proof -
  obtain req dv now where q: "q = (req, dv, now)" by (cases q)
  obtain t' tapped reply where s: "send_wechat E req dv now t = (t', tapped, reply)" by (metis surj_pair)
  have d: "device_step E q t = t'" "device_taps E q t = tapped" by (simp_all add: device_step_def device_taps_def q s)
  have "ledger_run t t' \<and> prefix tapped (rq_messages req) \<and> (ledger_inv t \<longrightarrow> tapped \<noteq> [] \<longrightarrow> \<not> crossed_key t (request_key E req) \<and> crossed_key t' (request_key E req))"
    using s
  proof (cases rule: send_wechat_cases)
    case (claimed t1)
    then show ?thesis
      using send_claimed_run [OF claimed(2)] ledger_run_claim [OF claimed(1)] claim_rows(1,5) [OF claimed(1)] ledger_run_trans by auto
  qed simp
  then show "ledger_run t (device_step E q t)" "prefix (device_taps E q t) (rq_messages (fst q))"
    "ledger_inv t \<Longrightarrow> device_taps E q t \<noteq> [] \<Longrightarrow> \<not> crossed_key t (request_key E (fst q)) \<and> crossed_key (device_step E q t) (request_key E (fst q))"
    unfolding d by (simp_all add: q)
qed

interpretation device_boundary: one_way_boundary ledger_inv "device_step E" "device_crosses E" crossed_key for E
proof
  show "ledger_inv (device_step E q t)" if "ledger_inv t" for q t
    using ledger_run_keeps [OF device_step_run(1) that] by blast
  show "\<not> crossed_key t k \<and> crossed_key (device_step E q t) k" if "ledger_inv t" "device_crosses E q t = Some k" for q t k
    using device_step_run(3) [OF that(1), of E q] that(2) by (auto simp: device_crosses_def split: if_splits)
  show "crossed_key (device_step E q t) k" if "ledger_inv t" "crossed_key t k" for q t k
    using ledger_run_keeps [OF device_step_run(1) that(1)] that(2) by blast
qed

lemma tap_log_keys: "map fst (tap_log E qs t) = crossings (device_step E) (device_crosses E) qs t"
  by (induction qs arbitrary: t) (auto simp: device_crosses_def)

lemma tap_log_prefix: "list_all (\<lambda>(k, ms, tapped). tapped \<noteq> [] \<and> prefix tapped ms) (tap_log E qs t)"
  using device_step_run(2) by (induction qs arbitrary: t) auto

text \<open>C6: A message is sent at most once per idempotency key: in every history of requests, device failures and crashes, the
  send button is tapped for a key in at most one request, and there for a prefix of its messages.
  No later request or retry with this key taps again.\<close>

theorem tapped_once_per_key:
  assumes "ledger_inv t"
  shows "distinct (map fst (tap_log E history t)) \<and> list_all (\<lambda>(k, ms, tapped). tapped \<noteq> [] \<and> prefix tapped ms) (tap_log E history t)"
  using device_boundary.crossings_distinct [OF assms] tap_log_prefix by (simp add: tap_log_keys)

definition probe_env :: pyenv where
  [py_eval]: "probe_env = \<lparr>sha256_hex = (\<lambda>s. s), hmac_hex = (\<lambda>k s. k @ s), py_repr = (\<lambda>v. []), py_lower = (\<lambda>s. s), py_upper = (\<lambda>s. s)\<rparr>"

definition probe_request :: send_request where
  [py_eval]: "probe_request = \<lparr>rq_receiver = u ''g'', rq_messages = [u ''hello''], rq_device_name = u ''d'', rq_idempotency_key = Some (u ''k'')\<rparr>"

definition probe_device :: "ui_event list \<Rightarrow> device_env" where
  [py_eval]: "probe_device script = \<lparr>dv_allowed_device = u ''d'', dv_appium_url = u ''a'', dv_lock_acquired = True, dv_lease = LeaseFree,
     dv_claim_ok = True, dv_navigation = None, dv_navigation_path = [], dv_session_reused = False, dv_accessible = True,
     dv_script = script, dv_finish_ok = True\<rparr>"

lemma probe_taps: "e = DiesAfter \<or> e = Confirms \<Longrightarrow> fst (snd (send_wechat probe_env probe_request (probe_device [e]) now [])) = [u ''hello'']"
  by (auto simp: send_wechat_def ledger_claim_def find_row_def probe_request_def probe_device_def request_key_def Let_def send_claimed_def
      send_text_messages_def validate_send_request_def blank_def u_def strip_fixed is_space_def send_accessible_messages_def submitting_def
      fresh_progress_def mark_submitting_def record_outcome_def lease_name_ok_def split: prod.splits)

text \<open>The process dies after the tap; the retry is refused and taps nothing.\<close>

theorem tapped_once_per_key_witness:
  "length (filter (\<lambda>e. fst e = u ''k'') (tap_log probe_env [(probe_request, probe_device [DiesAfter], 0), (probe_request, probe_device [Confirms], 1)] [])) = 1"
proof -
  let ?log = "tap_log probe_env [(probe_request, probe_device [DiesAfter], 0), (probe_request, probe_device [Confirms], 1)] []"
  have "device_taps probe_env (probe_request, probe_device [DiesAfter], 0) [] = [u ''hello'']" by (simp add: device_taps_def probe_taps)
  then obtain e es where l: "?log = e # es" "fst e = u ''k''" by (auto simp: request_key_def probe_request_def u_def)
  have "ledger_inv []" by (simp add: ledger_inv_def)
  from tapped_once_per_key [OF this, of probe_env "[(probe_request, probe_device [DiesAfter], 0), (probe_request, probe_device [Confirms], 1)]"]
  have "distinct (map fst (e # es))" using l(1) by (simp only: simp_thms)
  then have "filter (\<lambda>e. fst e = u ''k'') es = []" using l(2) by (force simp: filter_empty_conv)
  with l show ?thesis by (simp only: filter.simps list.size) simp
qed

section \<open>Settled rows\<close>

definition settled :: "send_status \<Rightarrow> bool" where
  "settled s \<longleftrightarrow> s = LSent \<or> s = LSubmissionUnknown"

lemma settled_step:
  assumes "find_row sn_idempotency_key k t = Some r" "settled (sn_status r)"
  shows "find_row sn_idempotency_key k (ledger_step p t) = Some r"
proof (cases p)
  case (Claim key h b now)
  show ?thesis
  proof (cases "ledger_claim key h b now t")
    case (Inr st)
    obtain t' ph where st: "st = (t', ph)" by (cases st)
    have "crossed_key t k" using assms by (auto simp: crossed_key_def past_boundary_def settled_def)
    then have "k \<noteq> key \<or> ph \<noteq> PhaseClaimed" using claim_rows(5) [OF Inr [unfolded st]] by auto
    then show ?thesis using claim_rows(2,3) [OF Inr [unfolded st]] assms(1) Inr st Claim by auto
  qed (use assms Claim in simp)
next
  case (MarkSubmitting key now)
  then show ?thesis using assms mark_rows(2) [of key now t _ k] by (auto simp: settled_def split: sum.splits)
next
  case (Finish key out payload now)
  then show ?thesis using assms finish_rows_ledger(2) [of k key out payload now t] by (auto simp: settled_def)
qed

lemma settled_run:
  assumes "ledger_run t t'" "find_row sn_idempotency_key k t = Some r" "settled (sn_status r)"
  shows "find_row sn_idempotency_key k t' = Some r"
proof -
  obtain ops where "t' = fold ledger_step ops t" using assms(1) unfolding ledger_run_def ..
  then show ?thesis using assms(2) settled_step assms(3) by (induction ops arbitrary: t) auto
qed

lemma history_run: "ledger_run t (fold (device_step E) qs t)"
proof (induction qs arbitrary: t)
  case (Cons q qs)
  show ?case using ledger_run_trans [OF device_step_run(1) [of t E q] Cons.IH] by simp
qed simp

lemma completed_row:
  assumes "send_wechat E req dv now t = (t', tapped, Reply 200 v)" "tapped \<noteq> []" "ledger_inv t"
  shows "\<exists>r. find_row sn_idempotency_key (request_key E req) t' = Some r \<and> sn_status r = LSent
    \<and> sn_payload_hash r = request_hash E req \<and> sn_result r = Some v"
  using assms(1)
proof (cases rule: send_wechat_cases)
  case (claimed t1)
  let ?k = "request_key E req"
  obtain r1 where r1: "find_row sn_idempotency_key ?k t1 = Some r1" "sn_payload_hash r1 = request_hash E req" "sn_status r1 = LPreparing"
    using claim_rows(4) [OF claimed(1)] by auto
  obtain t2 p2 tp res where s: "send_text_messages ?k now req dv (t1, fresh_progress) = ((t2, p2), tp, res)" by (metis surj_pair)
  note eq = claimed(2) [unfolded send_claimed_def s prod.case]
  have res: "res = Completed" using eq by (cases res) (simp_all add: record_outcome_def Let_def split: if_split_asm)
  have t': "t' = ledger_finish ?k OSent v now t2" "v = success_payload req dv" "tp = tapped"
    using eq unfolding res by (auto simp: record_outcome_def split: if_split_asm)
  have "mark_submitting ?k now t1 = Inr t2" using send_text_marks [OF s] assms(2) t'(3) by blast
  then have "find_row sn_idempotency_key ?k t2 = Some (r1\<lparr>sn_status := LDispatching, sn_updated_at := now\<rparr>)"
    using mark_rows(2) r1 by simp
  then show ?thesis using r1(2) finish_rows_ledger(2) [of ?k ?k] t' by (simp add: outcome_status_def success_payload_def)
qed (use assms in simp)

text \<open>A request that the configuration, the locks and the ledger let through.\<close>

definition let_through :: "send_request \<Rightarrow> device_env \<Rightarrow> bool" where
  "let_through req dv \<longleftrightarrow> dv_allowed_device dv = rq_device_name req \<and> rq_device_name req \<noteq> [] \<and> dv_lock_acquired dv \<and> dv_claim_ok dv
     \<and> (dv_lease dv = LeaseHeld \<or> dv_lease dv = LeaseFree \<and> lease_name_ok (rq_device_name req))"

text \<open>C38: A finished send is answered from the ledger: whatever happens on the device afterwards, every later request with the same key
  and payload gets the stored answer, one with the same key and another payload gets a conflict, and neither
  taps anything or changes the ledger.\<close>

theorem finished_send_replayed:
  assumes "ledger_inv t" "send_wechat E req dv now t = (t1, tapped, Reply 200 v)" "tapped \<noteq> []"
    and "request_key E req' = request_key E req" "let_through req' dv'"
  shows "send_wechat E req' dv' now' (fold (device_step E) history t1)
    = (fold (device_step E) history t1, [],
       if request_hash E req' = request_hash E req then Reply 200 v else JsonError 409 (u ''idempotency_conflict''))"
proof -
  let ?t = "fold (device_step E) history t1"
  obtain r where r: "find_row sn_idempotency_key (request_key E req) t1 = Some r" "sn_status r = LSent"
    "sn_payload_hash r = request_hash E req" "sn_result r = Some v"
    using completed_row [OF assms(2,3,1)] by blast
  then have "find_row sn_idempotency_key (request_key E req') ?t = Some r"
    using settled_run [OF history_run] assms(4) by (simp add: settled_def)
  with r assms(5) show ?thesis
    by (auto simp: send_wechat_def ledger_claim_def let_through_def)
qed

theorem finished_send_replayed_witness:
  "\<exists>t1 v. send_wechat probe_env probe_request (probe_device [Confirms]) 0 [] = (t1, [u ''hello''], Reply 200 v)
     \<and> send_wechat probe_env probe_request (probe_device [Confirms]) 1 t1 = (t1, [], Reply 200 v)"
proof -
  let ?s = "send_wechat probe_env probe_request (probe_device [Confirms]) 0 []"
  have "snd (snd ?s) = Reply 200 (success_payload probe_request (probe_device [Confirms]))"
    by (simp add: send_wechat_def ledger_claim_def find_row_def probe_request_def probe_device_def request_key_def Let_def send_claimed_def
        send_text_messages_def validate_send_request_def blank_def u_def strip_fixed is_space_def send_accessible_messages_def submitting_def
        fresh_progress_def mark_submitting_def record_outcome_def lease_name_ok_def)
  with probe_taps [of Confirms 0] obtain t1 where s: "?s = (t1, [u ''hello''], Reply 200 (success_payload probe_request (probe_device [Confirms])))" by (metis prod.collapse)
  have "ledger_inv []" "[u ''hello''] \<noteq> []" by (simp_all add: ledger_inv_def)
  moreover have "let_through probe_request (probe_device [Confirms])" by (simp add: let_through_def probe_request_def probe_device_def lease_name_ok_def u_def)
  ultimately show ?thesis using finished_send_replayed [OF _ s _ refl, of "probe_device [Confirms]" 1 "[]"] s by simp
qed

end
