(* ===== verification/WechatQueue.thy ===== *)
theory WechatQueue
  imports Service
begin

text \<open>
  The durable WeChat queue (\<open>host_core/wechat_queue.py\<close>): which lines of a digest are covered by
  the slots that are available now, and enqueueing a digest for each chat.
\<close>

section \<open>Lines of a digest\<close>

record digest_line =
  dl_court :: pystr
  dl_day :: pystr
  dl_start :: pystr
  dl_end :: pystr

definition clock_match :: "pystr \<Rightarrow> bool" where
  [py_eval]: "clock_match s \<longleftrightarrow> (case s of [a, b, c, d, e] \<Rightarrow> is_digit a \<and> is_digit b \<and> c = 58 \<and> is_digit d \<and> is_digit e | _ \<Rightarrow> False)"

text \<open>
  \<open>LINE.fullmatch\<close>. What follows the court's closing bracket contains no such bracket, so the
  greedy group ends at the last one; blanks before the times are skipped.
\<close>

definition line_match :: "pystr \<Rightarrow> digest_line option" where
  "line_match line = (case line of
     [] \<Rightarrow> None
   | c # rest \<Rightarrow>
       let tail = rev (takeWhile (\<lambda>x. x \<noteq> 12305) (rev rest));
           court = rev (drop 1 (dropWhile (\<lambda>x. x \<noteq> 12305) (rev rest)))
       in if c \<noteq> 12304 \<or> 12305 \<notin> set rest \<or> court = [] \<or> 10 \<in> set court then None
          else case tail of
            x1 # x2 # w # x3 # m1 # m2 # x4 # d1 # d2 # x5 # x6 # x7 # x8 # r \<Rightarrow>
              (let times = dropWhile is_space r in
               if [x1, x2] = [26143, 26399] \<and> w \<in> set [19968, 20108, 19977, 22235, 20116, 20845, 26085] \<and> x3 = 40
                  \<and> is_digit m1 \<and> is_digit m2 \<and> x4 = 45 \<and> is_digit d1 \<and> is_digit d2 \<and> x5 = 41
                  \<and> [x6, x7] = [31354, 22330] \<and> (x8 = 58 \<or> x8 = 65306)
                  \<and> clock_match (take 5 times) \<and> clock_match (drop 6 times) \<and> times ! 5 = 45
               then Some \<lparr>dl_court = court, dl_day = [m1, m2, 45, d1, d2], dl_start = take 5 times, dl_end = drop 6 times\<rparr>
               else None)
          | _ \<Rightarrow> None)"

datatype line_error = InvalidLine | InvalidInterval | AvailabilityChanged | NoAvailability

definition slot_candidate :: "digest_line \<Rightarrow> pystr \<Rightarrow> slot_row \<Rightarrow> bool" where
  [py_eval]: "slot_candidate l fin s \<longleftrightarrow> month_day (sl_booking_date s) = dl_day l
     \<and> (endswith (dl_court l) (sl_court_name s) \<or> endswith (sl_court_name s) (dl_court l))
     \<and> sl_start_time s < fin \<and> dl_start l < sl_end_time s"

text \<open>The walk over the candidates: how far the interval is covered, and by which events.\<close>

fun cover :: "pystr \<Rightarrow> pystr \<Rightarrow> slot_row list \<Rightarrow> pystr \<times> pystr list" where
  "cover fin cursor [] = (cursor, [])"
| "cover fin cursor (s # ss) =
     (if cursor < sl_start_time s then (cursor, [])
      else let cursor' = max cursor (sl_end_time s) in
        if fin \<le> cursor' then (cursor', [sl_event_key s])
        else case cover fin cursor' ss of (c, keys) \<Rightarrow> (c, sl_event_key s # keys))"

definition covered_line :: "slot_row list \<Rightarrow> pystr \<Rightarrow> line_error + pystr list" where
  "covered_line slots line = (case line_match (strip line) of
     None \<Rightarrow> Inl InvalidLine
   | Some l \<Rightarrow>
       if \<not> (u ''00:00'' \<le> dl_start l \<and> dl_start l < dl_end l \<and> dl_end l \<le> u ''24:00'')
          \<or> u ''59'' < drop 3 (dl_start l) \<or> u ''59'' < drop 3 (dl_end l)
       then Inl InvalidInterval
       else
         let fin = (if dl_end l = u ''24:00'' then u ''23:59'' else dl_end l)
         in case cover fin (dl_start l) (sort_key sl_start_time (filter (slot_candidate l fin) slots)) of
              (cursor, keys) \<Rightarrow> if cursor < fin then Inl AvailabilityChanged else Inr keys)"

definition covered_events :: "pystr \<Rightarrow> slot_row list \<Rightarrow> line_error + pystr list" where
  "covered_events message slots =
     ebind (emap (covered_line slots) (splitlines message)) (\<lambda>kss.
       if concat kss = [] then Inl NoAvailability else Inr (sort (remdups (concat kss))))"

text \<open>The loop of \<open>current_message\<close>: retained lines, keys and rejected lines.\<close>

fun keep_lines :: "slot_row list \<Rightarrow> pystr list \<Rightarrow> line_error + (pystr list \<times> pystr list \<times> pystr list)" where
  "keep_lines slots [] = Inr ([], [], [])"
| "keep_lines slots (line # ls) =
     (case covered_events (strip line) slots of
        Inl AvailabilityChanged \<Rightarrow> ebind (keep_lines slots ls) (\<lambda>(kept, keys, rejected). Inr (kept, keys, strip line # rejected))
      | Inl e \<Rightarrow> Inl e
      | Inr ks \<Rightarrow> ebind (keep_lines slots ls) (\<lambda>(kept, keys, rejected). Inr (strip line # kept, ks @ keys, rejected)))"

definition current_message :: "pystr \<Rightarrow> slot_row list \<Rightarrow> line_error + (pystr \<times> pystr list \<times> pystr list)" where
  "current_message message slots =
     ebind (keep_lines slots (sort (remdups (splitlines message)))) (\<lambda>(kept, keys, rejected).
       Inr (join [10] kept, sort (remdups keys), rejected))"

section \<open>Enqueueing\<close>

datatype enqueue_error = InvalidPayload | InvalidReceiver | BadLine line_error | CastFails

datatype enqueue_result =
    Suppressed_NoSubscription
  | Suppressed_Changed "pystr list"
  | Queued "pystr list" "pystr list"

text \<open>\<open>dict.fromkeys\<close> keeps the first of equal names in order.\<close>

definition receiver_names :: "pyenv \<Rightarrow> pyval list \<Rightarrow> pystr list" where
  [py_eval]: "receiver_names E receivers = dedupe (map (\<lambda>r. strip (py_str E r)) receivers)"

text \<open>The slots of a venue that are available now and have not started.\<close>

definition open_slots :: "(slot_row \<Rightarrow> bool) \<Rightarrow> instant \<Rightarrow> db \<Rightarrow> enqueue_error + slot_row list" where
  "open_slots p sqlnow db =
     (if \<not> times_castable db then Inl CastFails
      else Inr (filter (\<lambda>s. p s \<and> currently_available db sqlnow (sl_event_key s)
             \<and> sqlnow < start_at (sl_booking_date s) (sl_start_time s)) (observed_slots db)))"

definition outbox_id :: "pyenv \<Rightarrow> pystr \<Rightarrow> pystr \<Rightarrow> pystr \<Rightarrow> pystr \<Rightarrow> pystr list \<Rightarrow> pystr" where
  [py_eval]: "outbox_id E venue receiver device message keys = sha256_hex E (join [0] ([venue, receiver, device, message] @ keys))"

definition new_wechat_row ::
    "pystr \<Rightarrow> pystr \<Rightarrow> pystr \<Rightarrow> pystr \<Rightarrow> pystr \<Rightarrow> pystr \<Rightarrow> pystr list \<Rightarrow> instant \<Rightarrow> instant \<Rightarrow> wechat_row" where
  "new_wechat_row i venue receiver device source message keys expires sqlnow =
     \<lparr>w_id = i, w_venue_id = venue, w_receiver = receiver, w_device_name = device, w_source = source,
      w_message = message, w_event_keys = keys, w_status = Pending, w_attempt_count = 0,
      w_next_attempt_at = sqlnow, w_expires_at = expires, w_lease_owner = None, w_lease_until = None,
      w_outbound_message = None, w_program_id = None, w_sent_at = None, w_last_error = None,
      w_created_at = sqlnow, w_updated_at = sqlnow\<rparr>"

definition latest_start :: "slot_row list \<Rightarrow> pystr list \<Rightarrow> instant" where
  [py_eval]: "latest_start slots keys =
     foldr max (map (\<lambda>s. start_at (sl_booking_date s) (sl_start_time s)) (filter (\<lambda>s. sl_event_key s \<in> set keys) slots)) min_instant"

definition enqueue_rows :: "pyenv \<Rightarrow> pystr \<Rightarrow> pystr \<Rightarrow> pystr \<Rightarrow> pystr \<Rightarrow> pystr list \<Rightarrow> instant \<Rightarrow> instant \<Rightarrow> pystr list \<Rightarrow> db \<Rightarrow> db" where
  "enqueue_rows E venue device source message keys expires sqlnow groups db =
     db\<lparr>wechat_outbox := fold (\<lambda>receiver. insert_or_ignore w_id
          (new_wechat_row (outbox_id E venue receiver device message keys) venue receiver device source message keys expires sqlnow))
        groups (wechat_outbox db)\<rparr>"

definition enqueue_payload :: "pyenv \<Rightarrow> (pystr \<times> pyval) list \<Rightarrow> instant \<Rightarrow> instant \<Rightarrow> db \<Rightarrow> enqueue_error + (db \<times> enqueue_result)" where
  "enqueue_payload E payload now sqlnow db =
     (let venue = str_or_empty E (dget payload (u ''venue_id''));
          message = strip (str_or_empty E (dget payload (u ''message'')));
          device = strip (str_or_empty E (dget payload (u ''device_name'')))
      in case dget payload (u ''receivers'') of
           PList receivers \<Rightarrow>
             if \<not> is_venue venue \<or> device = [] \<or> 128 < length device \<or> message = [] \<or> 20000 < length message
                \<or> receivers = [] \<or> 20 < length receivers
             then Inl InvalidPayload
             else
               let groups = receiver_names E receivers in
               if list_ex (\<lambda>r. r = [] \<or> 256 < length r) groups then Inl InvalidReceiver
               else if \<not> active_subscription_for_venue db venue sqlnow then Inr (db, Suppressed_NoSubscription)
               else ebind (open_slots (\<lambda>s. sl_venue_id s = venue) sqlnow db) (\<lambda>slots.
                 case current_message message slots of
                   Inl e \<Rightarrow> Inl (BadLine e)
                 | Inr (current, keys, rejected) \<Rightarrow>
                     if keys = [] then Inr (db, Suppressed_Changed rejected)
                     else
                       let expires = min (now + minutes 5) (latest_start slots keys);
                           source = take 120 (py_str E (py_or (dget payload (u ''source'')) (PStr (u ''unknown''))))
                       in Inr (enqueue_rows E venue device source current keys expires sqlnow groups db,
                               Queued (map (\<lambda>r. outbox_id E venue r device current keys) groups) rejected))
         | _ \<Rightarrow> Inl InvalidPayload)"

definition error_name :: "enqueue_error \<Rightarrow> pystr" where
  [py_eval]: "error_name e = (case e of CastFails \<Rightarrow> u ''DataError'' | _ \<Rightarrow> u ''ValueError'')"

text \<open>
  \<open>enqueue\<close>: a failure is recorded for the first twenty receivers of a known venue, a success
  resolves the incidents of the same digest. The result is the database and the error or the answer.
\<close>

definition enqueue :: "pyenv \<Rightarrow> (pystr \<times> pyval) list \<Rightarrow> instant \<Rightarrow> instant \<Rightarrow> db \<Rightarrow> db \<times> (enqueue_error + enqueue_result)" where
  "enqueue E payload now sqlnow db =
     (let venue = str_or_empty E (dget payload (u ''venue_id''));
          message = strip (str_or_empty E (dget payload (u ''message'')));
          groups = (case dget payload (u ''receivers'') of PList rs \<Rightarrow> map (\<lambda>r. strip (py_str E r)) (take 20 rs) | _ \<Rightarrow> []);
          source = u ''enqueue:'' @ venue
      in case enqueue_payload E payload now sqlnow db of
           Inl e \<Rightarrow>
             (if is_venue venue
              then fold (\<lambda>r. record_wechat_incident E source r message (error_name e) (Some (error_name e)) now) groups db
              else db, Inl e)
         | Inr (db', result) \<Rightarrow>
             (db'\<lparr>wechat_delivery_incidents := sql_update
                 (\<lambda>i. i_source i = source \<and> i_message_hash i = sha256_hex E message
                    \<and> i_receiver_hash i \<in> set (map (sha256_hex E) groups) \<and> i_resolved_at i = None)
                 (\<lambda>i. i\<lparr>i_resolved_at := Some sqlnow\<rparr>) (wechat_delivery_incidents db')\<rparr>, Inr result))"

end
