(* ===== verification/WechatQueueLaws.thy ===== *)
theory WechatQueueLaws
  imports WechatQueue
begin

text \<open>
  What the WeChat queue promises: a digest only announces intervals that slots available now cover
  completely, and a queued digest is queued once per chat.
\<close>

section \<open>Coverage\<close>

lemma cover_covers:
  assumes "cover fin c ss = (c', keys)" "c \<le> t" "t < c'"
  shows "\<exists>s. s \<in> set ss \<and> sl_event_key s \<in> set keys \<and> sl_start_time s \<le> t \<and> t < sl_end_time s"
  using assms
proof (induction ss arbitrary: c c' keys)
  case (Cons s ss)
  have st: "sl_start_time s \<le> c" using Cons.prems by (auto simp: not_less split: if_splits)
  show ?case
  proof (cases "t < sl_end_time s")
    case True
    moreover have "sl_event_key s \<in> set keys" using Cons.prems st by (auto simp: Let_def split: if_splits prod.splits)
    ultimately show ?thesis using st Cons.prems(2) by (intro exI [of _ s]) auto
  next
    case False
    then have m: "max c (sl_end_time s) \<le> t" using Cons.prems(2) by simp
    have "\<not> fin \<le> max c (sl_end_time s)"
    proof
      assume "fin \<le> max c (sl_end_time s)"
      with Cons.prems(1) st have "c' = max c (sl_end_time s)" by (auto simp: Let_def split: if_splits)
      with m Cons.prems(3) show False by (simp only: not_less [symmetric])
    qed
    then obtain ks where k: "cover fin (max c (sl_end_time s)) ss = (c', ks)" "keys = sl_event_key s # ks"
      using Cons.prems st by (auto simp: Let_def not_less [symmetric] split: if_splits prod.splits)
    then obtain s' where "s' \<in> set ss" "sl_event_key s' \<in> set ks" "sl_start_time s' \<le> t" "t < sl_end_time s'"
      using Cons.IH [OF k(1) m Cons.prems(3)] by blast
    with k(2) show ?thesis by auto
  qed
qed simp

lemma cover_grows: "cover fin c ss = (c', keys) \<Longrightarrow> c \<le> c'"
proof (induction ss arbitrary: c c' keys)
  case (Cons s ss)
  have "c \<le> c''" if "cover fin (max c (sl_end_time s)) ss = (c'', k)" for c'' k using Cons.IH [OF that] by simp
  then show ?case using Cons.prems by (auto simp: Let_def split: if_splits prod.splits)
qed simp

lemma cover_gap:
  assumes "cover fin c ss = (c', keys)" "c' < fin" "sorted (map sl_start_time ss)" "s \<in> set ss"
  shows "c' < sl_start_time s \<or> sl_end_time s \<le> c'"
  using assms
proof (induction ss arbitrary: c c' keys)
  case (Cons x ss)
  show ?case
  proof (cases "c < sl_start_time x")
    case True
    moreover have "sl_start_time x \<le> sl_start_time s" using Cons.prems(3,4) by auto
    ultimately show ?thesis using Cons.prems(1) by auto
  next
    case False
    have "\<not> fin \<le> max c (sl_end_time x)"
    proof
      assume "fin \<le> max c (sl_end_time x)"
      with Cons.prems(1) False have "c' = max c (sl_end_time x)" by (auto simp: Let_def)
      with \<open>fin \<le> max c (sl_end_time x)\<close> Cons.prems(2) show False by (meson leD)
    qed
    then obtain ks where k: "cover fin (max c (sl_end_time x)) ss = (c', ks)"
      using Cons.prems(1) False by (auto simp: Let_def split: if_splits prod.splits)
    have "max c (sl_end_time x) \<le> c'" using cover_grows [OF k] .
    then show ?thesis using Cons.IH [OF k Cons.prems(2)] Cons.prems(3,4) by auto
  qed
qed simp

text \<open>
  What a line says, read off its text: the day and the court of a slot are those of the line when the slot's date has the month and
  day of the line and one of the two court names ends with the other. Times are texts, compared as the code compares them.
\<close>

definition day_and_court :: "digest_line \<Rightarrow> slot_row \<Rightarrow> bool" where
  "day_and_court l s \<longleftrightarrow> month_day (sl_booking_date s) = dl_day l
     \<and> (\<exists>p. dl_court l = p @ sl_court_name s \<or> sl_court_name s = p @ dl_court l)"

definition interval_end :: "digest_line \<Rightarrow> pystr" where
  "interval_end l = (if dl_end l = u ''24:00'' then u ''23:59'' else dl_end l)"

text \<open>The moment \<open>t\<close> lies in one of the given slots of the day and court of the line.\<close>

definition moment_in :: "slot_row list \<Rightarrow> digest_line \<Rightarrow> pystr \<Rightarrow> bool" where
  "moment_in slots l t \<longleftrightarrow> (\<exists>s \<in> set slots. day_and_court l s \<and> sl_start_time s \<le> t \<and> t < sl_end_time s)"

definition line_available :: "slot_row list \<Rightarrow> pystr \<Rightarrow> bool" where
  "line_available slots line \<longleftrightarrow> (\<exists>l. line_match line = Some l \<and> dl_start l < dl_end l
     \<and> (\<forall>t. dl_start l \<le> t \<and> t < interval_end l \<longrightarrow> moment_in slots l t))"

lemma slot_candidate_iff: "slot_candidate l fin s \<longleftrightarrow> day_and_court l s \<and> sl_start_time s < fin \<and> dl_start l < sl_end_time s"
  by (auto simp: slot_candidate_def day_and_court_def endswith_def suffix_def)

lemma candidates_sorted: "sorted (map sl_start_time (sort_key sl_start_time xs))"
  by simp

lemma cover_keys: "cover fin c ss = (c', keys) \<Longrightarrow> set keys \<subseteq> sl_event_key ` set ss"
  by (induction ss arbitrary: c c' keys) (auto simp: Let_def split: if_splits prod.splits, blast+)

lemma covered_line_cases:
  assumes "line_match (strip line) = Some l" "dl_start l < dl_end l"
  defines "open_now \<equiv> \<lambda>keys. filter (\<lambda>s. sl_event_key s \<in> set keys)"
  shows "covered_line slots line = Inr keys \<Longrightarrow> line_available (open_now keys slots) (strip line)
      \<and> (\<forall>k \<in> set keys. \<exists>s \<in> set slots. sl_event_key s = k \<and> day_and_court l s)"
    and "covered_line slots line = Inl AvailabilityChanged \<Longrightarrow> \<not> line_available slots (strip line)"
proof -
  let ?fin = "interval_end l"
  let ?c = "sort_key sl_start_time (filter (slot_candidate l ?fin) slots)"
  obtain c' ks where c: "cover ?fin (dl_start l) ?c = (c', ks)" by (cases "cover ?fin (dl_start l) ?c")
  show "line_available (open_now keys slots) (strip line) \<and> (\<forall>k \<in> set keys. \<exists>s \<in> set slots. sl_event_key s = k \<and> day_and_court l s)"
    if "covered_line slots line = Inr keys"
  proof -
    have s: "\<not> c' < ?fin" "ks = keys" using that assms(1) c by (auto simp: covered_line_def interval_end_def Let_def split: if_splits)
    have "moment_in (open_now keys slots) l t" if "dl_start l \<le> t" "t < ?fin" for t
      using cover_covers [OF c that(1)] that(2) s unfolding moment_in_def open_now_def by (fastforce simp: slot_candidate_iff)
    moreover have "\<exists>s \<in> set slots. sl_event_key s = k \<and> day_and_court l s" if "k \<in> set keys" for k
      using cover_keys [OF c] that s(2) by (auto simp: slot_candidate_iff)
    ultimately show ?thesis using assms(1,2) unfolding line_available_def by blast
  qed
  show "\<not> line_available slots (strip line)" if "covered_line slots line = Inl AvailabilityChanged"
  proof -
    have s: "c' < ?fin" using that assms(1) c by (auto simp: covered_line_def interval_end_def Let_def split: if_splits)
    have st: "dl_start l \<le> c'" using cover_grows [OF c] .
    have "\<not> moment_in slots l c'"
    proof
      assume "moment_in slots l c'"
      then obtain x where x: "x \<in> set slots" "day_and_court l x" "sl_start_time x \<le> c'" "c' < sl_end_time x" by (auto simp: moment_in_def)
      then have "x \<in> set ?c" using s st by (auto simp: slot_candidate_iff)
      from cover_gap [OF c s candidates_sorted this] x(3,4) show False by auto
    qed
    then show ?thesis using assms(1) s st unfolding line_available_def by auto
  qed
qed

section \<open>Lines\<close>

lemma lines_from_no_break: "line \<in> set (lines_from cur s) \<Longrightarrow> list_all (\<lambda>c. \<not> is_line_break c) cur \<Longrightarrow> list_all (\<lambda>c. \<not> is_line_break c) line"
  by (induction cur s rule: lines_from.induct) (auto split: if_splits)

lemma splitlines_no_break: "line \<in> set (splitlines m) \<Longrightarrow> list_all (\<lambda>c. \<not> is_line_break c) line"
  using lines_from_no_break [of line "[]"] by (simp add: splitlines_def)

lemma strip_infix: "set (strip s) \<subseteq> set s"
proof -
  have "set (lstrip s) \<subseteq> set s" for s by (auto simp: lstrip_def dest: set_dropWhileD)
  then show ?thesis unfolding strip_def by (metis set_rev subset_trans)
qed

lemma available_mono: "line_available xs line \<Longrightarrow> set xs \<subseteq> set ys \<Longrightarrow> line_available ys line"
  unfolding line_available_def moment_in_def by blast

text \<open>The slots a digest names, and what a kept line and a rejected line say of them.\<close>

definition named_slots :: "slot_row list \<Rightarrow> pystr list \<Rightarrow> slot_row list" where
  [py_eval]: "named_slots slots keys = filter (\<lambda>s. sl_event_key s \<in> set keys) slots"

definition key_of_line :: "slot_row list \<Rightarrow> pystr \<Rightarrow> pystr \<Rightarrow> bool" where
  "key_of_line slots k line \<longleftrightarrow> (\<exists>l. line_match line = Some l \<and> (\<exists>s \<in> set slots. sl_event_key s = k \<and> day_and_court l s))"

lemma covered_single:
  assumes "list_all (\<lambda>c. \<not> is_line_break c) line"
  shows "covered_events (strip line) slots = Inr ks \<Longrightarrow> line_available (named_slots slots ks) (strip line) \<and> (\<forall>k \<in> set ks. key_of_line slots k (strip line))"
    and "covered_events (strip line) slots = Inl AvailabilityChanged \<Longrightarrow> \<not> line_available slots (strip line)"
proof -
  have "list_all (\<lambda>c. \<not> is_line_break c) (strip line)" using assms strip_infix [of line] by (auto simp: list_all_iff)
  then have one: "splitlines (strip line) = (if strip line = [] then [] else [strip line])"
    by (simp add: splitlines_def lines_from_single)
  have l: "\<exists>l. line_match (strip line) = Some l \<and> dl_start l < dl_end l"
    if "covered_line slots (strip line) = r" "r \<noteq> Inl InvalidLine" "r \<noteq> Inl InvalidInterval" for r
    using that by (auto simp: covered_line_def split: option.splits if_splits)
  show "line_available (named_slots slots ks) (strip line) \<and> (\<forall>k \<in> set ks. key_of_line slots k (strip line))"
    if c: "covered_events (strip line) slots = Inr ks"
  proof -
    obtain k where k: "covered_line slots (strip line) = Inr k" "set ks = set k"
      using c one by (auto simp: covered_events_def ebind_Inr_iff split: if_splits)
    obtain dl where dl: "line_match (strip line) = Some dl" "dl_start dl < dl_end dl" using l [OF k(1)] by auto
    have "set (filter (\<lambda>s. sl_event_key s \<in> set k) slots) = set (named_slots slots ks)" using k(2) by (auto simp: named_slots_def)
    then show ?thesis
      using covered_line_cases(1) [of "strip line" dl slots k] dl k available_mono unfolding key_of_line_def by fastforce
  qed
  show "\<not> line_available slots (strip line)" if c: "covered_events (strip line) slots = Inl AvailabilityChanged"
  proof -
    have k: "covered_line slots (strip line) = Inl AvailabilityChanged"
      using c one by (auto simp: covered_events_def ebind_def split: if_splits sum.splits)
    obtain dl where dl: "line_match (strip line) = Some dl" "dl_start dl < dl_end dl" using l [OF k(1)] by auto
    then show ?thesis using covered_line_cases(2) [of "strip line" dl slots] k by simp
  qed
qed

lemma named_slots_mono: "set ks \<subseteq> set ks' \<Longrightarrow> set (named_slots slots ks) \<subseteq> set (named_slots slots ks')"
  by (auto simp: named_slots_def)

lemma keep_lines_exact:
  assumes "keep_lines slots ls = Inr (kept, keys, rejected)" "list_all (list_all (\<lambda>c. \<not> is_line_break c)) ls"
  shows "set kept \<union> set rejected = strip ` set ls \<and> list_all (line_available (named_slots slots keys)) kept
    \<and> list_all (\<lambda>line. \<not> line_available slots line) rejected \<and> (\<forall>k \<in> set keys. \<exists>line \<in> set kept. key_of_line slots k line)"
  using assms
proof (induction ls arbitrary: kept keys rejected)
  case (Cons line ls)
  note single = covered_single [of line, where slots = slots]
  show ?case
  proof (cases "covered_events (strip line) slots")
    case (Inl e)
    then obtain r where r: "e = AvailabilityChanged" "keep_lines slots ls = Inr (kept, keys, r)" "rejected = strip line # r"
      using Cons.prems(1) by (cases e) (auto simp: ebind_Inr_iff)
    with Cons.IH [of kept keys r] Cons.prems(2) single(2) Inl show ?thesis by auto
  next
    case (Inr ks)
    then obtain k1 keys1 where k: "keep_lines slots ls = Inr (k1, keys1, rejected)" "kept = strip line # k1" "keys = ks @ keys1"
      using Cons.prems(1) by (auto simp: ebind_Inr_iff)
    have up: "set (named_slots slots ks) \<subseteq> set (named_slots slots keys)" "set (named_slots slots keys1) \<subseteq> set (named_slots slots keys)"
      by (rule named_slots_mono, simp add: k(3))+
    note ih = Cons.IH [OF k(1)]
    have "line_available (named_slots slots keys) (strip line)" "\<forall>x \<in> set ks. key_of_line slots x (strip line)"
      using single(1) [OF _ Inr] Cons.prems(2) available_mono [OF _ up(1)] by auto
    moreover have "list_all (line_available (named_slots slots keys)) k1"
      using ih Cons.prems(2) available_mono [OF _ up(2)] by (auto simp: list_all_iff)
    ultimately show ?thesis using ih Cons.prems(2) k(2,3) by auto
  qed
qed simp

text \<open>C9: A digest announces exactly what is available. A line is kept exactly when each moment of its interval lies in a slot that is available
  now, whose date has the month and day of the line and whose court name ends with the court of the line or the other way round (what the
  queue takes as the same day and court); the slots whose keys the digest is queued with suffice for that, and each of them is
  of the day and court of some kept line. The remaining lines are reported as rejected, and a line that does not have the
  expected form is an error.\<close>

theorem announced_intervals_available:
  assumes "current_message message slots = Inr (current, keys, rejected)"
  shows "\<exists>kept. current = join [10] kept \<and> set kept \<union> set rejected = strip ` set (splitlines message)
    \<and> (\<forall>line \<in> strip ` set (splitlines message). line \<in> set kept \<longleftrightarrow> line_available slots line)
    \<and> (\<forall>line \<in> set rejected. \<not> line_available slots line)
    \<and> (\<forall>line \<in> set kept. line_available (named_slots slots keys) line)
    \<and> (\<forall>k \<in> set keys. \<exists>line \<in> set kept. key_of_line slots k line)"
proof -
  obtain kept ks where k: "keep_lines slots (sort (remdups (splitlines message))) = Inr (kept, ks, rejected)"
    "current = join [10] kept" "keys = sort (remdups ks)"
    using assms by (auto simp: current_message_def ebind_Inr_iff)
  have "list_all (list_all (\<lambda>c. \<not> is_line_break c)) (sort (remdups (splitlines message)))"
    using splitlines_no_break [of _ message] by (simp add: list_all_iff)
  note x = keep_lines_exact [OF k(1) this]
  have "named_slots slots keys = named_slots slots ks" by (simp add: named_slots_def k(3))
  moreover have "line_available slots line" if "line_available (named_slots slots ks) line" for line
    using that available_mono [of "named_slots slots ks" line slots] by (auto simp: named_slots_def)
  ultimately show ?thesis using x k(2,3) by (intro exI [of _ kept]) (auto simp: list_all_iff)
qed

definition probe_line :: pystr where
  "probe_line = [12304, 49, 12305, 26143, 26399, 19968, 40] @ u ''01-19'' @ [41, 31354, 22330, 58] @ u ''09:00-10:00''"

definition probe_slot :: "pystr \<Rightarrow> pystr \<Rightarrow> slot_row" where
  "probe_slot a b = \<lparr>sl_event_key = a, sl_venue_id = u ''dsh'', sl_court_name = u ''1'', sl_booking_date = 18, sl_start_time = a,
     sl_end_time = b, sl_first_observed_at = 0, sl_last_observed_at = 0\<rparr>"

lemma probe_line_match: "line_match probe_line = Some \<lparr>dl_court = u ''1'', dl_day = u ''01-19'', dl_start = u ''09:00'', dl_end = u ''10:00''\<rparr>"
  by (simp add: line_match_def probe_line_def u_def is_digit_def digit_value_ascii clock_match_def is_space_def)

lemma probe_message: "current_message probe_line [probe_slot (u ''09:00'') (u ''09:30''), probe_slot (u ''09:30'') (u ''10:00'')]
   = Inr (probe_line, [u ''09:00'', u ''09:30''], [])"
proof -
  let ?slots = "[probe_slot (u ''09:00'') (u ''09:30''), probe_slot (u ''09:30'') (u ''10:00'')]"
  have strip: "strip probe_line = probe_line" by (rule strip_fixed) (simp add: probe_line_def u_def is_space_def)
  have lines: "splitlines probe_line = [probe_line]"
    by (simp add: splitlines_def lines_from_single probe_line_def u_def is_line_break_def)
  have small: "dec_nat n = [48 + n]" if "n < 10" for n using that by (subst dec_nat.simps) simp
  have "dec_nat 19 = dec_nat 1 @ [57]" by (subst dec_nat.simps) simp
  then have "zpad 2 1 = [48, 49]" "zpad 2 19 = [49, 57]" by (simp_all add: zpad_def dec_def small)
  moreover have "civil_of_day 18 = (1970, 1, 19)" by code_simp
  ultimately have "month_day 18 = u ''01-19''" by (simp add: month_day_def u_def)
  then have "filter (slot_candidate \<lparr>dl_court = u ''1'', dl_day = u ''01-19'', dl_start = u ''09:00'', dl_end = u ''10:00''\<rparr> (u ''10:00'')) ?slots = ?slots"
    by (simp add: slot_candidate_def probe_slot_def endswith_def u_def)
  then have "covered_line ?slots probe_line = Inr [u ''09:00'', u ''09:30'']"
    unfolding covered_line_def strip probe_line_match option.case
    by (simp add: probe_slot_def u_def sort_key_def insort_key.simps)
  then have "covered_events probe_line ?slots = Inr [u ''09:00'', u ''09:30'']"
    by (simp add: covered_events_def lines u_def)
  then show ?thesis by (simp add: current_message_def lines strip u_def)
qed

theorem announced_intervals_available_witness:
  "\<exists>kept. probe_line = join [10] kept \<and> probe_line \<in> set kept
     \<and> line_available [probe_slot (u ''09:00'') (u ''09:30''), probe_slot (u ''09:30'') (u ''10:00'')] probe_line
     \<and> \<not> moment_in [probe_slot (u ''09:00'') (u ''09:30'')] \<lparr>dl_court = u ''1'', dl_day = u ''01-19'', dl_start = u ''09:00'', dl_end = u ''10:00''\<rparr> (u ''09:30'')"
proof -
  have "splitlines probe_line = [probe_line]" "strip probe_line = probe_line"
    by (simp add: splitlines_def lines_from_single probe_line_def u_def is_line_break_def)
      (rule strip_fixed, simp add: probe_line_def u_def is_space_def)
  then show ?thesis using announced_intervals_available [OF probe_message] by (auto simp: moment_in_def probe_slot_def)
qed

end
