(* ===== verification/BookingLinks.thy ===== *)
theory BookingLinks
  imports Domain
begin

text \<open>
  Booking mini-program links (\<open>notifications/booking_links.py\<close>): which program a venue has, the
  footer, and the cache of last send times per chat and program. A wall clock time is the number of
  microseconds of the naive datetime the source computes with.
\<close>

definition BOOKING_LINK_COOLDOWN :: int where
  [py_eval]: "BOOKING_LINK_COOLDOWN = hours 2"

record booking_mini_program =
  program_id :: pystr
  link :: pystr

definition WEILAIHUI :: booking_mini_program where
  "WEILAIHUI = \<lparr>program_id = u ''weilaihui'', link = u ''#'' @ [23567, 31243, 24207] @ u ''://'' @ [26410, 26469, 33631] @ u ''/XL8wsbG5boBuZSl''\<rparr>"

definition SYSH_PROGRAM :: booking_mini_program where
  "SYSH_PROGRAM = \<lparr>program_id = u ''sysh'', link = u ''#'' @ [23567, 31243, 24207] @ u ''://'' @ [19978, 36234, 32593, 29699, 20013, 24515] @ u ''-'' @ [27801, 27827, 24215] @ u ''/mug6ErSFWCSdvvc''\<rparr>"

definition TOPS_PROGRAM :: booking_mini_program where
  "TOPS_PROGRAM = \<lparr>program_id = u ''tops'', link = u ''#'' @ [23567, 31243, 24207] @ u ''://Tops'' @ [32593, 29699] @ u ''/lo2x6SO0XGpdUph''\<rparr>"

definition JDWX_PROGRAM :: booking_mini_program where
  "JDWX_PROGRAM = \<lparr>program_id = u ''jdwx'', link = u ''#'' @ [23567, 31243, 24207] @ u ''://ing'' @ [22312, 36816, 21160] @ u ''/8EnsqtWMGoMe6Kr''\<rparr>"

definition DSH_FREE_PROGRAM :: booking_mini_program where
  "DSH_FREE_PROGRAM = \<lparr>program_id = u ''dsh_free'', link = u ''#'' @ [23567, 31243, 24207] @ u ''://'' @ [21335, 23665, 25991, 20307, 36890] @ u ''/C28W6ASVGvL4usz''\<rparr>"

definition TYZX_PROGRAM :: booking_mini_program where
  "TYZX_PROGRAM = \<lparr>program_id = u ''tyzx'', link = u ''#'' @ [23567, 31243, 24207] @ u ''://i'' @ [28145, 20307] @ u ''/GA0nZbyQSAq9iSa''\<rparr>"

definition DSH_PROGRAM :: booking_mini_program where
  "DSH_PROGRAM = \<lparr>program_id = u ''dsh'', link = u ''#'' @ [23567, 31243, 24207] @ u ''://'' @ [23041, 36874, 25991, 20307] @ u ''/il2QpVgwVeghPtg''\<rparr>"

definition FSB_PROGRAM :: booking_mini_program where
  "FSB_PROGRAM = \<lparr>program_id = u ''fsb'', link = u ''#'' @ [23567, 31243, 24207] @ u ''://'' @ [27867, 24605, 21338, 29305] @ u ''/D0aY3jOJ2oq34fh''\<rparr>"

definition PPBA_PROGRAM :: booking_mini_program where
  "PPBA_PROGRAM = \<lparr>program_id = u ''ppba'', link = u ''#'' @ [23567, 31243, 24207] @ u ''://PICKLEPOP'' @ [23453, 23433, 25705, 22825, 36718, 39302] @ u ''/PK3I72u2dNFoA2b''\<rparr>"

definition SWJJ_PROGRAM :: booking_mini_program where
  "SWJJ_PROGRAM = \<lparr>program_id = u ''swjj'', link = u ''#'' @ [23567, 31243, 24207] @ u ''://'' @ [28145, 28286, 31454, 30028, 26234, 20139, 35746, 22330] @ u ''/sPHQZElfQM9p8ie''\<rparr>"

definition VENUE_BOOKING_PROGRAMS :: "(pystr \<times> booking_mini_program) list" where
  "VENUE_BOOKING_PROGRAMS = [
     (u ''szw'', WEILAIHUI), (u ''gba'', WEILAIHUI), (u ''sysh'', SYSH_PROGRAM),
     (u ''tops'', TOPS_PROGRAM), (u ''jdwx'', JDWX_PROGRAM), (u ''dsh_free'', DSH_FREE_PROGRAM),
     (u ''dsh'', DSH_PROGRAM), (u ''fsb'', FSB_PROGRAM), (u ''fsb_shenyun'', FSB_PROGRAM),
     (u ''fsb_shekou'', FSB_PROGRAM), (u ''fsb_xinan'', FSB_PROGRAM), (u ''fsb_zhengzhong'', FSB_PROGRAM),
     (u ''fsb_atuoshan'', FSB_PROGRAM), (u ''fsb_zonglvquan'', FSB_PROGRAM), (u ''fsb_guanhu'', FSB_PROGRAM),
     (u ''fsb_bantian'', FSB_PROGRAM), (u ''fsb_shahe'', FSB_PROGRAM), (u ''fsb_baoshui'', FSB_PROGRAM),
     (u ''fsb_nanyou'', FSB_PROGRAM), (u ''fsb_xinqiao'', FSB_PROGRAM), (u ''fsb_yifangcheng'', FSB_PROGRAM),
     (u ''fsb_qilin'', FSB_PROGRAM), (u ''fsb_maozhouhe'', FSB_PROGRAM), (u ''ppba'', PPBA_PROGRAM),
     (u ''tyzx'', TYZX_PROGRAM), (u ''swjj'', SWJJ_PROGRAM)]"

definition program_for_venue :: "pystr option \<Rightarrow> booking_mini_program option" where
  [py_eval]: "program_for_venue venue_id =
     (case venue_id of None \<Rightarrow> None
      | Some v \<Rightarrow> if strip v = [] then None else map_of VENUE_BOOKING_PROGRAMS (strip v))"

definition attach_footer :: "pystr \<Rightarrow> pystr \<Rightarrow> pystr" where
  [py_eval]: "attach_footer message lk =
     (let stripped = strip message in
      if stripped = [] then lk
      else if contains stripped lk then stripped
      else stripped @ [10, 10] @ lk)"

section \<open>The cache\<close>

text \<open>\<open>d.pop(k, None)\<close>.\<close>

definition dict_pop :: "('k \<times> 'v) list \<Rightarrow> 'k \<Rightarrow> ('k \<times> 'v) list" where
  [py_eval]: "dict_pop d k = filter (\<lambda>e. fst e \<noteq> k) d"

lemma map_of_dict_put [simp]: "map_of (dict_put k v d) k' = (if k' = k then Some v else map_of d k')"
  by (induction k v d rule: dict_put.induct) auto

lemma map_of_dict_pop [simp]: "map_of (dict_pop d k) k' = (if k' = k then None else map_of d k')"
  by (induction d) (auto simp: dict_pop_def)

type_synonym link_cache = "(pystr \<times> (pystr \<times> pystr) list) list"

text \<open>\<open>parse_timestamp\<close> drops the time zone of an aware time without converting.\<close>

definition parse_timestamp :: "pyval \<Rightarrow> int option" where
  "parse_timestamp v = (case v of
     PStr s \<Rightarrow> if strip s = [] then None else map_option fst (datetime_fromisoformat s)
   | _ \<Rightarrow> None)"

definition is_cooling_down :: "int option \<Rightarrow> int \<Rightarrow> int \<Rightarrow> bool" where
  [py_eval]: "is_cooling_down last_sent now cooldown = (case last_sent of None \<Rightarrow> False | Some t \<Rightarrow> now - t < cooldown)"

definition normalize_timestamps :: "(pystr \<times> pyval) list \<Rightarrow> (pystr \<times> pystr) list" where
  [py_eval]: "normalize_timestamps programs = List.map_filter (\<lambda>(p, v). case v of
     PStr s \<Rightarrow> if strip p \<noteq> [] \<and> strip s \<noteq> [] then Some (p, s) else None | _ \<Rightarrow> None) programs"

definition normalize_cache :: "pyval \<Rightarrow> link_cache" where
  "normalize_cache cache = (case cache of
     PDict d \<Rightarrow> List.map_filter (\<lambda>(receiver, v). case v of
         PDict programs \<Rightarrow> if strip receiver = [] \<or> normalize_timestamps programs = [] then None
           else Some (receiver, normalize_timestamps programs)
       | _ \<Rightarrow> None) d
   | _ \<Rightarrow> [])"

definition stored_timestamp :: "pyval \<Rightarrow> pystr \<Rightarrow> pystr \<Rightarrow> pystr option" where
  [py_eval]: "stored_timestamp cache receiver program = Option.bind (map_of (normalize_cache cache) receiver) (\<lambda>ps. map_of ps program)"

definition last_sent_at :: "pyval \<Rightarrow> pystr \<Rightarrow> pystr \<Rightarrow> int option" where
  "last_sent_at cache receiver program =
     (case map_of (normalize_cache cache) receiver of None \<Rightarrow> None
      | Some ps \<Rightarrow> parse_timestamp (case map_of ps program of None \<Rightarrow> PNone | Some s \<Rightarrow> PStr s))"

definition previous_timestamp :: "pyval \<Rightarrow> pystr \<Rightarrow> pystr \<Rightarrow> pystr option" where
  "previous_timestamp cache receiver program =
     (case map_of (normalize_cache cache) receiver of None \<Rightarrow> None
      | Some ps \<Rightarrow> (case map_of ps program of None \<Rightarrow> None | Some s \<Rightarrow> if strip s = [] then None else Some s))"

text \<open>\<open>isoformat(timespec="seconds")\<close> of a wall clock time.\<close>

definition isoformat_seconds :: "int \<Rightarrow> pystr" where
  "isoformat_seconds t = (let s = t div 1000000; d = s div 86400; r = s mod 86400 in
     isoformat d @ u ''T'' @ zpad 2 (r div 3600) @ u '':'' @ zpad 2 (r mod 3600 div 60) @ u '':'' @ zpad 2 (r mod 60))"

definition mark_sent :: "pyval \<Rightarrow> pystr \<Rightarrow> pystr \<Rightarrow> int \<Rightarrow> link_cache" where
  "mark_sent cache receiver program sent_at =
     (let updated = normalize_cache cache;
          chat_entry = (case map_of updated receiver of None \<Rightarrow> [] | Some ps \<Rightarrow> ps)
      in dict_put receiver (dict_put program (isoformat_seconds sent_at) chat_entry) updated)"

definition restore_sent :: "pyval \<Rightarrow> pystr \<Rightarrow> pystr \<Rightarrow> pystr option \<Rightarrow> link_cache" where
  "restore_sent cache receiver program previous =
     (let updated = normalize_cache cache;
          chat_entry = (case map_of updated receiver of None \<Rightarrow> [] | Some ps \<Rightarrow> ps);
          entry = (case previous of None \<Rightarrow> dict_pop chat_entry program | Some s \<Rightarrow> dict_put program s chat_entry)
      in if entry \<noteq> [] then dict_put receiver entry updated else dict_pop updated receiver)"

record booking_link_plan =
  plan_message :: pystr
  plan_cache :: "link_cache option"
  plan_program_id :: "pystr option"
  plan_previous :: "pystr option"

definition plan_booking_link :: "pystr \<Rightarrow> pystr \<Rightarrow> pystr option \<Rightarrow> pyval \<Rightarrow> int \<Rightarrow> int \<Rightarrow> booking_link_plan" where
  "plan_booking_link message receiver venue_id cache now cooldown =
     (case program_for_venue venue_id of
        None \<Rightarrow> \<lparr>plan_message = message, plan_cache = None, plan_program_id = None, plan_previous = None\<rparr>
      | Some program \<Rightarrow>
          if is_cooling_down (last_sent_at cache receiver (program_id program)) now cooldown
          then \<lparr>plan_message = message, plan_cache = None, plan_program_id = Some (program_id program), plan_previous = None\<rparr>
          else \<lparr>plan_message = attach_footer message (link program),
                plan_cache = Some (mark_sent cache receiver (program_id program) now),
                plan_program_id = Some (program_id program),
                plan_previous = previous_timestamp cache receiver (program_id program)\<rparr>)"

end
