(* ===== verification/WechatWorker.thy ===== *)
theory WechatWorker
  imports WechatQueue BookingLinks EmailQueue Sender
begin

text \<open>
  The consumer of the WeChat queue (\<open>host_core/wechat_worker.py\<close>). An advisory lock admits one
  consumer; each of its transactions is an operation below. What the sender answers is an argument.
\<close>

definition WECHAT_MAX_ATTEMPTS :: int where
  [py_eval]: "WECHAT_MAX_ATTEMPTS = 3"

definition EMAIL_SUBSCRIPTION_GUIDE :: pystr where
  "EMAIL_SUBSCRIPTION_GUIDE = [128236, 32, 24819, 25353, 20559, 22909, 25509, 25910, 22330, 22320, 25552, 37266, 65311, 35746, 38405,
     37038, 20214, 65306, 10] @ u ''https://courts.zacks.vision/''"

definition guide_suffix :: pystr where
  "guide_suffix = [10, 10] @ EMAIL_SUBSCRIPTION_GUIDE"

definition SENDER_ERRORS :: "pystr list" where
  "SENDER_ERRORS = map u [''device_busy'', ''device_not_ready'', ''service_misconfigured'', ''ledger_unavailable'', ''wechat_not_ready'',
     ''contact_not_found'', ''appium_timeout'', ''send_failed'', ''submission_unknown'', ''idempotency_conflict'', ''invalid_request'',
     ''device_not_allowed'']"

definition SENDER_PROTOCOL_VERSION :: int where
  [py_eval]: "SENDER_PROTOCOL_VERSION = 1"

section \<open>Claiming and finishing\<close>

definition is_waiting :: "status \<Rightarrow> bool" where
  [py_eval]: "is_waiting s \<longleftrightarrow> s = Pending \<or> s = Retry \<or> s = Processing"

definition interrupt_dispatch :: "instant \<Rightarrow> wechat_row list \<Rightarrow> wechat_row list" where
  "interrupt_dispatch now = sql_update (\<lambda>w. w_status w = Dispatching \<and> lt_opt (w_lease_until w) now)
     (\<lambda>w. w\<lparr>w_status := SubmissionUnknown, w_updated_at := now,
        w_last_error := Some (u ''dispatch interrupted; investigate before replay'')\<rparr>)"

definition expire_waiting :: "instant \<Rightarrow> wechat_row list \<Rightarrow> wechat_row list" where
  "expire_waiting now = sql_update (\<lambda>w. is_waiting (w_status w) \<and> w_expires_at w \<le> now)
     (\<lambda>w. w\<lparr>w_status := Expired, w_updated_at := now\<rparr>)"

definition wechat_due :: "instant \<Rightarrow> wechat_row \<Rightarrow> bool" where
  [py_eval]: "wechat_due now w \<longleftrightarrow> is_waiting (w_status w) \<and> w_next_attempt_at w \<le> now \<and> now < w_expires_at w
     \<and> (w_lease_until w = None \<or> lt_opt (w_lease_until w) now)"

text \<open>\<open>locked\<close> are the rows other transactions hold, which SKIP LOCKED passes over.\<close>

definition wechat_claim :: "pystr \<Rightarrow> instant \<Rightarrow> (pystr \<Rightarrow> bool) \<Rightarrow> db \<Rightarrow> db \<times> wechat_row option" where
  "wechat_claim worker now locked db =
     (let rows = expire_waiting now (interrupt_dispatch now (wechat_outbox db)) in
      case sort_key w_created_at (filter (\<lambda>w. wechat_due now w \<and> \<not> locked (w_id w)) rows) of
        [] \<Rightarrow> (db\<lparr>wechat_outbox := rows\<rparr>, None)
      | row # _ \<Rightarrow>
          (db\<lparr>wechat_outbox := sql_update (\<lambda>w. w_id w = w_id row)
                (\<lambda>w. w\<lparr>w_status := Processing, w_lease_owner := Some worker, w_lease_until := Some (now + seconds 300),
                      w_attempt_count := w_attempt_count w + 1, w_updated_at := now\<rparr>) rows\<rparr>,
           Some (row\<lparr>w_attempt_count := w_attempt_count row + 1\<rparr>)))"

definition receiver_hash :: "pyenv \<Rightarrow> wechat_row \<Rightarrow> pystr" where
  [py_eval]: "receiver_hash E row = sha256_hex E (w_receiver row)"

definition cooldown_key :: "cooldown_row \<Rightarrow> pystr \<times> pystr" where
  [py_eval]: "cooldown_key c = (bl_receiver_hash c, bl_program_id c)"

definition finished_wechat :: "status \<Rightarrow> pystr option \<Rightarrow> instant \<Rightarrow> wechat_row \<Rightarrow> wechat_row" where
  "finished_wechat st reason now w = w\<lparr>w_status := st, w_last_error := reason,
     w_sent_at := (if st = Sent then Some now else w_sent_at w), w_next_attempt_at := now + seconds 15,
     w_lease_owner := None, w_lease_until := None, w_updated_at := now\<rparr>"

definition wechat_finish :: "pyenv \<Rightarrow> wechat_row \<Rightarrow> pystr \<Rightarrow> status \<Rightarrow> pystr option \<Rightarrow> instant \<Rightarrow> db \<Rightarrow> db" where
  "wechat_finish E row worker st reason now db =
     (let db1 = db\<lparr>wechat_outbox := sql_update (\<lambda>w. w_id w = w_id row \<and> w_lease_owner w = Some worker)
            (finished_wechat st reason now) (wechat_outbox db)\<rparr>
      in case w_program_id row of
           Some program \<Rightarrow>
             if st = Sent \<and> program \<noteq> [] then
               db1\<lparr>booking_link_cooldowns := upsert cooldown_key (\<lambda>old new. old\<lparr>bl_sent_at := bl_sent_at new\<rparr>)
                 \<lparr>bl_receiver_hash = receiver_hash E row, bl_program_id = program, bl_sent_at = now\<rparr> (booking_link_cooldowns db1)\<rparr>
             else db1
         | None \<Rightarrow> db1)"

section \<open>Composing the message\<close>

text \<open>
  Whether the chat already had its guide this morning, or may have: a digest sent in the morning
  hours, or an unsettled one of today that carries the guide.
\<close>

definition guided_this_morning :: "instant \<Rightarrow> wechat_row \<Rightarrow> wechat_row \<Rightarrow> bool" where
  [py_eval]: "guided_this_morning day_start row w \<longleftrightarrow> w_receiver w = w_receiver row \<and> w_id w \<noteq> w_id row
     \<and> (w_status w = Sent \<and> ge_opt (w_sent_at w) (day_start + hours 6) \<and> lt_opt (w_sent_at w) (day_start + hours 12)
        \<or> (w_status w = Dispatching \<or> w_status w = SubmissionUnknown) \<and> day_start \<le> w_created_at w
          \<and> w_created_at w < day_start + days 1
          \<and> (case w_outbound_message w of None \<Rightarrow> False | Some m \<Rightarrow> endswith m guide_suffix))"

definition email_subscription_footer :: "db \<Rightarrow> wechat_row \<Rightarrow> pystr \<Rightarrow> instant \<Rightarrow> pystr" where
  "email_subscription_footer db row message now =
     (let m = removesuffix message guide_suffix; day_start = shanghai_midnight (shanghai_date now) in
      if \<not> (6 \<le> shanghai_hour now \<and> shanghai_hour now < 12) then m
      else if list_ex (guided_this_morning day_start row) (wechat_outbox db) then m else m @ guide_suffix)"

definition booking_link_due :: "pyenv \<Rightarrow> db \<Rightarrow> wechat_row \<Rightarrow> booking_mini_program \<Rightarrow> instant \<Rightarrow> bool" where
  [py_eval]: "booking_link_due E db row program now \<longleftrightarrow>
     (case find_row cooldown_key (receiver_hash E row, program_id program) (booking_link_cooldowns db) of
        None \<Rightarrow> True | Some c \<Rightarrow> BOOKING_LINK_COOLDOWN \<le> now - bl_sent_at c)"

text \<open>The outbound text and the booking program its footer is for.\<close>

definition compose_outbound :: "pyenv \<Rightarrow> db \<Rightarrow> wechat_row \<Rightarrow> pystr \<Rightarrow> instant \<Rightarrow> pystr \<times> pystr option" where
  "compose_outbound E db row message now =
     (let outbound = email_subscription_footer db row message now in
      if endswith outbound guide_suffix then (outbound, None)
      else case w_outbound_message row of
        Some previous \<Rightarrow>
          if previous \<noteq> [] \<and> \<not> endswith previous guide_suffix then (previous, w_program_id row)
          else (case program_for_venue (Some (w_venue_id row)) of
                  None \<Rightarrow> (outbound, None)
                | Some program \<Rightarrow> if booking_link_due E db row program now
                    then (attach_footer outbound (link program), Some (program_id program)) else (outbound, None))
      | None \<Rightarrow>
          (case program_for_venue (Some (w_venue_id row)) of
             None \<Rightarrow> (outbound, None)
           | Some program \<Rightarrow> if booking_link_due E db row program now
               then (attach_footer outbound (link program), Some (program_id program)) else (outbound, None)))"

datatype prepare_result = Prepared wechat_row | Withdrawn | PrepareError enqueue_error

definition wechat_prepare :: "pyenv \<Rightarrow> wechat_row \<Rightarrow> pystr \<Rightarrow> instant \<Rightarrow> instant \<Rightarrow> db \<Rightarrow> db \<times> prepare_result" where
  "wechat_prepare E row worker now sqlnow db =
     (if \<not> active_subscription_for_venue db (w_venue_id row) sqlnow
      then (wechat_finish E row worker Cancelled (Some (u ''no_active_subscription'')) sqlnow db, Withdrawn)
      else case open_slots (\<lambda>s. sl_event_key s \<in> set (w_event_keys row)) sqlnow db of
        Inl e \<Rightarrow> (db, PrepareError e)
      | Inr slots \<Rightarrow>
          (case current_message (w_message row) slots of
             Inl e \<Rightarrow> (db, PrepareError (BadLine e))
           | Inr (message, keys, _) \<Rightarrow>
               if keys = []
               then (wechat_finish E row worker Expired (Some (u ''availability_changed'')) sqlnow db, Withdrawn)
               else
                 let row1 = (if message \<noteq> w_message row then row\<lparr>w_outbound_message := None, w_message := message\<rparr> else row)
                       \<lparr>w_event_keys := keys\<rparr>
                 in case compose_outbound E db row1 message now of (outbound, program) \<Rightarrow>
                   (db\<lparr>wechat_outbox := sql_update
                        (\<lambda>w. w_id w = w_id row1 \<and> w_lease_owner w = Some worker \<and> w_status w = Processing)
                        (\<lambda>w. w\<lparr>w_status := Dispatching, w_outbound_message := Some outbound, w_message := w_message row1,
                              w_event_keys := keys, w_program_id := program, w_updated_at := sqlnow\<rparr>) (wechat_outbox db)\<rparr>,
                    Prepared (row1\<lparr>w_outbound_message := Some outbound, w_program_id := program\<rparr>))))"

section \<open>Delivering\<close>

definition retry_status :: "wechat_row \<Rightarrow> status" where
  [py_eval]: "retry_status row = (if w_attempt_count row < WECHAT_MAX_ATTEMPTS then Retry else Failed)"

text \<open>\<open>value == n\<close> for a decoded value: numbers compare by value, and \<open>True\<close> is 1.\<close>

fun equals_int :: "pyval \<Rightarrow> int \<Rightarrow> bool" where
  "equals_int (PInt i) n = (i = n)"
| "equals_int (PBool b) n = ((if b then 1 else 0) = n)"
| "equals_int (PFloat r) n = (r = of_int n)"
| "equals_int _ n = False"

fun unhashable :: "pyval \<Rightarrow> bool" where
  "unhashable (PList _) = True"
| "unhashable (PDict _) = True"
| "unhashable _ = False"

record readiness =
  rd_ok :: bool
  rd_durable :: bool
  rd_protocol :: pyval

definition sender_ready :: "readiness \<Rightarrow> bool" where
  [py_eval]: "sender_ready r \<longleftrightarrow> rd_ok r \<and> rd_durable r \<and> equals_int (rd_protocol r) SENDER_PROTOCOL_VERSION"

text \<open>What comes back of the request to the sender: a connection that timed out, an exception, or a response.\<close>

datatype post_result = PostConnectTimeout | PostRaises pystr | PostResponse nat pyval

definition send_key :: "pyenv \<Rightarrow> pystr \<Rightarrow> pystr \<Rightarrow> pystr" where
  [py_eval]: "send_key E i outbound = sha256_hex E (i @ [0] @ outbound)"

definition retry_error :: "pystr \<Rightarrow> bool" where
  [py_eval]: "retry_error e \<longleftrightarrow> e \<in> set (map u [''device_busy'', ''device_not_ready'', ''service_misconfigured'', ''ledger_unavailable''])"

definition response_error :: "pyenv \<Rightarrow> (pystr \<times> pyval) list \<Rightarrow> pystr" where
  [py_eval]: "response_error E payload =
     (let e = py_str E (py_or (dget payload (u ''error'')) (PStr (u ''sender_result_unknown''))) in
      if e \<in> set SENDER_ERRORS then e else u ''sender_result_unknown'')"

text \<open>The status and the reason a response leads to.\<close>

definition classify :: "pyenv \<Rightarrow> wechat_row \<Rightarrow> post_result \<Rightarrow> status \<times> pystr option" where
  "classify E row r = (case r of
     PostConnectTimeout \<Rightarrow> (retry_status row, Some (u ''connection_timeout_before_submission''))
   | PostRaises name \<Rightarrow> (SubmissionUnknown, Some name)
   | PostResponse code body \<Rightarrow>
       (case body of
          PDict payload \<Rightarrow>
            let err = response_error E payload in
            if code = 200 \<and> dget payload (u ''success'') = PBool True then (Sent, None)
            else if retry_error err
               \<or> dget payload (u ''safe_to_retry'') = PBool True \<and> dget payload (u ''submission_state'') = PStr (u ''not_submitted'')
                 \<and> equals_int (dget payload (u ''sent_count'')) 0 \<and> err \<in> set SENDER_ERRORS
            then (retry_status row, Some err)
            else if unhashable (dget payload (u ''error'')) then (SubmissionUnknown, Some (u ''TypeError''))
            else if dget payload (u ''error'') = PStr (u ''invalid_request'') \<or> dget payload (u ''error'') = PStr (u ''device_not_allowed'')
            then (Failed, Some (py_str E (dget payload (u ''error''))))
            else (SubmissionUnknown, Some err)
        | _ \<Rightarrow> (SubmissionUnknown, Some (u ''ValueError''))))"

text \<open>
  \<open>deliver\<close> up to the request: \<open>Inl\<close> when there is none. The request carries the device, the
  receiver, the outbound message and its key.
\<close>

definition delivery_request :: "pyenv \<Rightarrow> wechat_row \<Rightarrow> send_request" where
  [py_eval]: "delivery_request E row = (case w_outbound_message row of
     None \<Rightarrow> \<lparr>rq_receiver = w_receiver row, rq_messages = [], rq_device_name = w_device_name row, rq_idempotency_key = None\<rparr>
   | Some m \<Rightarrow> \<lparr>rq_receiver = w_receiver row, rq_messages = [m], rq_device_name = w_device_name row,
       rq_idempotency_key = Some (send_key E (w_id row) m)\<rparr>)"

definition begin_delivery :: "pyenv \<Rightarrow> wechat_row \<Rightarrow> pystr \<Rightarrow> readiness \<Rightarrow> instant \<Rightarrow> instant \<Rightarrow> db \<Rightarrow> db \<times> prepare_result" where
  "begin_delivery E row worker ready now sqlnow db =
     (if \<not> delivery_enabled db then (wechat_finish E row worker Retry (Some (u ''delivery_paused'')) sqlnow db, Withdrawn)
      else if \<not> sender_ready ready
      then (wechat_finish E row worker (retry_status row) (Some (u ''sender_not_ready'')) sqlnow db, Withdrawn)
      else wechat_prepare E row worker now sqlnow db)"

definition end_delivery :: "pyenv \<Rightarrow> wechat_row \<Rightarrow> pystr \<Rightarrow> post_result \<Rightarrow> instant \<Rightarrow> db \<Rightarrow> db" where
  "end_delivery E row worker r sqlnow db =
     (case classify E row r of (st, reason) \<Rightarrow> wechat_finish E row worker st reason sqlnow db)"

section \<open>Reconciling unknown submissions\<close>

definition unknown_due :: "instant \<Rightarrow> wechat_row \<Rightarrow> bool" where
  [py_eval]: "unknown_due now w \<longleftrightarrow> w_status w = SubmissionUnknown \<and> now - days 1 < w_created_at w \<and> w_next_attempt_at w \<le> now"

definition claim_unknown :: "instant \<Rightarrow> (pystr \<Rightarrow> bool) \<Rightarrow> db \<Rightarrow> db \<times> wechat_row list" where
  "claim_unknown now locked db =
     (let rows = take 5 (sort_key w_next_attempt_at (filter (\<lambda>w. unknown_due now w \<and> \<not> locked (w_id w)) (wechat_outbox db))) in
      (db\<lparr>wechat_outbox := sql_update (\<lambda>w. w_id w \<in> set (map w_id rows) \<and> w_status w = SubmissionUnknown)
           (\<lambda>w. w\<lparr>w_next_attempt_at := now + minutes 5\<rparr>) (wechat_outbox db)\<rparr>, rows))"

text \<open>What the status endpoint answers for a key and a payload: no usable answer, or its evidence with the time it is stamped with.\<close>

datatype evidence_reply = NoEvidence | Evidence pyval pyval instant

definition confirms :: "evidence_reply \<Rightarrow> instant option" where
  [py_eval]: "confirms e = (case e of NoEvidence \<Rightarrow> None
     | Evidence confirmed count stamp \<Rightarrow> if confirmed = PBool True \<and> equals_int count 1 then Some stamp else None)"

definition confirm_unknown :: "pyenv \<Rightarrow> wechat_row \<Rightarrow> instant \<Rightarrow> instant \<Rightarrow> db \<Rightarrow> db" where
  "confirm_unknown E row stamp sqlnow db =
     (let db1 = db\<lparr>wechat_outbox := sql_update (\<lambda>w. w_id w = w_id row \<and> w_status w = SubmissionUnknown)
            (\<lambda>w. w\<lparr>w_status := Sent, w_sent_at := Some stamp, w_last_error := None, w_lease_owner := None, w_lease_until := None,
                  w_updated_at := sqlnow\<rparr>) (wechat_outbox db)\<rparr>
      in case w_program_id row of
           Some program \<Rightarrow>
             if program \<noteq> [] then
               db1\<lparr>booking_link_cooldowns := upsert cooldown_key (\<lambda>old new. old\<lparr>bl_sent_at := max (bl_sent_at old) (bl_sent_at new)\<rparr>)
                 \<lparr>bl_receiver_hash = receiver_hash E row, bl_program_id = program, bl_sent_at = stamp\<rparr> (booking_link_cooldowns db1)\<rparr>
             else db1
         | None \<Rightarrow> db1)"

text \<open>
  One row of the loop: first the derived key, then the queue identifier. A request that fails ends
  the row's turn; an answer that does not confirm moves on to the next key.
\<close>

definition reconcile_row :: "pyenv \<Rightarrow> (pystr \<Rightarrow> pystr \<Rightarrow> evidence_reply) \<Rightarrow> wechat_row \<Rightarrow> instant \<Rightarrow> db \<Rightarrow> db" where
  "reconcile_row E ask row sqlnow db =
     (case w_outbound_message row of
        None \<Rightarrow> db
      | Some m \<Rightarrow>
          if m = [] then db
          else
            let h = payload_hash_of E (w_device_name row) (w_receiver row) [m];
                first = ask (send_key E (w_id row) m) h
            in case confirms first of
                 Some stamp \<Rightarrow> confirm_unknown E row stamp sqlnow db
               | None \<Rightarrow>
                   if first = NoEvidence then db
                   else (case confirms (ask (w_id row) h) of
                           Some stamp \<Rightarrow> confirm_unknown E row stamp sqlnow db
                         | None \<Rightarrow> db))"

definition reconcile_unknown :: "pyenv \<Rightarrow> (pystr \<Rightarrow> pystr \<Rightarrow> evidence_reply) \<Rightarrow> instant \<Rightarrow> (pystr \<Rightarrow> bool) \<Rightarrow> db \<Rightarrow> db" where
  "reconcile_unknown E ask sqlnow locked db =
     (case claim_unknown sqlnow locked db of (db1, rows) \<Rightarrow> fold (\<lambda>row. reconcile_row E ask row sqlnow) rows db1)"

end
