(* ===== verification/WechatDelivery.thy ===== *)
theory WechatDelivery
  imports WechatWorker WechatQueueLaws SenderLaws Scenario
begin

text \<open>
  The WeChat consumer and the sender agent together: their transactions interleaved with enqueues,
  crashes and requests of others. The consumer is alone (an advisory lock), its transactions are not
  one step: between claiming, dispatching, posting and recording the outcome it may die.
\<close>

section \<open>The answer of the sender\<close>

text \<open>The HTTP response of a handled request; a request whose handler died has none.\<close>

definition response_of :: "send_reply \<Rightarrow> post_result" where
  "response_of r = (case r of
     JsonError code e \<Rightarrow> PostResponse code (PDict [(u ''success'', PBool False), (u ''error'', PStr e)])
   | Reply code v \<Rightarrow> PostResponse code v
   | NoReply \<Rightarrow> PostRaises (u ''ConnectionError''))"

lemma retry_status_cases: "retry_status row = Retry \<or> retry_status row = Failed"
  by (simp add: retry_status_def)

text \<open>A submission that may have happened is never classified as retry.\<close>

lemma started_not_retried:
  assumes "submission_started p"
  shows "fst (classify E row (PostResponse code (failure_payload (error_code e) p))) \<noteq> Retry"
proof -
  have f: "dget d (u ''success'') = PBool False" "dget d (u ''error'') = PStr (error_code e)" "dget d (u ''safe_to_retry'') = PBool False"
    if "failure_payload (error_code e) p = PDict d" for d
    using that assms by (auto simp: failure_payload_def dget_def u_def)
  obtain d where d: "failure_payload (error_code e) p = PDict d" by (simp add: failure_payload_def)
  have "\<not> retry_error (response_error E d)"
    using f [OF d] by (cases e) (simp_all add: response_error_def error_code_def SENDER_ERRORS_def retry_error_def py_or_def u_def)
  then show ?thesis using f [OF d] d by (simp add: classify_def Let_def)
qed

lemma tapped_not_retried:
  assumes "send_wechat E req dv now t = (t', tapped, reply)" "tapped \<noteq> []"
  shows "fst (classify E row (response_of reply)) \<noteq> Retry"
  using assms(1)
proof (cases rule: send_wechat_cases)
  case (claimed t1)
  let ?k = "request_key E req"
  obtain t2 p tp res where s: "send_text_messages ?k now req dv (t1, fresh_progress) = ((t2, p), tp, res)" by (metis surj_pair)
  note eq = claimed(2) [unfolded send_claimed_def s prod.case]
  have "tp = tapped" using eq by (cases res) (auto simp: Let_def split: prod.splits)
  then have started: "submission_started p" using send_text_marks [OF s] assms(2) by blast
  show ?thesis
  proof (cases res)
    case Died
    then have "reply = NoReply" using eq by simp
    then show ?thesis by (simp add: response_of_def classify_def)
  next
    case Completed
    then have "reply = Reply 200 (success_payload req dv) \<or> reply = JsonError 500 (u ''submission_unknown'')"
      using eq by (auto simp: record_outcome_def split: if_splits)
    moreover have "fst (classify E row (response_of (JsonError 500 (u ''submission_unknown'')))) \<noteq> Retry"
      by (simp add: response_of_def classify_def dget_def response_error_def SENDER_ERRORS_def retry_error_def py_or_def u_def Let_def)
    moreover have "fst (classify E row (response_of (Reply 200 (success_payload req dv)))) = Sent"
      by (simp add: response_of_def classify_def dget_def success_payload_def Let_def)
    ultimately show ?thesis by auto
  next
    case (Raised x)
    define e where "e = (case x of SenderError e \<Rightarrow> e | _ \<Rightarrow> SendFailedError)"
    have "(case x of SenderError e \<Rightarrow> error_code e | _ \<Rightarrow> u ''send_failed'') = error_code e"
      by (cases x) (simp_all add: e_def error_code_def)
    then have "(\<exists>code. reply = Reply code (failure_payload (error_code e) p)) \<or> reply = JsonError 500 (u ''submission_unknown'')"
      using eq Raised by (auto simp: record_outcome_def Let_def split: if_splits)
    moreover have "fst (classify E row (response_of (JsonError 500 (u ''submission_unknown'')))) \<noteq> Retry"
      by (simp add: response_of_def classify_def dget_def response_error_def SENDER_ERRORS_def retry_error_def py_or_def u_def Let_def)
    ultimately show ?thesis using started_not_retried [OF started] by (auto simp: response_of_def)
  qed
qed (use assms in simp)

lemma endpoint_tapped_not_retried:
  assumes "send_endpoint E req dv now t = (t', tapped, reply)" "tapped \<noteq> []"
  shows "fst (classify E row (response_of reply)) \<noteq> Retry"
  using assms tapped_not_retried [of E req dv now t t' tapped reply row] by (cases "send_request_valid req") (simp_all add: send_endpoint_def)

section \<open>The system\<close>

datatype activity = Idle | Holding pystr wechat_row | Posting pystr wechat_row | Answered pystr wechat_row post_result

text \<open>\<open>taps\<close> lists the queue rows for which a post tapped the send button, once per such post.\<close>

record wechat_world =
  ww_db :: db
  ww_ledger :: ledger
  ww_activity :: activity
  ww_taps :: "pystr list"

inductive wechat_step :: "pyenv \<Rightarrow> wechat_world \<Rightarrow> wechat_world \<Rightarrow> bool" for E where
  ww_enqueue: "wechat_step E w (w\<lparr>ww_db := fst (enqueue E payload now sqlnow (ww_db w))\<rparr>)"
| ww_claim: "ww_activity w = Idle \<Longrightarrow> wechat_claim worker now locked (ww_db w) = (db', Some row) \<Longrightarrow>
    wechat_step E w (w\<lparr>ww_db := db', ww_activity := Holding worker row\<rparr>)"
| ww_none: "ww_activity w = Idle \<Longrightarrow> wechat_claim worker now locked (ww_db w) = (db', None) \<Longrightarrow>
    wechat_step E w (w\<lparr>ww_db := db'\<rparr>)"
| ww_begin: "ww_activity w = Holding worker row \<Longrightarrow> begin_delivery E row worker ready now sqlnow (ww_db w) = (db', r) \<Longrightarrow>
    wechat_step E w (w\<lparr>ww_db := db', ww_activity := (case r of Prepared row' \<Rightarrow> Posting worker row' | _ \<Rightarrow> Idle)\<rparr>)"
| ww_post: "ww_activity w = Posting worker row \<Longrightarrow> send_endpoint E (delivery_request E row) dv now (ww_ledger w) = (t', tapped, reply) \<Longrightarrow>
    r = response_of reply \<or> r = PostRaises name \<Longrightarrow>
    wechat_step E w (w\<lparr>ww_ledger := t', ww_activity := Answered worker row r, ww_taps := (if tapped = [] then [] else [w_id row]) @ ww_taps w\<rparr>)"
| ww_unreached: "ww_activity w = Posting worker row \<Longrightarrow> r = PostConnectTimeout \<or> r = PostRaises name \<Longrightarrow>
    wechat_step E w (w\<lparr>ww_activity := Answered worker row r\<rparr>)"
| ww_record: "ww_activity w = Answered worker row r \<Longrightarrow>
    wechat_step E w (w\<lparr>ww_db := end_delivery E row worker r sqlnow (ww_db w), ww_activity := Idle\<rparr>)"
| ww_crash: "wechat_step E w (w\<lparr>ww_activity := Idle\<rparr>)"
| ww_claim_unknown: "wechat_step E w (w\<lparr>ww_db := fst (claim_unknown sqlnow locked (ww_db w))\<rparr>)"
| ww_reconcile: "wechat_step E w (w\<lparr>ww_db := reconcile_row E ask row sqlnow (ww_db w)\<rparr>)"
| ww_elsewhere: "wechat_outbox db' = wechat_outbox (ww_db w) \<Longrightarrow> wechat_step E w (w\<lparr>ww_db := db'\<rparr>)"
| ww_other: "wechat_step E w (w\<lparr>ww_ledger := device_step E q (ww_ledger w)\<rparr>)"

definition wechat_init :: "wechat_world \<Rightarrow> bool" where
  "wechat_init w \<longleftrightarrow> distinct (map w_id (wechat_outbox (ww_db w))) \<and> ww_activity w = Idle \<and> ww_taps w = []"

section \<open>The invariant\<close>

text \<open>A row past its dispatch: no transaction leads from such a status back to a waiting one.\<close>

definition past_dispatch :: "status \<Rightarrow> bool" where
  "past_dispatch s \<longleftrightarrow> s = Dispatching \<or> s = SubmissionUnknown \<or> s = Sent \<or> s = Failed"

definition held_as :: "status \<Rightarrow> pystr \<Rightarrow> pystr \<Rightarrow> wechat_row list \<Rightarrow> bool" where
  "held_as st worker i t \<longleftrightarrow> (case find_row w_id i t of None \<Rightarrow> False | Some x \<Rightarrow> w_status x = st \<and> w_lease_owner x = Some worker)"

definition past_row :: "wechat_row list \<Rightarrow> pystr \<Rightarrow> bool" where
  "past_row t i \<longleftrightarrow> (case find_row w_id i t of None \<Rightarrow> False | Some x \<Rightarrow> past_dispatch (w_status x))"

definition activity_inv :: "pyenv \<Rightarrow> wechat_row list \<Rightarrow> pystr list \<Rightarrow> activity \<Rightarrow> bool" where
  "activity_inv E t taps a = (case a of
     Idle \<Rightarrow> True
   | Holding worker row \<Rightarrow> held_as Processing worker (w_id row) t \<and> w_id row \<notin> set taps
   | Posting worker row \<Rightarrow> held_as Dispatching worker (w_id row) t \<and> w_id row \<notin> set taps
   | Answered worker row r \<Rightarrow> held_as Dispatching worker (w_id row) t \<and> (w_id row \<in> set taps \<longrightarrow> fst (classify E row r) \<noteq> Retry))"

definition wechat_inv :: "pyenv \<Rightarrow> wechat_world \<Rightarrow> bool" where
  "wechat_inv E w \<longleftrightarrow> distinct (map w_id (wechat_outbox (ww_db w))) \<and> distinct (ww_taps w)
     \<and> list_all (past_row (wechat_outbox (ww_db w))) (ww_taps w)
     \<and> activity_inv E (wechat_outbox (ww_db w)) (ww_taps w) (ww_activity w)"

text \<open>An update that keeps identifiers, and leaves what is held or past dispatch.\<close>

definition calm_update :: "wechat_row list \<Rightarrow> wechat_row list \<Rightarrow> bool" where
  "calm_update t t' \<longleftrightarrow> (distinct (map w_id t) \<longrightarrow> distinct (map w_id t'))
     \<and> (\<forall>i x. find_row w_id i t = Some x \<longrightarrow> (\<exists>y. find_row w_id i t' = Some y
          \<and> (past_dispatch (w_status x) \<longrightarrow> past_dispatch (w_status y))
          \<and> (w_status x = Processing \<or> w_status x = Dispatching \<longrightarrow> w_status y = w_status x \<and> w_lease_owner y = w_lease_owner x)))"

lemma calm_keeps:
  assumes "calm_update t t'"
  shows "distinct (map w_id t) \<Longrightarrow> distinct (map w_id t')" "past_row t i \<Longrightarrow> past_row t' i"
    "st = Processing \<or> st = Dispatching \<Longrightarrow> held_as st worker i t \<Longrightarrow> held_as st worker i t'"
  using assms by (fastforce simp: calm_update_def past_row_def held_as_def split: option.splits)+

lemma calm_activity: "calm_update t t' \<Longrightarrow> activity_inv E t taps a \<Longrightarrow> activity_inv E t' taps a"
  by (cases a) (auto simp: activity_inv_def intro: calm_keeps(3))

lemma calm_step:
  assumes "calm_update (wechat_outbox (ww_db w)) (wechat_outbox db')" "wechat_inv E w"
  shows "wechat_inv E (w\<lparr>ww_db := db'\<rparr>)"
  using assms calm_keeps [OF assms(1)] calm_activity [OF assms(1)] by (auto simp: wechat_inv_def list_all_iff)

lemma calm_update_refl [simp]: "calm_update t t"
  by (simp add: calm_update_def)

lemma calm_trans: "calm_update a b \<Longrightarrow> calm_update b c \<Longrightarrow> calm_update a c"
  unfolding calm_update_def by (metis past_dispatch_def)

lemma calm_sql_update:
  assumes "\<And>x. w_id (f x) = w_id x" "\<And>x. p x \<Longrightarrow> w_status x \<noteq> Processing \<and> w_status x \<noteq> Dispatching"
    "\<And>x. p x \<Longrightarrow> past_dispatch (w_status x) \<Longrightarrow> past_dispatch (w_status (f x))"
  shows "calm_update t (sql_update p f t)"
  unfolding calm_update_def using assms by (auto simp: map_key_sql_update find_row_sql_update)

lemma calm_insert: "calm_update t (insert_or_ignore w_id r t)"
  unfolding calm_update_def by (auto simp: insert_or_ignore_def find_row_append has_key_iff)

lemma incident_outbox: "wechat_outbox (record_wechat_incident E src r m reason c now db) = wechat_outbox db"
  by (simp add: record_wechat_incident_def Let_def)

lemma incidents_outbox: "wechat_outbox (fold (\<lambda>r. record_wechat_incident E src r m reason c now) rs db) = wechat_outbox db"
  by (induction rs arbitrary: db) (simp_all add: incident_outbox)

lemma calm_inserts: "calm_update t (fold (\<lambda>r. insert_or_ignore w_id (g r)) rs t)"
proof (induction rs arbitrary: t)
  case (Cons r rs)
  show ?case using calm_trans [OF calm_insert [of t "g r"] Cons.IH] by simp
qed simp

lemma enqueue_payload_calm: "enqueue_payload E payload now sqlnow db = Inr (db', r) \<Longrightarrow> calm_update (wechat_outbox db) (wechat_outbox db')"
  by (auto simp: enqueue_payload_def Let_def ebind_def enqueue_rows_def calm_inserts
      split: pyval.split_asm if_split_asm sum.split_asm prod.split_asm)

lemma enqueue_calm: "calm_update (wechat_outbox db) (wechat_outbox (fst (enqueue E payload now sqlnow db)))"
  using enqueue_payload_calm [of E payload now sqlnow db]
  by (auto simp: enqueue_def Let_def incidents_outbox split: sum.splits prod.splits)

lemma claim_unknown_calm: "calm_update (wechat_outbox db) (wechat_outbox (fst (claim_unknown now locked db)))"
  by (auto simp: claim_unknown_def Let_def intro!: calm_sql_update)

lemma confirm_calm: "calm_update (wechat_outbox db) (wechat_outbox (confirm_unknown E row stamp sqlnow db))"
proof -
  have "calm_update (wechat_outbox db) (sql_update (\<lambda>w. w_id w = w_id row \<and> w_status w = SubmissionUnknown)
     (\<lambda>w. w\<lparr>w_status := Sent, w_sent_at := Some stamp, w_last_error := None, w_lease_owner := None, w_lease_until := None,
        w_updated_at := sqlnow\<rparr>) (wechat_outbox db))"
    by (rule calm_sql_update) (auto simp: past_dispatch_def)
  then show ?thesis by (simp add: confirm_unknown_def Let_def split: option.splits)
qed

lemma reconcile_calm: "calm_update (wechat_outbox db) (wechat_outbox (reconcile_row E ask row sqlnow db))"
  by (auto simp: reconcile_row_def Let_def confirm_calm split: option.splits)

section \<open>Claiming and finishing\<close>

lemma finish_outbox:
  "wechat_outbox (wechat_finish E row worker st reason now db) =
     sql_update (\<lambda>w. w_id w = w_id row \<and> w_lease_owner w = Some worker) (finished_wechat st reason now) (wechat_outbox db)"
  by (simp add: wechat_finish_def Let_def split: option.splits)

lemma finish_row:
  "find_row w_id i (wechat_outbox (wechat_finish E row worker st reason now db)) =
     map_option (\<lambda>x. if i = w_id row \<and> w_lease_owner x = Some worker then finished_wechat st reason now x else x)
       (find_row w_id i (wechat_outbox db))"
  unfolding finish_outbox by (rule find_row_update_keyed) (simp add: finished_wechat_def)

lemma finish_keeps:
  "distinct (map w_id (wechat_outbox db)) \<Longrightarrow> distinct (map w_id (wechat_outbox (wechat_finish E row worker st reason now db)))"
  "past_row (wechat_outbox db) i \<Longrightarrow> i \<noteq> w_id row \<or> past_dispatch st \<Longrightarrow> past_row (wechat_outbox (wechat_finish E row worker st reason now db)) i"
proof -
  show "distinct (map w_id (wechat_outbox db)) \<Longrightarrow> distinct (map w_id (wechat_outbox (wechat_finish E row worker st reason now db)))"
    unfolding finish_outbox by (simp add: map_key_sql_update finished_wechat_def)
  show "past_row (wechat_outbox db) i \<Longrightarrow> i \<noteq> w_id row \<or> past_dispatch st \<Longrightarrow> past_row (wechat_outbox (wechat_finish E row worker st reason now db)) i"
    by (auto simp: past_row_def finish_row finished_wechat_def split: option.splits)
qed

lemma past_sql_update:
  assumes "past_row t i" "\<And>x. w_id (f x) = w_id x" "\<And>x. p x \<Longrightarrow> past_dispatch (w_status x) \<Longrightarrow> past_dispatch (w_status (f x))"
  shows "past_row (sql_update p f t) i"
  using assms by (auto simp: past_row_def find_row_sql_update split: option.splits)

lemma swept_ids: "map w_id (expire_waiting now (interrupt_dispatch now t)) = map w_id t"
  by (simp add: expire_waiting_def interrupt_dispatch_def map_key_sql_update)

lemma swept_past: "past_row t i \<Longrightarrow> past_row (expire_waiting now (interrupt_dispatch now t)) i"
  unfolding expire_waiting_def interrupt_dispatch_def
  by (rule past_sql_update, rule past_sql_update) (auto simp: past_dispatch_def is_waiting_def)

lemma claim_keeps:
  assumes "wechat_claim worker now locked db = (db', r)" "distinct (map w_id (wechat_outbox db))"
  shows "distinct (map w_id (wechat_outbox db'))" "past_row (wechat_outbox db) i \<Longrightarrow> past_row (wechat_outbox db') i"
    "r = Some row \<Longrightarrow> held_as Processing worker (w_id row) (wechat_outbox db') \<and> \<not> past_row (wechat_outbox db) (w_id row)"
proof -
  let ?rows = "expire_waiting now (interrupt_dispatch now (wechat_outbox db))"
  let ?f = "\<lambda>w. w\<lparr>w_status := Processing, w_lease_owner := Some worker, w_lease_until := Some (now + seconds 300),
                      w_attempt_count := w_attempt_count w + 1, w_updated_at := now\<rparr>"
  have d: "distinct (map w_id ?rows)" using assms(2) by (simp add: swept_ids)
  consider (none) "wechat_outbox db' = ?rows" "r = None"
    | (some) x where "x \<in> set ?rows" "wechat_due now x" "r = Some (x\<lparr>w_attempt_count := w_attempt_count x + 1\<rparr>)"
        "wechat_outbox db' = sql_update (\<lambda>w. w_id w = w_id x) ?f ?rows"
  proof (cases "sort_key w_created_at (filter (\<lambda>w. wechat_due now w \<and> \<not> locked (w_id w)) ?rows)")
    case Nil
    then show ?thesis using assms(1) none by (auto simp: wechat_claim_def Let_def)
  next
    case (Cons x xs)
    have "set (x # xs) = set (filter (\<lambda>w. wechat_due now w \<and> \<not> locked (w_id w)) ?rows)"
      using Cons set_sort [of w_created_at "filter (\<lambda>w. wechat_due now w \<and> \<not> locked (w_id w)) ?rows"] by metis
    then have "x \<in> set ?rows" "wechat_due now x" by auto
    then show ?thesis using assms(1) Cons some [of x] by (auto simp: wechat_claim_def Let_def)
  qed
  then have "distinct (map w_id (wechat_outbox db')) \<and> (past_row (wechat_outbox db) i \<longrightarrow> past_row (wechat_outbox db') i)
    \<and> (r = Some row \<longrightarrow> held_as Processing worker (w_id row) (wechat_outbox db') \<and> \<not> past_row (wechat_outbox db) (w_id row))"
  proof cases
    case none
    then show ?thesis using d swept_past by simp
  next
    case (some x)
    have fx: "find_row w_id (w_id x) ?rows = Some x" using find_row_unique [OF d some(1)] .
    then have np: "\<not> past_row ?rows (w_id x)" using some(2) by (auto simp: past_row_def wechat_due_def is_waiting_def past_dispatch_def)
    have row: "find_row w_id j (wechat_outbox db') = map_option (\<lambda>y. if j = w_id x then ?f y else y) (find_row w_id j ?rows)" for j
      unfolding some(4) using find_row_update_keyed [where key = w_id and p = "\<lambda>_. True" and f = ?f] by simp
    have "past_row (wechat_outbox db') i" if "past_row (wechat_outbox db) i"
      using swept_past [OF that, of now] np row [of i] by (auto simp: past_row_def split: option.splits)
    moreover have "held_as Processing worker (w_id x) (wechat_outbox db')" using row [of "w_id x"] fx by (simp add: held_as_def)
    ultimately show ?thesis using some(3) d np swept_past [of "wechat_outbox db" "w_id x" now]
      by (auto simp: some(4) map_key_sql_update)
  qed
  then show "distinct (map w_id (wechat_outbox db'))" "past_row (wechat_outbox db) i \<Longrightarrow> past_row (wechat_outbox db') i"
    "r = Some row \<Longrightarrow> held_as Processing worker (w_id row) (wechat_outbox db') \<and> \<not> past_row (wechat_outbox db) (w_id row)" by blast+
qed

section \<open>Every step keeps the invariant\<close>

lemma prepared_row:
  assumes "wechat_prepare E row worker now sqlnow db = (db', r)"
  obtains (prepared) row' f where "r = Prepared row'" "w_id row' = w_id row"
      "wechat_outbox db' = sql_update (\<lambda>w. w_id w = w_id row \<and> (w_lease_owner w = Some worker \<and> w_status w = Processing)) f (wechat_outbox db)"
      "\<And>x. w_id (f x) = w_id x \<and> w_status (f x) = Dispatching \<and> w_lease_owner (f x) = w_lease_owner x"
  | (withdrawn) st reason where "r = Withdrawn" "db' = wechat_finish E row worker st reason sqlnow db"
  | (failed) e where "r = PrepareError e" "db' = db"
proof (cases "active_subscription_for_venue db (w_venue_id row) sqlnow")
  case False
  with assms show ?thesis by (intro withdrawn) (auto simp: wechat_prepare_def)
next
  case active: True
  note eq = assms [unfolded wechat_prepare_def, simplified active simp_thms if_False]
  show ?thesis
  proof (cases "open_slots (\<lambda>s. sl_event_key s \<in> set (w_event_keys row)) sqlnow db")
    case (Inl e)
    with eq show ?thesis by (intro failed) auto
  next
    case slots: (Inr slots)
    show ?thesis
    proof (cases "current_message (w_message row) slots")
      case (Inl e)
      with eq slots show ?thesis by (intro failed) auto
    next
      case (Inr res)
      obtain message keys rejected where res: "res = (message, keys, rejected)" by (cases res)
      show ?thesis
      proof (cases "keys = []")
        case True
        with eq slots Inr res show ?thesis by (intro withdrawn) auto
      next
        case False
        define row1 where "row1 = (if message \<noteq> w_message row then row\<lparr>w_outbound_message := None, w_message := message\<rparr> else row)\<lparr>w_event_keys := keys\<rparr>"
        obtain outbound program where co: "compose_outbound E db row1 message now = (outbound, program)" by (cases "compose_outbound E db row1 message now")
        have i: "w_id row1 = w_id row" by (simp add: row1_def)
        let ?f = "\<lambda>w. w\<lparr>w_status := Dispatching, w_outbound_message := Some outbound, w_message := w_message row1,
                              w_event_keys := keys, w_program_id := program, w_updated_at := sqlnow\<rparr>"
        have "wechat_prepare E row worker now sqlnow db =
          (db\<lparr>wechat_outbox := sql_update (\<lambda>w. w_id w = w_id row1 \<and> w_lease_owner w = Some worker \<and> w_status w = Processing) ?f (wechat_outbox db)\<rparr>,
           Prepared (row1\<lparr>w_outbound_message := Some outbound, w_program_id := program\<rparr>))"
          unfolding wechat_prepare_def Let_def row1_def
          by (simp only: active slots Inr res False co [unfolded row1_def] not_True_eq_False if_False sum.case prod.case)
        then have "r = Prepared (row1\<lparr>w_outbound_message := Some outbound, w_program_id := program\<rparr>)"
          "db' = db\<lparr>wechat_outbox := sql_update (\<lambda>w. w_id w = w_id row1 \<and> w_lease_owner w = Some worker \<and> w_status w = Processing) ?f (wechat_outbox db)\<rparr>"
          using assms by simp_all
        then show ?thesis using i by (intro prepared [of "row1\<lparr>w_outbound_message := Some outbound, w_program_id := program\<rparr>" ?f]) auto
      qed
    qed
  qed
qed

lemma begin_keeps:
  assumes "begin_delivery E row worker ready now sqlnow db = (db', r)" "held_as Processing worker (w_id row) (wechat_outbox db)"
  shows "distinct (map w_id (wechat_outbox db)) \<Longrightarrow> distinct (map w_id (wechat_outbox db'))"
    "past_row (wechat_outbox db) i \<Longrightarrow> past_row (wechat_outbox db') i"
    "r = Prepared row' \<Longrightarrow> w_id row' = w_id row \<and> held_as Dispatching worker (w_id row) (wechat_outbox db')"
proof -
  have np: "\<not> past_row (wechat_outbox db) (w_id row)"
    using assms(2) by (auto simp: held_as_def past_row_def past_dispatch_def split: option.splits)
  consider (finish) st reason where "r = Withdrawn" "db' = wechat_finish E row worker st reason sqlnow db"
    | (prepare) "wechat_prepare E row worker now sqlnow db = (db', r)"
    using assms(1) by (auto simp: begin_delivery_def split: if_split_asm)
  then have "(distinct (map w_id (wechat_outbox db)) \<longrightarrow> distinct (map w_id (wechat_outbox db')))
    \<and> (past_row (wechat_outbox db) i \<longrightarrow> past_row (wechat_outbox db') i)
    \<and> (r = Prepared row' \<longrightarrow> w_id row' = w_id row \<and> held_as Dispatching worker (w_id row) (wechat_outbox db'))"
  proof cases
    case (finish st reason)
    then show ?thesis using finish_keeps(1) finish_keeps(2) [of db i row st E worker reason sqlnow] np by auto
  next
    case prepare
    then show ?thesis
    proof (cases rule: prepared_row)
      case (prepared row'' f)
      have row: "find_row w_id j (wechat_outbox db') = map_option (\<lambda>x. if j = w_id row \<and> (w_lease_owner x = Some worker \<and> w_status x = Processing)
          then f x else x) (find_row w_id j (wechat_outbox db))" for j
        unfolding prepared(3) by (rule find_row_update_keyed) (simp add: prepared(4))
      have "past_row (wechat_outbox db') i" if "past_row (wechat_outbox db) i"
        using that row [of i] prepared(4) by (auto simp: past_row_def past_dispatch_def split: option.splits)
      moreover have "held_as Dispatching worker (w_id row) (wechat_outbox db')"
        using assms(2) row [of "w_id row"] prepared(4) by (auto simp: held_as_def split: option.splits)
      moreover have "map w_id (wechat_outbox db') = map w_id (wechat_outbox db)"
        unfolding prepared(3) by (rule map_key_sql_update) (simp add: prepared(4))
      ultimately show ?thesis using prepared(1,2) by auto
    next
      case (withdrawn st reason)
      then show ?thesis using finish_keeps(1) finish_keeps(2) [of db i row st E worker reason sqlnow] np by auto
    qed simp
  qed
  then show "distinct (map w_id (wechat_outbox db)) \<Longrightarrow> distinct (map w_id (wechat_outbox db'))"
    "past_row (wechat_outbox db) i \<Longrightarrow> past_row (wechat_outbox db') i"
    "r = Prepared row' \<Longrightarrow> w_id row' = w_id row \<and> held_as Dispatching worker (w_id row) (wechat_outbox db')" by blast+
qed

lemma classify_range: "fst (classify E row r) \<in> {Sent, Retry, Failed, SubmissionUnknown}"
  using retry_status_cases [of row] by (auto simp: classify_def Let_def split: post_result.split pyval.split)

lemma wechat_step_inv:
  assumes "wechat_inv E w" "wechat_step E w w'"
  shows "wechat_inv E w'"
  using assms(2)
proof cases
  case (ww_enqueue payload now sqlnow)
  then show ?thesis using calm_step [OF enqueue_calm assms(1)] by simp
next
  case (ww_claim worker now locked db' row)
  note k = claim_keeps [OF ww_claim(3)]
  have inv: "distinct (map w_id (wechat_outbox (ww_db w)))" "distinct (ww_taps w)" "list_all (past_row (wechat_outbox (ww_db w))) (ww_taps w)"
    using assms(1) by (simp_all add: wechat_inv_def)
  then have "w_id row \<notin> set (ww_taps w)" using k(3) [OF inv(1)] by (auto simp: list_all_iff)
  with inv k show ?thesis by (auto simp: ww_claim(1) wechat_inv_def activity_inv_def list_all_iff)
next
  case (ww_none worker now locked db')
  then show ?thesis using claim_keeps [OF ww_none(3)] assms(1) by (auto simp: wechat_inv_def activity_inv_def list_all_iff)
next
  case (ww_begin worker row ready now sqlnow db' r)
  have inv: "distinct (map w_id (wechat_outbox (ww_db w)))" "distinct (ww_taps w)" "list_all (past_row (wechat_outbox (ww_db w))) (ww_taps w)"
    "held_as Processing worker (w_id row) (wechat_outbox (ww_db w))" "w_id row \<notin> set (ww_taps w)"
    using assms(1) ww_begin(2) by (simp_all add: wechat_inv_def activity_inv_def)
  note k = begin_keeps [OF ww_begin(3) inv(4)]
  show ?thesis
  proof (cases r)
    case (Prepared row')
    with k inv show ?thesis by (auto simp: ww_begin(1) wechat_inv_def activity_inv_def list_all_iff)
  qed (use k inv in \<open>auto simp: ww_begin(1) wechat_inv_def activity_inv_def list_all_iff\<close>)
next
  case (ww_post worker row dv now t' tapped reply r name)
  have inv: "distinct (map w_id (wechat_outbox (ww_db w)))" "distinct (ww_taps w)" "list_all (past_row (wechat_outbox (ww_db w))) (ww_taps w)"
    "held_as Dispatching worker (w_id row) (wechat_outbox (ww_db w))" "w_id row \<notin> set (ww_taps w)"
    using assms(1) ww_post(2) by (simp_all add: wechat_inv_def activity_inv_def)
  have "fst (classify E row r) \<noteq> Retry" if "tapped \<noteq> []"
    using endpoint_tapped_not_retried [OF ww_post(3) that] ww_post(4) by (auto simp: classify_def)
  moreover have "past_row (wechat_outbox (ww_db w)) (w_id row)"
    using inv(4) by (auto simp: held_as_def past_row_def past_dispatch_def split: option.splits)
  ultimately show ?thesis using inv by (auto simp: ww_post(1) wechat_inv_def activity_inv_def)
next
  case (ww_unreached worker row r name)
  then show ?thesis using assms(1) by (auto simp: wechat_inv_def activity_inv_def)
next
  case (ww_record worker row r sqlnow)
  obtain st reason where c: "classify E row r = (st, reason)" by (cases "classify E row r")
  have inv: "distinct (map w_id (wechat_outbox (ww_db w)))" "distinct (ww_taps w)" "list_all (past_row (wechat_outbox (ww_db w))) (ww_taps w)"
    "w_id row \<in> set (ww_taps w) \<Longrightarrow> st \<noteq> Retry"
    using assms(1) ww_record(2) c by (simp_all add: wechat_inv_def activity_inv_def)
  then have "w_id row \<in> set (ww_taps w) \<Longrightarrow> past_dispatch st" using classify_range [of E row r] c by (auto simp: past_dispatch_def)
  then have "past_row (wechat_outbox (wechat_finish E row worker st reason sqlnow (ww_db w))) i" if "i \<in> set (ww_taps w)" for i
    using inv(3) that finish_keeps(2) [of "ww_db w" i row st E worker reason sqlnow] by (auto simp: list_all_iff)
  then show ?thesis using inv(1,2) finish_keeps(1)
    by (simp add: ww_record(1) wechat_inv_def activity_inv_def end_delivery_def c list_all_iff)
next
  case ww_crash
  then show ?thesis using assms(1) by (simp add: wechat_inv_def activity_inv_def)
next
  case (ww_claim_unknown sqlnow locked)
  then show ?thesis using calm_step [OF claim_unknown_calm assms(1)] by simp
next
  case (ww_reconcile ask row sqlnow)
  then show ?thesis using calm_step [OF reconcile_calm assms(1)] by simp
next
  case (ww_elsewhere db')
  then show ?thesis using calm_step [of w db', OF _ assms(1)] by simp
next
  case (ww_other q)
  then show ?thesis using assms(1) by (simp add: wechat_inv_def)
qed

interpretation wechat: transition_system wechat_init "wechat_step E" "wechat_inv E" for E
proof
  show "wechat_inv E w" if "wechat_init w" for w using that by (simp add: wechat_init_def wechat_inv_def activity_inv_def)
qed (rule wechat_step_inv)

text \<open>C2: A queued digest is sent at most once: whatever the consumer, the sender and the network do, wherever either process
  dies, and however often a digest is retried, the send button is tapped in at most one post of it.\<close>

theorem digest_tapped_once:
  assumes "reachable wechat_init (wechat_step E) w"
  shows "distinct (ww_taps w)"
  using wechat.reachable_inv [OF assms] by (simp add: wechat_inv_def)

section \<open>A concrete delivery\<close>

text \<open>A queued digest for two adjoining slots is claimed, dispatched with the morning guide and tapped; the sender's process dies.\<close>

definition run_row :: wechat_row where
  [py_eval]: "run_row = new_wechat_row (u ''i'') (u ''dsh'') (u ''g'') (u ''d'') (u ''t'') probe_line [u ''09:00'', u ''09:30''] (minutes 5) 0"

definition run_slots :: "slot_row list" where
  [py_eval]: "run_slots = [probe_slot (u ''09:00'') (u ''09:30''), probe_slot (u ''09:30'') (u ''10:00'')]"

definition run_db :: db where
  [py_eval]: "run_db = demo_db\<lparr>observed_slots := run_slots,
     current_availability := [\<lparr>av_observation_key = u ''o'', av_event_key = u ''09:00'', av_last_seen_at = 0\<rparr>,
        \<lparr>av_observation_key = u ''p'', av_event_key = u ''09:30'', av_last_seen_at = 0\<rparr>],
     wechat_outbox := [run_row]\<rparr>"

definition run_held :: wechat_row where
  "run_held = run_row\<lparr>w_status := Processing, w_lease_owner := Some (u ''w''), w_lease_until := Some (demo_now + seconds 300),
     w_attempt_count := 1, w_updated_at := demo_now\<rparr>"

lemma run_claim: "wechat_claim (u ''w'') demo_now (\<lambda>_. False) run_db = (run_db\<lparr>wechat_outbox := [run_held]\<rparr>, Some (run_row\<lparr>w_attempt_count := 1\<rparr>))"
proof -
  have "expire_waiting demo_now (interrupt_dispatch demo_now [run_row]) = [run_row]"
    by (simp add: expire_waiting_def interrupt_dispatch_def sql_update_def run_row_def new_wechat_row_def is_waiting_def demo_now_def duration_defs)
  moreover have "wechat_due demo_now run_row"
    by (simp add: wechat_due_def run_row_def new_wechat_row_def is_waiting_def demo_now_def duration_defs)
  moreover have "wechat_outbox run_db = [run_row]" by (simp add: run_db_def)
  ultimately show ?thesis
    by (simp add: wechat_claim_def sql_update_def run_held_def) (simp add: run_row_def new_wechat_row_def)
qed

lemma run_open: "open_slots (\<lambda>s. sl_event_key s \<in> set [u ''09:00'', u ''09:30'']) demo_now (run_db\<lparr>wechat_outbox := t\<rparr>) = Inr run_slots"
proof -
  have a: "currently_available (run_db\<lparr>wechat_outbox := t\<rparr>) demo_now k" if "k = u ''09:00'' \<or> k = u ''09:30''" for k
    using that by (auto simp: py_eval currently_available_def duration_defs)
  have c: "times_castable (run_db\<lparr>wechat_outbox := t\<rparr>)"
    by (simp add: py_eval u_def probe_slot_def times_castable_def is_digit_def digit_value_ascii)
  have m: "time_match (u ''09:30'')" by (simp add: time_match_def u_def is_digit_def digit_value_ascii)
  have s: "demo_now < start_at 18 (u ''09:30'')"
    using parse_time_ascii [of 48 57 51 48] m
    by (simp add: start_at_def u_def shanghai_midnight_def shanghai_offset_def duration_defs demo_now_def)
  show ?thesis unfolding open_slots_def using c a s demo_start
    by (simp add: run_db_def run_slots_def probe_slot_def demo_now_def duration_defs)
qed

lemma run_guided: "compose_outbound E (run_db\<lparr>wechat_outbox := [run_held]\<rparr>) (run_row\<lparr>w_attempt_count := 1\<rparr>) probe_line demo_now = (probe_line @ guide_suffix, None)"
proof -
  have "length probe_line < length guide_suffix" by (simp add: probe_line_def guide_suffix_def EMAIL_SUBSCRIPTION_GUIDE_def u_def)
  then have "\<not> endswith probe_line guide_suffix" by (auto simp: endswith_def dest: suffix_length_le)
  moreover have "shanghai_hour demo_now = 8" by (simp add: shanghai_hour_def demo_now_def shanghai_offset_def duration_defs)
  moreover have "\<not> guided_this_morning d (run_row\<lparr>w_attempt_count := 1\<rparr>) run_held" for d
    by (simp add: guided_this_morning_def run_held_def)
  moreover have "endswith (probe_line @ guide_suffix) guide_suffix" by (simp add: endswith_def suffix_def)
  ultimately show ?thesis by (simp add: compose_outbound_def email_subscription_footer_def removesuffix_def endswith_def Let_def)
qed

definition run_ready :: readiness where
  [py_eval]: "run_ready = \<lparr>rd_ok = True, rd_durable = True, rd_protocol = PInt 1\<rparr>"

definition run_dispatched :: wechat_row where
  "run_dispatched = run_row\<lparr>w_attempt_count := 1, w_outbound_message := Some (probe_line @ guide_suffix), w_program_id := None\<rparr>"

lemma run_begin: "\<exists>db'. begin_delivery probe_env (run_row\<lparr>w_attempt_count := 1\<rparr>) (u ''w'') run_ready demo_now demo_now (run_db\<lparr>wechat_outbox := [run_held]\<rparr>)
    = (db', Prepared run_dispatched)"
proof -
  let ?db = "run_db\<lparr>wechat_outbox := [run_held]\<rparr>" and ?row = "run_row\<lparr>w_attempt_count := 1\<rparr>"
  have venue: "w_venue_id ?row = u ''dsh''" "w_message ?row = probe_line" "w_event_keys ?row = [u ''09:00'', u ''09:30'']"
    by (simp_all add: run_row_def new_wechat_row_def)
  have en: "delivery_enabled ?db" "sender_ready run_ready" by (simp_all add: py_eval)
  have act: "active_subscription_for_venue ?db (u ''dsh'') demo_now"
    unfolding active_subscription_for_venue_def using demo_venue by (simp add: py_eval venue_subscription_rows_def duration_defs)
  have "?row\<lparr>w_event_keys := [u ''09:00'', u ''09:30'']\<rparr> = ?row" by (simp add: run_row_def new_wechat_row_def)
  then have "snd (wechat_prepare probe_env ?row (u ''w'') demo_now demo_now ?db) = Prepared run_dispatched"
    unfolding wechat_prepare_def venue
    by (simp add: act run_open [simplified] probe_message [folded run_slots_def] run_guided venue Let_def run_dispatched_def)
  then show ?thesis using en by (auto simp: begin_delivery_def prod_eq_iff)
qed

lemma run_taps: "fst (snd (send_endpoint probe_env (delivery_request probe_env run_dispatched) (probe_device [DiesAfter]) demo_now [])) \<noteq> []"
proof -
  let ?m = "probe_line @ guide_suffix"
  have "strip ?m \<noteq> []" by (subst strip_fixed) (simp_all add: probe_line_def guide_suffix_def EMAIL_SUBSCRIPTION_GUIDE_def u_def is_space_def)
  then have nb: "\<not> blank ?m" by (simp add: blank_def)
  have req: "delivery_request probe_env run_dispatched = \<lparr>rq_receiver = u ''g'', rq_messages = [?m], rq_device_name = u ''d'',
      rq_idempotency_key = Some (send_key probe_env (u ''i'') ?m)\<rparr>"
    by (simp add: delivery_request_def run_dispatched_def run_row_def new_wechat_row_def)
  have "send_key probe_env (u ''i'') ?m \<noteq> []" by (simp add: send_key_def probe_env_def)
  then show ?thesis unfolding req using nb
    by (simp add: send_endpoint_def send_request_valid_def send_wechat_def ledger_claim_def find_row_def probe_device_def request_key_def Let_def send_claimed_def
      send_text_messages_def validate_send_request_def u_def strip_fixed is_space_def send_accessible_messages_def submitting_def
      fresh_progress_def mark_submitting_def lease_name_ok_def blank_def [of "[_]"])
qed

theorem digest_tapped_once_witness:
  "\<exists>w. reachable wechat_init (wechat_step probe_env) w \<and> ww_taps w = [u ''i''] \<and> distinct (ww_taps w)"
proof -
  let ?w0 = "\<lparr>ww_db = run_db, ww_ledger = [], ww_activity = Idle, ww_taps = []\<rparr>"
  obtain db' where b: "begin_delivery probe_env (run_row\<lparr>w_attempt_count := 1\<rparr>) (u ''w'') run_ready demo_now demo_now (run_db\<lparr>wechat_outbox := [run_held]\<rparr>)
    = (db', Prepared run_dispatched)" using run_begin by blast
  obtain t' m ms reply where s: "send_endpoint probe_env (delivery_request probe_env run_dispatched) (probe_device [DiesAfter]) demo_now [] = (t', m # ms, reply)"
    using run_taps by (metis list.exhaust prod.collapse)
  let ?w1 = "?w0\<lparr>ww_db := run_db\<lparr>wechat_outbox := [run_held]\<rparr>, ww_activity := Holding (u ''w'') (run_row\<lparr>w_attempt_count := 1\<rparr>)\<rparr>"
  let ?w2 = "?w1\<lparr>ww_db := db', ww_activity := Posting (u ''w'') run_dispatched\<rparr>"
  let ?w3 = "?w2\<lparr>ww_ledger := t', ww_activity := Answered (u ''w'') run_dispatched (response_of reply), ww_taps := [w_id run_dispatched]\<rparr>"
  have "wechat_step probe_env ?w0 ?w1" using ww_claim [of ?w0 "u ''w''" demo_now "\<lambda>_. False" "run_db\<lparr>wechat_outbox := [run_held]\<rparr>" "run_row\<lparr>w_attempt_count := 1\<rparr>" probe_env] run_claim by simp
  moreover have "wechat_step probe_env ?w1 ?w2"
    using ww_begin [of ?w1 "u ''w''" _ probe_env run_ready demo_now demo_now db' "Prepared run_dispatched"] b by simp
  moreover have "wechat_step probe_env ?w2 ?w3"
    using ww_post [of ?w2 "u ''w''" run_dispatched probe_env "probe_device [DiesAfter]" demo_now t' "m # ms" reply "response_of reply"] s by simp
  moreover have "reachable wechat_init (wechat_step probe_env) ?w0" by (rule reach_init) (simp add: wechat_init_def run_db_def)
  ultimately have r: "reachable wechat_init (wechat_step probe_env) ?w3" by (blast intro: reach_step)
  have "w_id run_dispatched = u ''i''" by (simp add: run_dispatched_def run_row_def new_wechat_row_def)
  then have "ww_taps ?w3 = [u ''i'']" by simp
  with r digest_tapped_once [OF r] show ?thesis by blast
qed

end
