(* ===== verification/TimeRanges.thy ===== *)
theory TimeRanges
  imports Domain "HOL-Library.Product_Lexorder"
begin

text \<open>
  Ranges of times of day as the collectors handle them: merging the free ranges of a court
  (\<open>venues/ydmap_ranges.py\<close>) and complementing the booked ones (\<open>venues/szw_watcher.py\<close>).
  A range \<open>[start, end]\<close> is a pair of texts; a text that is no number raises.
\<close>

type_synonym time_range = "pystr \<times> pystr"

datatype time_error = NotATime

section \<open>Operations\<close>

definition time_to_minutes :: "pystr \<Rightarrow> time_error + int" where
  [py_eval]: "time_to_minutes s = (case (py_int_of_str (take 2 s), py_int_of_str (drop 3 s)) of
     (Some h, Some m) \<Rightarrow> Inr (h * 60 + m) | _ \<Rightarrow> Inl NotATime)"

definition range_to_minutes :: "time_range \<Rightarrow> time_error + int \<times> int" where
  [py_eval]: "range_to_minutes r = ebind (time_to_minutes (fst r)) (\<lambda>s. ebind (time_to_minutes (snd r)) (\<lambda>e. Inr (s, e)))"

definition clock_text :: "int \<Rightarrow> pystr" where
  [py_eval]: "clock_text m = zpad 2 (m div 60) @ u '':'' @ zpad 2 (m mod 60)"

definition range_text :: "int \<times> int \<Rightarrow> time_range" where
  [py_eval]: "range_text r = (clock_text (fst r), clock_text (snd r))"

text \<open>The loop of \<open>merge_time_ranges\<close> with the range it is building as the first argument.\<close>

fun merge_loop :: "int \<times> int \<Rightarrow> (int \<times> int) list \<Rightarrow> (int \<times> int) list" where
  "merge_loop (s, e) [] = [(s, e)]"
| "merge_loop (s, e) ((s', e') # rs) =
     (if s' \<le> e then merge_loop (s, max e e') rs else (s, e) # merge_loop (s', e') rs)"

definition merge_time_ranges :: "time_range list \<Rightarrow> time_error + time_range list" where
  "merge_time_ranges data =
     (if data = [] then Inr []
      else ebind (emap range_to_minutes data) (\<lambda>minutes.
        case sort minutes of
          [] \<Rightarrow> Inr []
        | r # rs \<Rightarrow> Inr (map range_text (merge_loop r rs))))"

text \<open>The loop of \<open>find_available_slots\<close>: the free ranges between the booked ones, and where it got to.\<close>

fun free_loop :: "int \<Rightarrow> (int \<times> int) list \<Rightarrow> (int \<times> int) list \<times> int" where
  "free_loop current [] = ([], current)"
| "free_loop current ((s, e) # rs) =
     (case free_loop (max current e) rs of (free, stop) \<Rightarrow>
        (if current < s then (current, s) # free else free, stop))"

definition find_available_slots :: "time_range list \<Rightarrow> time_range \<Rightarrow> time_error + time_range list" where
  "find_available_slots booked window =
     (if booked = [] then Inr [window]
      else ebind (emap range_to_minutes booked) (\<lambda>minutes.
        ebind (range_to_minutes window) (\<lambda>(first, until).
          case free_loop first (sort minutes) of (free, current) \<Rightarrow>
            Inr (map range_text (free @ (if current < until then [(current, until)] else []))))))"

section \<open>What they denote\<close>

text \<open>The minutes of the day a list of ranges covers.\<close>

definition minute_set :: "(int \<times> int) list \<Rightarrow> int set" where
  "minute_set rs = (\<Union>(s, e) \<in> set rs. {s..<e})"

lemma minute_set_simps [simp]:
  "minute_set [] = {}" "minute_set ((s, e) # rs) = {s..<e} \<union> minute_set rs" "minute_set (xs @ ys) = minute_set xs \<union> minute_set ys"
  by (auto simp: minute_set_def)

lemma minute_set_set_cong: "set xs = set ys \<Longrightarrow> minute_set xs = minute_set ys"
  by (simp add: minute_set_def)

lemma minute_set_sort [simp]: "minute_set (sort rs) = minute_set rs"
  by (rule minute_set_set_cong) simp

text \<open>Ranges in order, with a gap between each and the next.\<close>

fun separated :: "(int \<times> int) list \<Rightarrow> bool" where
  "separated (r # r' # rs) \<longleftrightarrow> snd r < fst r' \<and> separated (r' # rs)"
| "separated _ \<longleftrightarrow> True"

lemma merge_loop_span:
  assumes "sorted (map fst ((s, e) # rs))"
  shows "minute_set (merge_loop (s, e) rs) = minute_set ((s, e) # rs)"
  using assms by (induction "(s, e)" rs arbitrary: s e rule: merge_loop.induct) auto

lemma merge_loop_head: "merge_loop (s, e) rs \<noteq> [] \<and> fst (hd (merge_loop (s, e) rs)) = s"
  by (induction "(s, e)" rs arbitrary: s e rule: merge_loop.induct) auto

lemma merge_loop_separated: "separated (merge_loop (s, e) rs)"
proof (induction "(s, e)" rs arbitrary: s e rule: merge_loop.induct)
  case (2 s e s' e' rs)
  obtain x xs where "merge_loop (s', e') rs = x # xs" "fst x = s'"
    using merge_loop_head [of s' e' rs] by (cases "merge_loop (s', e') rs") auto
  then show ?case using 2 by auto
qed simp

lemma merge_loop_proper:
  "list_all (\<lambda>(s, e). s < e) ((s, e) # rs) \<Longrightarrow> list_all (\<lambda>(s, e). s < e) (merge_loop (s, e) rs)"
  by (induction "(s, e)" rs arbitrary: s e rule: merge_loop.induct) auto

lemma merge_loop_bounds:
  assumes "list_all (\<lambda>(s, e). lo \<le> s \<and> e \<le> hi \<and> lo \<le> e \<and> s \<le> hi) ((s, e) # rs)"
  shows "list_all (\<lambda>(s, e). lo \<le> s \<and> e \<le> hi \<and> lo \<le> e \<and> s \<le> hi) (merge_loop (s, e) rs)"
  using assms by (induction "(s, e)" rs arbitrary: s e rule: merge_loop.induct) auto

lemma sorted_fst_sort: "sorted (map fst (sort (rs :: (int \<times> int) list)))"
proof (rule sorted_iff_nth_mono_less [THEN iffD2], intro allI impI)
  fix i j assume ij: "i < j" "j < length (map fst (sort rs))"
  then have "sort rs ! i \<le> sort rs ! j" by (intro sorted_nth_mono) auto
  then show "map fst (sort rs) ! i \<le> map fst (sort rs) ! j" using ij by (auto simp: less_eq_prod_def)
qed

section \<open>Reading the texts back\<close>

lemma zpad2_digits: "0 \<le> n \<Longrightarrow> n < 100 \<Longrightarrow> zpad 2 n = [48 + nat n div 10, 48 + nat n mod 10]"
proof -
  assume n: "0 \<le> n" "n < 100"
  have one: "dec_nat k = [48 + k]" if "k < 10" for k using that by (subst dec_nat.simps) simp
  show "zpad 2 n = [48 + nat n div 10, 48 + nat n mod 10]"
  proof (cases "nat n < 10")
    case True
    then show ?thesis using n by (simp add: zpad_def dec_def one)
  next
    case False
    moreover have "nat n div 10 < 10" using n by auto
    ultimately have "dec_nat (nat n) = [48 + nat n div 10, 48 + nat n mod 10]"
      by (subst dec_nat.simps) (simp add: one)
    then show ?thesis using n by (simp add: zpad_def dec_def)
  qed
qed

lemma py_int_two_ascii: "a < 10 \<Longrightarrow> b < 10 \<Longrightarrow> py_int_of_str [48 + a, 48 + b] = Some (10 * int a + int b)"
  by (subst py_int_of_two_digits [where dx = "int a" and dy = "int b"]) (simp_all add: digit_value_ascii)

lemma clock_text_read:
  assumes "0 \<le> m" "m < 6000"
  shows "time_to_minutes (clock_text m) = Inr m"
proof -
  have h: "0 \<le> m div 60" "m div 60 < 100" "0 \<le> m mod 60" "m mod 60 < 100" using assms by auto
  let ?h = "nat (m div 60)" and ?m = "nat (m mod 60)"
  have b: "?h div 10 < 10" "?h mod 10 < 10" "?m div 10 < 10" "?m mod 10 < 10" using h by auto
  have "clock_text m = [48 + ?h div 10, 48 + ?h mod 10, 58, 48 + ?m div 10, 48 + ?m mod 10]"
    unfolding clock_text_def zpad2_digits [OF h(1,2)] zpad2_digits [OF h(3,4)] by (simp add: u_def)
  then have "time_to_minutes (clock_text m) = Inr ((10 * int (?h div 10) + int (?h mod 10)) * 60 + (10 * int (?m div 10) + int (?m mod 10)))"
    using b by (simp add: time_to_minutes_def py_int_two_ascii numeral_3_eq_3)
  also have "(10 * int (?h div 10) + int (?h mod 10)) * 60 + (10 * int (?m div 10) + int (?m mod 10)) = m"
    using h by (simp add: zdiv_int zmod_int)
  finally show ?thesis .
qed

definition in_day :: "int \<times> int \<Rightarrow> bool" where
  [py_eval]: "in_day r \<longleftrightarrow> 0 \<le> fst r \<and> fst r < 6000 \<and> 0 \<le> snd r \<and> snd r < 6000"

lemma ranges_read: "list_all in_day rs \<Longrightarrow> emap range_to_minutes (map range_text rs) = Inr rs"
  by (induction rs) (auto simp: in_day_def range_to_minutes_def range_text_def clock_text_read)

section \<open>Merged ranges are the maximal ones\<close>

abbreviation proper :: "(int \<times> int) list \<Rightarrow> bool" where
  "proper \<equiv> list_all (\<lambda>(s, e). s < e)"

lemma separated_Cons: "separated (r # rs) \<Longrightarrow> proper rs \<Longrightarrow> x \<in> minute_set rs \<Longrightarrow> snd r < x"
proof (induction rs arbitrary: r)
  case (Cons r' rs)
  show ?case
  proof (cases "x \<in> minute_set rs")
    case True
    with Cons.IH [of r'] Cons.prems have "snd r' < x" by (simp add: list_all_iff)
    with Cons.prems show ?thesis by auto
  next
    case False
    with Cons.prems show ?thesis by (auto simp: minute_set_def)
  qed
qed simp

lemma separated_tl: "separated (r # rs) \<Longrightarrow> separated rs"
  by (cases rs) auto

lemma minute_set_above: "separated ((s, e) # rs) \<Longrightarrow> proper ((s, e) # rs) \<Longrightarrow> x \<in> minute_set ((s, e) # rs) \<Longrightarrow> s \<le> x"
  using separated_Cons [of "(s, e)" rs x] by auto

lemma separated_unique:
  assumes "separated xs" "separated ys" "proper xs" "proper ys" "minute_set xs = minute_set ys"
  shows "xs = ys"
  using assms
proof (induction xs arbitrary: ys)
  case Nil
  then show ?case by (cases ys) (auto simp: minute_set_def)
next
  case (Cons x xs)
  obtain s e where x: "x = (s, e)" by (cases x)
  obtain s' e' ys' where ys: "ys = (s', e') # ys'"
    using Cons.prems x by (cases ys) auto
  have p: "s < e" "s' < e'" "proper xs" "proper ys'" using Cons.prems x ys by auto
  have gap: "z \<in> minute_set xs \<Longrightarrow> e < z" "z \<in> minute_set ys' \<Longrightarrow> e' < z" for z
    using separated_Cons [of x xs z] separated_Cons [of "(s', e')" ys' z] Cons.prems x ys p by auto
  have sp: "z \<in> {s..<e} \<union> minute_set xs \<longleftrightarrow> z \<in> {s'..<e'} \<union> minute_set ys'" for z using Cons.prems(5) x ys by auto
  have "s = s'" using sp [of s] sp [of s'] gap p by fastforce
  moreover have "e = e'"
  proof (rule ccontr)
    assume "e \<noteq> e'"
    then show False using sp [of "min e e'"] gap [of "min e e'"] p \<open>s = s'\<close> by (auto simp: min_def split: if_splits)
  qed
  moreover have "minute_set xs = minute_set ys'"
  proof (rule set_eqI)
    fix z show "z \<in> minute_set xs \<longleftrightarrow> z \<in> minute_set ys'"
      using sp [of z] gap [of z] \<open>s = s'\<close> \<open>e = e'\<close> by auto
  qed
  ultimately show ?case using Cons.IH [of ys'] Cons.prems x ys p separated_tl by auto
qed

lemma emap_nonempty: "emap f xs = Inr ys \<Longrightarrow> xs = [] \<longleftrightarrow> ys = []"
  by (auto simp: emap_Inr_iff)

lemma merge_time_ranges_span:
  assumes "emap range_to_minutes data = Inr rs" "list_all in_day rs"
  obtains ms where "merge_time_ranges data = Inr (map range_text ms)" "emap range_to_minutes (map range_text ms) = Inr ms"
    "minute_set ms = minute_set rs" "separated ms" "proper rs \<longrightarrow> proper ms"
proof (cases "sort rs")
  case Nil
  then have "rs = []" by (metis length_0_conv length_sort)
  then show ?thesis using emap_nonempty [OF assms(1)] by (intro that [of "[]"]) (simp_all add: merge_time_ranges_def)
next
  case (Cons r rs')
  obtain s e where r: "r = (s, e)" by (cases r)
  let ?ms = "merge_loop (s, e) rs'"
  have set: "set ((s, e) # rs') = set rs" using Cons r by (metis set_sort)
  have "data \<noteq> []" using emap_nonempty [OF assms(1)] Cons by auto
  then have "merge_time_ranges data = Inr (map range_text ?ms)" using assms(1) Cons r by (simp add: merge_time_ranges_def)
  moreover have "list_all in_day ?ms"
  proof -
    have b: "list_all (\<lambda>(s, e). 0 \<le> s \<and> e \<le> 5999 \<and> 0 \<le> e \<and> s \<le> 5999) ((s, e) # rs')"
      using assms(2) unfolding list_all_iff set by (auto simp: in_day_def)
    show ?thesis using merge_loop_bounds [OF b] by (auto simp: list_all_iff in_day_def)
  qed
  moreover have "minute_set ?ms = minute_set rs"
    using merge_loop_span [of s e rs'] sorted_fst_sort [of rs] Cons r minute_set_sort [of rs] by simp
  moreover have "proper ?ms" if "proper rs"
    using that merge_loop_proper [of s e rs'] unfolding list_all_iff set by simp
  ultimately show ?thesis using that [of ?ms] merge_loop_separated [of s e rs'] ranges_read by blast
qed

text \<open>C23: Merging refines the union of time ranges: the merged ranges of a court cover exactly the minutes the given ranges cover,
  they are in order with a gap between each and the next, and they are the only such list: in whatever order and
  however split the source reports the free time, the same maximal ranges come out.\<close>

theorem merge_time_ranges_maximal:
  assumes "emap range_to_minutes data = Inr rs" "list_all in_day rs"
  shows "\<exists>ms. merge_time_ranges data = Inr (map range_text ms) \<and> emap range_to_minutes (map range_text ms) = Inr ms
    \<and> minute_set ms = minute_set rs \<and> separated ms
    \<and> (proper rs \<longrightarrow> proper ms \<and> (\<forall>ms'. separated ms' \<and> proper ms' \<and> minute_set ms' = minute_set rs \<longrightarrow> ms' = ms))"
proof -
  obtain ms where ms: "merge_time_ranges data = Inr (map range_text ms)" "emap range_to_minutes (map range_text ms) = Inr ms"
    "minute_set ms = minute_set rs" "separated ms" "proper rs \<longrightarrow> proper ms" using assms by (rule merge_time_ranges_span)
  moreover have "ms' = ms" if "proper rs" "separated ms'" "proper ms'" "minute_set ms' = minute_set rs" for ms'
    using that ms separated_unique by metis
  ultimately show ?thesis by blast
qed

theorem merge_time_ranges_maximal_witness:
  "merge_time_ranges [(u ''20:00'', u ''21:00''), (u ''18:00'', u ''19:00''), (u ''19:00'', u ''19:30'')]
     = Inr [(u ''18:00'', u ''19:30''), (u ''20:00'', u ''21:00'')]
   \<and> minute_set [(1080, 1170), (1200, 1260)] = minute_set [(1200, 1260), (1080, 1140), (1140, 1170)]"
proof -
  let ?data = "[(u ''20:00'', u ''21:00''), (u ''18:00'', u ''19:00''), (u ''19:00'', u ''19:30'')]"
  let ?rs = "[(1200, 1260), (1080, 1140), (1140, 1170)] :: (int \<times> int) list"
  have t: "u ''20:00'' = clock_text 1200" "u ''21:00'' = clock_text 1260" "u ''18:00'' = clock_text 1080" "u ''19:00'' = clock_text 1140"
    "u ''19:30'' = clock_text 1170" by (simp_all add: clock_text_def zpad2_digits u_def)
  have "emap range_to_minutes ?data = Inr ?rs" unfolding t by (simp add: range_to_minutes_def clock_text_read)
  moreover have "list_all in_day ?rs" "proper ?rs" by (simp_all add: in_day_def)
  ultimately obtain ms where ms: "merge_time_ranges ?data = Inr (map range_text ms)" "minute_set ms = minute_set ?rs"
      "\<forall>ms'. separated ms' \<and> proper ms' \<and> minute_set ms' = minute_set ?rs \<longrightarrow> ms' = ms"
    using merge_time_ranges_maximal by blast
  moreover have sp: "minute_set [(1080, 1170), (1200, 1260)] = minute_set ?rs" by auto
  moreover have l: "separated [(1080, 1170), (1200, 1260)]" "proper [(1080, 1170), (1200, 1260)]" by simp_all
  ultimately have "ms = [(1080, 1170), (1200, 1260)]" using l by blast
  with ms(1) sp show ?thesis by (simp add: range_text_def t)
qed

section \<open>The free time of a court\<close>

lemma free_loop_span:
  assumes "sorted (map fst rs)"
  shows "minute_set (fst (free_loop c rs)) = {m. c \<le> m \<and> (\<exists>r \<in> set rs. m < fst r)} - minute_set rs"
    and "snd (free_loop c rs) \<le> m \<longleftrightarrow> c \<le> m \<and> (\<forall>r \<in> set rs. snd r \<le> m)"
    and "proper (fst (free_loop c rs))"
  using assms
proof (induction c rs rule: free_loop.induct)
  case (2 c s e rs)
  {
    case 1
    have "x \<notin> minute_set rs" if "x < s" for x using 1 that by (auto simp: minute_set_def)
    with 2(1) 1 show ?case by (auto simp: split_beta)
  next
    case 2
    with "2.IH"(2) show ?case by (auto simp: split_beta)
  next
    case 3
    with "2.IH"(3) show ?case by (simp add: split_beta)
  }
qed auto

text \<open>The free time of a court is the complement of its bookings: when no booking starts after the window closes, the ranges reported
  free cover exactly the minutes of the window that no booking covers, and none of them is empty.\<close>

lemma free_time_complements_bookings:
  assumes "emap range_to_minutes booked = Inr rs" "range_to_minutes window = Inr (first, until)"
    and "list_all in_day rs" "in_day (first, until)" "first < until" "list_all (\<lambda>r. fst r \<le> until) rs"
  shows "\<exists>out ms. find_available_slots booked window = Inr out \<and> emap range_to_minutes out = Inr ms
    \<and> minute_set ms = {first..<until} - minute_set rs \<and> proper ms"
proof (cases "booked = []")
  case True
  then show ?thesis using assms by (intro exI [of _ "[window]"] exI [of _ "[(first, until)]"]) (simp add: find_available_slots_def)
next
  case False
  obtain free stop where f: "free_loop first (sort rs) = (free, stop)" by (cases "free_loop first (sort rs)")
  let ?ms = "free @ (if stop < until then [(stop, until)] else [])"
  note loop = free_loop_span [OF sorted_fst_sort, of first rs, unfolded f fst_conv snd_conv, simplified]
  have stop: "stop \<le> m \<longleftrightarrow> first \<le> m \<and> (\<forall>r \<in> set rs. snd r \<le> m)" for m using loop(2) by simp
  have free: "minute_set free = {m. first \<le> m \<and> (\<exists>r \<in> set rs. m < fst r)} - minute_set rs" using loop(1) .
  have bound: "x < until" if "x \<in> minute_set free" for x using that free assms(6) by (auto simp: list_all_iff)
  have "minute_set ?ms = {first..<until} - minute_set rs"
  proof (rule set_eqI)
    fix m
    have "m \<in> minute_set free \<or> stop \<le> m" if "first \<le> m" "m \<notin> minute_set rs"
      using that free stop [of m] by (force simp: minute_set_def)
    moreover have "first \<le> m \<and> m \<notin> minute_set rs" if "stop \<le> m"
      using that stop [of m] by (force simp: minute_set_def)
    ultimately show "m \<in> minute_set ?ms \<longleftrightarrow> m \<in> {first..<until} - minute_set rs" using free bound by auto
  qed
  moreover have "list_all in_day ?ms"
  proof -
    have "0 \<le> s \<and> e < 6000 \<and> s < e" if "(s, e) \<in> set free" for s e
    proof -
      have "s < e" using that loop(3) by (auto simp: list_all_iff)
      then have "s \<in> minute_set free" "e - 1 \<in> minute_set free" using that by (force simp: minute_set_def)+
      then show ?thesis using bound [of "e - 1"] free assms(4) \<open>s < e\<close> by (auto simp: in_day_def)
    qed
    then have "list_all in_day free" by (force simp: list_all_iff in_day_def)
    moreover have "0 \<le> stop" using stop [of stop] assms(4) by (auto simp: in_day_def)
    ultimately show ?thesis using assms(4) by (auto simp: in_day_def)
  qed
  moreover have "find_available_slots booked window = Inr (map range_text ?ms)"
    using False assms(1,2) f by (simp add: find_available_slots_def)
  moreover have "proper ?ms" using loop(3) by simp
  ultimately show ?thesis using ranges_read [of ?ms] by blast
qed

end
