(* ===== verification/Collector.thy ===== *)
theory Collector
  imports TimeRanges WechatQueue
begin

text \<open>
  What the collectors share: reading times of the sources (\<open>datetime.strptime\<close>), the observation
  they publish (\<open>notifications/webapp.py\<close>), the digest lines they announce and the cache that keeps
  a line from being announced twice. A naive datetime is a number of microseconds.
\<close>

section \<open>Reading dates and times\<close>

text \<open>
  \<open>strptime\<close> turns its format into a regular expression: a field is one or two digits within its
  range, \<open>\d\<close> any decimal digit. Every field here is followed by a separator or the end.
\<close>

definition two_digits :: "(nat \<Rightarrow> bool) \<Rightarrow> (nat \<Rightarrow> nat \<Rightarrow> bool) \<Rightarrow> pystr \<Rightarrow> int option" where
  [py_eval]: "two_digits single pair s = (case s of
     [a] \<Rightarrow> if single a then digit_value a else None
   | [a, b] \<Rightarrow> if pair a b then (case (digit_value a, digit_value b) of (Some x, Some y) \<Rightarrow> Some (10 * x + y) | _ \<Rightarrow> None) else None
   | _ \<Rightarrow> None)"

definition month_field :: "pystr \<Rightarrow> int option" where
  [py_eval]: "month_field = two_digits (\<lambda>a. 49 \<le> a \<and> a \<le> 57) (\<lambda>a b. a = 49 \<and> 48 \<le> b \<and> b \<le> 50 \<or> a = 48 \<and> 49 \<le> b \<and> b \<le> 57)"

definition day_field :: "pystr \<Rightarrow> int option" where
  [py_eval]: "day_field s = two_digits (\<lambda>a. 49 \<le> a \<and> a \<le> 57)
     (\<lambda>a b. a = 51 \<and> 48 \<le> b \<and> b \<le> 49 \<or> (a = 49 \<or> a = 50) \<and> is_digit b \<or> a = 48 \<and> 49 \<le> b \<and> b \<le> 57)
     (case s of [a, b] \<Rightarrow> if a = 32 then [b] else s | _ \<Rightarrow> s)"

definition hour_field :: "pystr \<Rightarrow> int option" where
  [py_eval]: "hour_field = two_digits is_digit (\<lambda>a b. a = 50 \<and> 48 \<le> b \<and> b \<le> 51 \<or> (a = 48 \<or> a = 49) \<and> is_digit b)"

text \<open>A second of 60 or 61 matches \<open>%S\<close> but no datetime has it, which is the same ValueError.\<close>

definition minute_field :: "pystr \<Rightarrow> int option" where
  [py_eval]: "minute_field = two_digits is_digit (\<lambda>a b. 48 \<le> a \<and> a \<le> 53 \<and> is_digit b)"

definition year_field :: "pystr \<Rightarrow> int option" where
  [py_eval]: "year_field s = (case map digit_value s of
     [Some a, Some b, Some c, Some d] \<Rightarrow> Some (1000 * a + 100 * b + 10 * c + d) | _ \<Rightarrow> None)"

definition date_fields :: "pystr \<Rightarrow> pystr \<Rightarrow> pystr \<Rightarrow> pydate option" where
  [py_eval]: "date_fields y m d = (case (year_field y, month_field m, day_field d) of
     (Some yy, Some mm, Some dd) \<Rightarrow> make_date yy mm dd | _ \<Rightarrow> None)"

text \<open>\<open>strptime(s, "%Y-%m-%d")\<close>.\<close>

definition strptime_date :: "pystr \<Rightarrow> pydate option" where
  [py_eval]: "strptime_date s = (case partition_at 45 s of (y, dash, r) \<Rightarrow>
     (case partition_at 45 r of (m, dash', d) \<Rightarrow> if dash \<and> dash' then date_fields y m d else None))"

text \<open>\<open>strptime(s, "%H:%M")\<close> as minutes after midnight.\<close>

definition strptime_clock :: "pystr \<Rightarrow> int option" where
  [py_eval]: "strptime_clock s = (case partition_at 58 s of (h, colon, m) \<Rightarrow>
     (case (hour_field h, minute_field m) of (Some hh, Some mm) \<Rightarrow> if colon then Some (hh * 60 + mm) else None | _ \<Rightarrow> None))"

text \<open>\<open>strptime(s, "%Y-%m-%d %H:%M:%S")\<close>; the blank of the format stands for one or more blanks.\<close>

definition strptime_seconds :: "pystr \<Rightarrow> int option" where
  [py_eval]: "strptime_seconds s = (case partition_at 45 s of (y, dash, r) \<Rightarrow>
     (case partition_at 45 r of (m, dash', r') \<Rightarrow>
        let n = (if r' \<noteq> [] \<and> hd r' = 32 then 2 else length (takeWhile (\<lambda>c. \<not> is_space c) r'));
            rest = drop n r'
        in if \<not> dash \<or> \<not> dash' \<or> rest = [] \<or> \<not> is_space (hd rest) then None
           else (case partition_at 58 (dropWhile is_space rest) of (h, colon, r'') \<Rightarrow>
             (case partition_at 58 r'' of (mi, colon', sec) \<Rightarrow>
                (case (date_fields y m (take n r'), hour_field h, minute_field mi, minute_field sec) of
                   (Some d, Some hh, Some mm, Some ss) \<Rightarrow>
                     if colon \<and> colon' then Some (d * days 1 + hh * hours 1 + mm * minutes 1 + ss * seconds 1) else None
                 | _ \<Rightarrow> None)))))"

text \<open>\<open>strftime("%H:%M")\<close> and the date of a naive datetime; the last datetime there is.\<close>

definition clock_of :: "int \<Rightarrow> pystr" where
  [py_eval]: "clock_of t = clock_text (t mod days 1 div minutes 1)"

definition date_of :: "int \<Rightarrow> pydate" where
  [py_eval]: "date_of t = t div days 1"

definition last_datetime :: int where
  [py_eval]: "last_datetime = (day_of_civil 9999 12 31 + 1) * days 1 - 1"

section \<open>The published observation\<close>

type_synonym court_data = "(pystr \<times> time_range list) list"

record web_slot =
  ws_date :: pystr
  ws_court_name :: pystr
  ws_start_time :: pystr
  ws_end_time :: pystr

definition flatten_range :: "pystr \<Rightarrow> pystr \<Rightarrow> time_range \<Rightarrow> web_slot option" where
  [py_eval]: "flatten_range date court r =
     (let start = strip (fst r);
          fin = (if strip (snd r) = u ''24:00'' then u ''23:59'' else strip (snd r))
      in if length start \<noteq> 5 \<or> length fin \<noteq> 5 then None
         else Some \<lparr>ws_date = date, ws_court_name = court, ws_start_time = start, ws_end_time = fin\<rparr>)"

definition flatten_court_slots :: "pystr \<Rightarrow> court_data \<Rightarrow> web_slot list" where
  [py_eval]: "flatten_court_slots date courts = concat (map (\<lambda>(name, ranges).
     if strip name = [] then [] else List.map_filter (flatten_range date (strip name)) ranges) courts)"

definition web_slot_value :: "web_slot \<Rightarrow> pyval" where
  [py_eval]: "web_slot_value s = PDict [(u ''date'', PStr (strip (ws_date s))), (u ''court_name'', PStr (strip (ws_court_name s))),
     (u ''start_time'', PStr (strip (ws_start_time s))), (u ''end_time'', PStr (strip (ws_end_time s)))]"

text \<open>The body of the request; \<open>scope\<close> is what the caller or the task context names, \<open>checked_at\<close> the current time as text.\<close>

definition observation_payload :: "pystr \<Rightarrow> pystr \<Rightarrow> web_slot list \<Rightarrow> bool \<Rightarrow> pystr option \<Rightarrow> pystr \<Rightarrow> pystr \<Rightarrow> pyval" where
  "observation_payload venue_id venue_name slots healthy error scope checked_at =
     (let scope' = take 120 (strip (if scope = [] then u ''default'' else scope));
          err = (case error of None \<Rightarrow> [] | Some e \<Rightarrow> take 300 e)
      in PDict [(u ''venue_id'', PStr venue_id), (u ''venue_name'', PStr venue_name),
           (u ''observation_scope'', PStr (if scope' = [] then u ''default'' else scope')), (u ''healthy'', PBool healthy),
           (u ''checked_at'', PStr checked_at), (u ''error'', if err = [] then PNone else PStr err),
           (u ''slots'', PList (map web_slot_value slots))])"

section \<open>Digest lines\<close>

record notification_court =
  nc_date :: pystr
  nc_court_name :: pystr
  nc_free_slots :: "time_range list"

definition WEEKDAY_CHARS :: "nat list" where
  [py_eval]: "WEEKDAY_CHARS = [19968, 20108, 19977, 22235, 20116, 20845, 26085]"

definition notification_line :: "pystr \<Rightarrow> int \<Rightarrow> pystr \<Rightarrow> time_range \<Rightarrow> pystr" where
  [py_eval]: "notification_line court weekday date slot =
     [12304] @ court @ [12305, 26143, 26399, WEEKDAY_CHARS ! nat weekday, 40] @ date @ [41, 31354, 22330, 58, 32]
       @ fst slot @ u ''-'' @ snd slot"

datatype collect_error = ValueError | OverflowError | EmptyInventory | AllProxiesFailed

text \<open>\<open>date_obj.weekday()\<close> of the day in the given year: Monday is 0.\<close>

definition line_weekday :: "int \<Rightarrow> pystr \<Rightarrow> collect_error + int" where
  [py_eval]: "line_weekday year date = (case strptime_date (dec year @ u ''-'' @ date) of
     None \<Rightarrow> Inl ValueError | Some d \<Rightarrow> Inr (isoweekday d - 1))"

fun build_new_notifications :: "notification_court list \<Rightarrow> pystr list \<Rightarrow> int \<Rightarrow> collect_error + pystr list" where
  "build_new_notifications [] sended year = Inr []"
| "build_new_notifications (c # cs) sended year =
     ebind (line_weekday year (nc_date c)) (\<lambda>weekday.
       ebind (build_new_notifications cs sended year) (\<lambda>rest.
         Inr (filter (\<lambda>l. l \<notin> set sended) (map (notification_line (nc_court_name c) weekday (nc_date c)) (nc_free_slots c)) @ rest)))"

end
