(* ===== verification/Handover.thy ===== *)
theory Handover
  imports Collector
begin

text \<open>
  Handing a digest over to the host (\<open>notifications/wechat.py\<close>): the request, its answer, and the
  release of the lines the host did not take from the collector's cache, so that they are announced again.
\<close>

section \<open>Receivers and caches\<close>

definition VENUE_DEDUPE_CACHE_KEYS :: "(pystr \<times> pystr) list" where
  "VENUE_DEDUPE_CACHE_KEYS = map (\<lambda>v. (v_id v, v_wechat_name v)) VENUE_CATALOG"

definition normalize_chatrooms :: "pyenv \<Rightarrow> pyval \<Rightarrow> pystr list" where
  [py_eval]: "normalize_chatrooms E chatrooms =
     filter (\<lambda>r. r \<noteq> []) (map strip (case chatrooms of PStr s \<Rightarrow> splitlines s | PList rs \<Rightarrow> map (py_str E) rs | _ \<Rightarrow> []))"

text \<open>The lines a text stands for when its lines are released.\<close>

definition released_lines :: "pystr \<Rightarrow> pystr list" where
  [py_eval]: "released_lines message = filter (\<lambda>l. l \<noteq> []) (map strip (splitlines message))"

text \<open>What is left of the stored lines of a venue; a value that is no list is left as it is.\<close>

definition release_subscription_gate_dedupe :: "pyenv \<Rightarrow> pystr \<Rightarrow> pyval \<Rightarrow> pyval" where
  [py_eval]: "release_subscription_gate_dedupe E message current = (case current of
     PList items \<Rightarrow> PList (filter (\<lambda>item. strip (py_str E item) \<notin> set (released_lines message)) items)
   | _ \<Rightarrow> current)"

text \<open>
  Lines are released in the variable the catalogue names for the venue; a collector that keeps its lines
  elsewhere is not affected.
\<close>

definition release_stored :: "pyenv \<Rightarrow> pystr \<Rightarrow> pystr \<Rightarrow> pystr option \<Rightarrow> pyval \<Rightarrow> pyval" where
  "release_stored E venue_id cache_key released stored = (case released of
     None \<Rightarrow> stored
   | Some text \<Rightarrow> if map_of VENUE_DEDUPE_CACHE_KEYS venue_id = Some cache_key then release_subscription_gate_dedupe E text stored else stored)"

section \<open>The request and its answer\<close>

type_synonym host_api = "(pystr \<times> pyval) list \<Rightarrow> pyval option"

definition enqueue_request :: "pystr list \<Rightarrow> pystr \<Rightarrow> pystr \<Rightarrow> pystr \<Rightarrow> pystr \<Rightarrow> (pystr \<times> pyval) list" where
  "enqueue_request receivers message device source venue_id =
     [(u ''receivers'', PList (map PStr receivers)), (u ''message'', PStr message), (u ''device_name'', PStr device),
      (u ''source'', PStr source), (u ''venue_id'', PStr venue_id)]"

definition is_PStr :: "pyval \<Rightarrow> bool" where
  [py_eval]: "is_PStr v \<longleftrightarrow> (case v of PStr s \<Rightarrow> True | _ \<Rightarrow> False)"

definition the_PStr :: "pyval \<Rightarrow> pystr" where
  [py_eval]: "the_PStr v = (case v of PStr s \<Rightarrow> s | _ \<Rightarrow> [])"

text \<open>
  The text whose lines are released after the answer: the whole message when the request fails, is not
  acknowledged or is suppressed, the rejected lines when some were. \<open>None\<close> as an answer is a request
  that raised: no connection, an error status, or a body that is no JSON.
\<close>

definition released_text :: "pyval option \<Rightarrow> pystr \<Rightarrow> pystr option" where
  "released_text reply message = (case reply of
     Some (PDict d) \<Rightarrow>
       if dget d (u ''success'') \<noteq> PBool True then Some message
       else if truthy (dget d (u ''suppressed'')) then Some message
       else (case dget d (u ''rejected_lines'') of
               PList vs \<Rightarrow> if vs \<noteq> [] \<and> list_all is_PStr vs then Some (join [10] (map the_PStr vs)) else None
             | _ \<Rightarrow> None)
   | _ \<Rightarrow> Some message)"

definition send_wechat_text_to_chatrooms_best_effort ::
    "pyenv \<Rightarrow> host_api \<Rightarrow> pyval \<Rightarrow> pystr \<Rightarrow> pystr \<Rightarrow> pystr \<Rightarrow> pystr \<Rightarrow> pystr option" where
  "send_wechat_text_to_chatrooms_best_effort E host chatrooms message device source venue_id =
     (let receivers = normalize_chatrooms E chatrooms in
      if receivers = [] then None
      else released_text (host (enqueue_request receivers message device source venue_id)) message)"

section \<open>The host's answers\<close>

text \<open>The JSON bodies \<open>_enqueue\<close> returns.\<close>

definition enqueue_json :: "enqueue_result \<Rightarrow> pyval" where
  "enqueue_json r = PDict (case r of
     Suppressed_NoSubscription \<Rightarrow> [(u ''success'', PBool True), (u ''queued'', PInt 0), (u ''suppressed'', PBool True),
       (u ''reason'', PStr (u ''no_active_subscription''))]
   | Suppressed_Changed rejected \<Rightarrow> [(u ''success'', PBool True), (u ''queued'', PInt 0), (u ''suppressed'', PBool True),
       (u ''reason'', PStr (u ''availability_changed'')), (u ''rejected_lines'', PList (map PStr rejected))]
   | Queued ids rejected \<Rightarrow> [(u ''success'', PBool True), (u ''queued'', PInt (int (length ids))), (u ''ids'', PList (map PStr ids)),
       (u ''durable'', PBool True), (u ''rejected_lines'', PList (map PStr rejected))])"

text \<open>The host as its clients see it: an exception is an error status.\<close>

definition host_reply :: "pyenv \<Rightarrow> instant \<Rightarrow> instant \<Rightarrow> db \<Rightarrow> host_api" where
  "host_reply E now sqlnow db payload = (case snd (enqueue E payload now sqlnow db) of Inl _ \<Rightarrow> None | Inr r \<Rightarrow> Some (enqueue_json r))"

section \<open>The contract between collector and host\<close>

text \<open>
  What the collector relies on: the host reports as rejected only lines of the message it was sent. Then a
  release takes back lines of this digest and no others.
\<close>

locale digest_host =
  fixes host :: host_api
  assumes rejects_own_lines:
    "host payload = Some (PDict d) \<Longrightarrow> dget d (u ''success'') = PBool True \<Longrightarrow> \<not> truthy (dget d (u ''suppressed'')) \<Longrightarrow>
     dget d (u ''rejected_lines'') = PList vs \<Longrightarrow> v \<in> set vs \<Longrightarrow> dget payload (u ''message'') = PStr m \<Longrightarrow> strip m = m \<Longrightarrow>
     \<exists>l \<in> set (splitlines m). v = PStr (strip l)"
begin

lemma released_from_message:
  assumes "send_wechat_text_to_chatrooms_best_effort E host chatrooms (join [10] ls) device source venue_id = Some text"
    "list_all (\<lambda>l. unbroken l \<and> strip l = l) ls" "strip (join [10] ls) = join [10] ls"
  shows "set (released_lines text) \<subseteq> set ls"
proof -
  let ?m = "join [10] ls"
  obtain receivers where t: "released_text (host (enqueue_request receivers ?m device source venue_id)) ?m = Some text"
    using assms(1) by (auto simp: send_wechat_text_to_chatrooms_best_effort_def Let_def split: if_split_asm)
  have split: "splitlines ?m = ls" using assms(2) by (intro splitlines_join) (simp add: list_all_iff)
  then have whole: "set (released_lines ?m) \<subseteq> set ls" using assms(2) by (auto simp: released_lines_def list_all_iff)
  show ?thesis
  proof (cases "text = ?m")
    case False
    then obtain d vs where d: "host (enqueue_request receivers ?m device source venue_id) = Some (PDict d)" "dget d (u ''success'') = PBool True"
        "\<not> truthy (dget d (u ''suppressed''))" "dget d (u ''rejected_lines'') = PList vs" "text = join [10] (map the_PStr vs)"
      using t by (auto simp: released_text_def split: option.split_asm pyval.split_asm if_split_asm)
    have "dget (enqueue_request receivers ?m device source venue_id) (u ''message'') = PStr ?m" by (simp add: enqueue_request_def dget_def u_def)
    from rejects_own_lines [OF d(1-4) _ this assms(3)] have v: "\<exists>l \<in> set ls. v = PStr l" if "v \<in> set vs" for v
      using that assms(2) split by (fastforce simp: list_all_iff)
    then have "the_PStr v \<in> set ls \<and> unbroken (the_PStr v)" if "v \<in> set vs" for v
      using that assms(2) by (fastforce simp: the_PStr_def list_all_iff)
    then have sub: "set (map the_PStr vs) \<subseteq> set ls" "list_all unbroken (map the_PStr vs)" by (auto simp: list_all_iff)
    then show ?thesis using assms(2) unfolding d(5) released_lines_def splitlines_join [OF sub(2)] by (auto simp: list_all_iff)
  qed (use whole in simp)
qed

end

text \<open>The host of the model keeps the contract: what \<open>current_message\<close> rejects are lines of the message.\<close>

lemma keep_lines_rejected: "keep_lines slots ls = Inr (kept, keys, rejected) \<Longrightarrow> l \<in> set rejected \<Longrightarrow> \<exists>l' \<in> set ls. l = strip l'"
proof (induction ls arbitrary: kept keys rejected)
  case (Cons x xs)
  then show ?case by (fastforce simp: ebind_Inr_iff split: sum.split_asm line_error.split_asm)
qed simp

lemma current_message_rejected: "current_message m slots = Inr (current, keys, rejected) \<Longrightarrow> l \<in> set rejected \<Longrightarrow> \<exists>l' \<in> set (splitlines m). l = strip l'"
  by (fastforce simp: current_message_def ebind_Inr_iff dest: keep_lines_rejected)

lemma enqueue_rejected:
  assumes "snd (enqueue E payload now sqlnow db) = Inr (Queued ids rejected)" "dget payload (u ''message'') = PStr m" "strip m = m" "l \<in> set rejected"
  shows "\<exists>l' \<in> set (splitlines m). l = strip l'"
proof -
  obtain db' where e: "enqueue_payload E payload now sqlnow db = Inr (db', Queued ids rejected)"
    using assms(1) by (auto simp: enqueue_def Let_def split: sum.split_asm prod.split_asm)
  have m: "strip (str_or_empty E (PStr m)) = m" using assms(3) by (cases "m = []") (simp_all add: str_or_empty_def py_or_def)
  obtain slots current keys where "current_message m slots = Inr (current, keys, rejected)"
    using e unfolding enqueue_payload_def Let_def assms(2) m
    by (auto simp: ebind_def split: pyval.split_asm if_split_asm sum.split_asm prod.split_asm)
  then show ?thesis using assms(4) by (rule current_message_rejected)
qed

interpretation core_host: digest_host "host_reply E now sqlnow db" for E now sqlnow db
proof
  fix payload d vs v m
  assume h: "host_reply E now sqlnow db payload = Some (PDict d)" "\<not> truthy (dget d (u ''suppressed''))"
    "dget d (u ''rejected_lines'') = PList vs" "v \<in> set vs" "dget payload (u ''message'') = PStr m" "strip m = m"
  obtain r where r: "snd (enqueue E payload now sqlnow db) = Inr r" "PDict d = enqueue_json r"
    using h(1) by (auto simp: host_reply_def split: sum.split_asm)
  obtain ids rejected where q: "r = Queued ids rejected" "vs = map PStr rejected"
    using r(2) h(2,3) by (cases r) (auto simp: enqueue_json_def dget_def u_def)
  obtain l where "v = PStr l" "l \<in> set rejected" using h(4) q(2) by auto
  then show "\<exists>l \<in> set (splitlines m). v = PStr (strip l)"
    using enqueue_rejected [OF r(1) [unfolded q(1)] h(5,6)] by auto
qed

end
