(* ===== verification/PosPal.thy ===== *)
theory PosPal
  imports Handover
begin

text \<open>
  The collector for venues booked through PosPal (\<open>venues/pospal_slots.py\<close>,
  \<open>venues/pospal_venue.py\<close>): which cells of the answer are free courts, the free ranges per court, the
  search for a proxy that works, and the run that publishes an observation and announces new lines. The
  answers of the booking service and the shuffling of proxies are arguments.
\<close>

section \<open>Directly bookable cells\<close>

type_synonym jdict = "(pystr \<times> pyval) list"

definition as_mapping :: "pyval \<Rightarrow> jdict" where
  [py_eval]: "as_mapping v = (case v of PDict d \<Rightarrow> d | _ \<Rightarrow> [])"

text \<open>\<open>" ".join(str(value).split())\<close>.\<close>

fun pieces :: "pystr \<Rightarrow> pystr list" where
  "pieces [] = [[]]"
| "pieces (c # cs) = (if is_space c then [] # pieces cs else case pieces cs of [] \<Rightarrow> [[c]] | p # ps \<Rightarrow> (c # p) # ps)"

definition clean_text :: "pyenv \<Rightarrow> pyval \<Rightarrow> pystr" where
  [py_eval]: "clean_text E v = (if v = PNone then [] else join [32] (filter (\<lambda>p. p \<noteq> []) (pieces (py_str E v))))"

definition court_uid :: "pyenv \<Rightarrow> jdict \<Rightarrow> pystr" where
  [py_eval]: "court_uid E item = clean_text E (py_or (dget item (u ''txtClassroomUid'')) (dget item (u ''classroomUid'')))"

definition cell_court_name :: "pyenv \<Rightarrow> jdict \<Rightarrow> pystr" where
  [py_eval]: "cell_court_name E item = clean_text E (dget item (u ''classRoomName''))"

text \<open>The half-open range of a cell; adding the minute may leave the range of datetimes, which is not a ValueError.\<close>

definition cell_range :: "jdict \<Rightarrow> collect_error + (int \<times> int) option" where
  "cell_range item = (case (dget item (u ''beginDatetime''), dget item (u ''endDatetime'')) of
     (PStr b, PStr e) \<Rightarrow>
       (case (strptime_seconds b, strptime_seconds e) of
          (Some t, Some t') \<Rightarrow>
            if last_datetime < t' + minutes 1 then Inl OverflowError
            else if t' + minutes 1 \<le> t then Inr None else Inr (Some (t, t' + minutes 1))
        | _ \<Rightarrow> Inr None)
   | _ \<Rightarrow> Inr None)"

record enrollment =
  en_court_uid :: pystr
  en_court_name :: pystr
  en_begin :: int
  en_end :: int

definition enrollment_of :: "pyenv \<Rightarrow> pyval \<Rightarrow> collect_error + enrollment option" where
  "enrollment_of E raw =
     (let item = as_mapping raw in
      ebind (cell_range item) (\<lambda>r. Inr (case r of
        None \<Rightarrow> None
      | Some (b, e) \<Rightarrow> if court_uid E item = [] \<and> cell_court_name E item = [] then None
          else Some \<lparr>en_court_uid = court_uid E item, en_court_name = cell_court_name E item, en_begin = b, en_end = e\<rparr>)))"

definition somes :: "'a option list \<Rightarrow> 'a list" where
  [py_eval]: "somes xs = List.map_filter (\<lambda>x. x) xs"

definition enrollment_intervals :: "pyenv \<Rightarrow> pyval \<Rightarrow> collect_error + enrollment list" where
  "enrollment_intervals E v = (case v of
     PList items \<Rightarrow> ebind (emap (enrollment_of E) items) (\<lambda>xs. Inr (somes xs))
   | _ \<Rightarrow> Inr [])"

definition same_court :: "pyenv \<Rightarrow> jdict \<Rightarrow> enrollment \<Rightarrow> bool" where
  [py_eval]: "same_court E slot en =
     (if court_uid E slot \<noteq> [] \<and> en_court_uid en \<noteq> [] then court_uid E slot = en_court_uid en
      else cell_court_name E slot \<noteq> [] \<and> en_court_name en \<noteq> [] \<and> cell_court_name E slot = en_court_name en)"

definition blocked_by_enrollment :: "pyenv \<Rightarrow> jdict \<Rightarrow> enrollment list \<Rightarrow> collect_error + bool" where
  "blocked_by_enrollment E slot ens =
     ebind (cell_range slot) (\<lambda>r. Inr (case r of
       None \<Rightarrow> False
     | Some (b, e) \<Rightarrow> list_ex (\<lambda>en. same_court E slot en \<and> max b (en_begin en) < min e (en_end en)) ens))"

definition bookable_cell :: "pyenv \<Rightarrow> enrollment list \<Rightarrow> pyval \<Rightarrow> collect_error + jdict option" where
  "bookable_cell E ens raw =
     (let slot = as_mapping raw in
      if dget (as_mapping (dget slot (u ''apptInfo''))) (u ''canApptOrNot'') \<noteq> PBool True then Inr None
      else ebind (blocked_by_enrollment E slot ens) (\<lambda>blocked. Inr (if blocked then None else Some slot)))"

definition directly_bookable_slots :: "pyenv \<Rightarrow> pyval \<Rightarrow> collect_error + jdict list" where
  "directly_bookable_slots E json =
     (let result = as_mapping (dget (as_mapping json) (u ''result'')) in
      case dget result (u ''slots'') of
        PList raw_slots \<Rightarrow>
          ebind (enrollment_intervals E (dget result (u ''enrollSlots''))) (\<lambda>ens.
            ebind (emap (bookable_cell E ens) raw_slots) (\<lambda>xs. Inr (somes xs)))
      | _ \<Rightarrow> Inr [])"

section \<open>Venues\<close>

record pospal_venue =
  pv_venue_id :: pystr
  pv_venue_name :: pystr
  pv_store_id :: pystr
  pv_project_uid :: pystr
  pv_cache_key :: pystr
  pv_dag_id :: pystr
  pv_proxy_cache_key :: pystr
  pv_excluded_court_tokens :: "pystr list"
  pv_allowed_court_numbers :: "int list option"
  pv_try_direct_first :: bool
  pv_verify_tls :: bool
  pv_include_user_id :: bool
  pv_extra_headers :: "(pystr \<times> pystr) list"
  pv_notification_baseline_key :: "pystr option"
  pv_lookahead_days :: nat
  pv_require_rooms :: bool
  pv_max_cached_messages :: nat

definition EXCLUDED_COURT_TOKENS :: "pystr list" where
  [py_eval]: "EXCLUDED_COURT_TOKENS = [[23567, 22330], [21305, 20811], [32451, 20064], [38750, 26631], [21457, 29699, 26426]]"

definition MAX_CACHED_PROXIES :: nat where
  [py_eval]: "MAX_CACHED_PROXIES = 10"

text \<open>A venue of the chain: the fields given, and the defaults of the class.\<close>

definition chain_venue :: "pystr \<Rightarrow> pystr \<Rightarrow> pystr \<Rightarrow> pystr \<Rightarrow> pystr \<Rightarrow> pospal_venue" where
  "chain_venue venue_id venue_name store_id cache_key dag_id =
     \<lparr>pv_venue_id = venue_id, pv_venue_name = venue_name, pv_store_id = store_id, pv_project_uid = u ''1768357901249380361'',
      pv_cache_key = cache_key, pv_dag_id = dag_id, pv_proxy_cache_key = u ''FSB_PROXY_CACHE'',
      pv_excluded_court_tokens = EXCLUDED_COURT_TOKENS, pv_allowed_court_numbers = None, pv_try_direct_first = False,
      pv_verify_tls = False, pv_include_user_id = False, pv_extra_headers = [], pv_notification_baseline_key = None,
      pv_lookahead_days = 3, pv_require_rooms = False, pv_max_cached_messages = 100\<rparr>"

definition FSB_SHENYUN :: pospal_venue where
  "FSB_SHENYUN = chain_venue (u ''fsb_shenyun'') [27867, 24605, 21338, 29305, 28145, 20113] (u ''6019572'') [27867, 24605, 21338, 29305, 28145, 20113, 32593, 29699, 22330] [27867, 24605, 21338, 29305, 28145, 20113, 32593, 29699, 22330, 24033, 26816]"

definition FSB_SHEKOU :: pospal_venue where
  "FSB_SHEKOU = chain_venue (u ''fsb_shekou'') [27867, 24605, 21338, 29305, 34503, 21475] (u ''6019561'') [27867, 24605, 21338, 29305, 34503, 21475, 32593, 29699, 22330] [27867, 24605, 21338, 29305, 34503, 21475, 32593, 29699, 22330, 24033, 26816]"

definition FSB_XINAN :: pospal_venue where
  "FSB_XINAN = chain_venue (u ''fsb_xinan'') [27867, 24605, 21338, 29305, 26032, 23433] (u ''6019579'') [27867, 24605, 21338, 29305, 26032, 23433, 32593, 29699, 22330] [27867, 24605, 21338, 29305, 26032, 23433, 32593, 29699, 22330, 24033, 26816]"

definition FSB_ZHENGZHONG :: pospal_venue where
  "FSB_ZHENGZHONG = chain_venue (u ''fsb_zhengzhong'') [27867, 24605, 21338, 29305, 27491, 20013] (u ''6019533'') [27867, 24605, 21338, 29305, 27491, 20013, 32593, 29699, 22330] [27867, 24605, 21338, 29305, 27491, 20013, 32593, 29699, 22330, 24033, 26816]"

definition FSB_ATUOSHAN :: pospal_venue where
  "FSB_ATUOSHAN = chain_venue (u ''fsb_atuoshan'') [27867, 24605, 21338, 29305, 23433, 25176, 23665] (u ''6019581'') [27867, 24605, 21338, 29305, 23433, 25176, 23665, 32593, 29699, 22330] [27867, 24605, 21338, 29305, 23433, 25176, 23665, 32593, 29699, 22330, 24033, 26816]"

definition FSB_ZONGLVQUAN :: pospal_venue where
  "FSB_ZONGLVQUAN = chain_venue (u ''fsb_zonglvquan'') [27867, 24605, 21338, 29305, 26837, 27016, 27849] (u ''6003756'') [27867, 24605, 21338, 29305, 26837, 27016, 27849, 32593, 29699, 22330] [27867, 24605, 21338, 29305, 26837, 27016, 27849, 32593, 29699, 22330, 24033, 26816]"

definition FSB_GUANHU :: pospal_venue where
  "FSB_GUANHU = chain_venue (u ''fsb_guanhu'') [27867, 24605, 21338, 29305, 35266, 28246] (u ''6019554'') [27867, 24605, 21338, 29305, 35266, 28246, 32593, 29699, 22330] [27867, 24605, 21338, 29305, 35266, 28246, 32593, 29699, 22330, 24033, 26816]"

definition FSB_BANTIAN :: pospal_venue where
  "FSB_BANTIAN = chain_venue (u ''fsb_bantian'') [27867, 24605, 21338, 29305, 22338, 30000] (u ''6019542'') [27867, 24605, 21338, 29305, 22338, 30000, 32593, 29699, 22330] [27867, 24605, 21338, 29305, 22338, 30000, 32593, 29699, 22330, 24033, 26816]"

definition FSB_SHAHE :: pospal_venue where
  "FSB_SHAHE = chain_venue (u ''fsb_shahe'') [27867, 24605, 21338, 29305, 27801, 27827] (u ''6003754'') [27867, 24605, 21338, 29305, 27801, 27827, 32593, 29699, 22330] [27867, 24605, 21338, 29305, 27801, 27827, 32593, 29699, 22330, 24033, 26816]"

definition FSB_BAOSHUI :: pospal_venue where
  "FSB_BAOSHUI = chain_venue (u ''fsb_baoshui'') [27867, 24605, 21338, 29305, 20445, 31246] (u ''6019577'') [27867, 24605, 21338, 29305, 20445, 31246, 32593, 29699, 22330] [27867, 24605, 21338, 29305, 20445, 31246, 32593, 29699, 22330, 24033, 26816]"

definition FSB_NANYOU :: pospal_venue where
  "FSB_NANYOU = chain_venue (u ''fsb_nanyou'') [27867, 24605, 21338, 29305, 21335, 27833] (u ''6019557'') [27867, 24605, 21338, 29305, 21335, 27833, 32593, 29699, 22330] [27867, 24605, 21338, 29305, 21335, 27833, 32593, 29699, 22330, 24033, 26816]"

definition FSB_XINQIAO :: pospal_venue where
  "FSB_XINQIAO = chain_venue (u ''fsb_xinqiao'') [27867, 24605, 21338, 29305, 26032, 26725] (u ''6019571'') [27867, 24605, 21338, 29305, 26032, 26725, 32593, 29699, 22330] [27867, 24605, 21338, 29305, 26032, 26725, 32593, 29699, 22330, 24033, 26816]"

definition FSB_YIFANGCHENG :: pospal_venue where
  "FSB_YIFANGCHENG = chain_venue (u ''fsb_yifangcheng'') [27867, 24605, 21338, 29305, 22777, 26041, 22478] (u ''6019568'') [27867, 24605, 21338, 29305, 22777, 26041, 22478, 32593, 29699, 22330] [27867, 24605, 21338, 29305, 22777, 26041, 22478, 32593, 29699, 22330, 24033, 26816]"

definition FSB_QILIN :: pospal_venue where
  "FSB_QILIN = chain_venue (u ''fsb_qilin'') [27867, 24605, 21338, 29305, 40594, 40607] (u ''6019569'') [27867, 24605, 21338, 29305, 40594, 40607, 32593, 29699, 22330] [27867, 24605, 21338, 29305, 40594, 40607, 32593, 29699, 22330, 24033, 26816]"

definition FSB_MAOZHOUHE :: pospal_venue where
  "FSB_MAOZHOUHE = chain_venue (u ''fsb_maozhouhe'') [27867, 24605, 21338, 29305, 33541, 27954, 27827] (u ''6019555'') [27867, 24605, 21338, 29305, 33541, 27954, 27827, 32593, 29699, 22330] [27867, 24605, 21338, 29305, 33541, 27954, 27827, 32593, 29699, 22330, 24033, 26816]"

definition FFT_QIANHAI :: pospal_venue where
  "FFT_QIANHAI = (chain_venue (u ''fft_qianhai'') (u ''FFTENNIS'' @ [21069, 28023, 22269, 38469, 32593, 29699, 20013, 24515]) (u ''5934657'')
       (u ''FFTENNIS'' @ [21069, 28023, 22269, 38469, 32593, 29699, 20013, 24515])
       (u ''FFTENNIS'' @ [21069, 28023, 22269, 38469, 32593, 29699, 20013, 24515, 24033, 26816]))
     \<lparr>pv_project_uid := u ''1756717886546691955'', pv_proxy_cache_key := u ''FFT_PROXY_CACHE'',
      pv_allowed_court_numbers := Some [1, 2, 3, 4, 5, 6], pv_try_direct_first := True, pv_verify_tls := True, pv_include_user_id := True,
      pv_extra_headers := [(u ''PSPLVISITORAUTO'', u ''API''), (u ''APPTYPE'', u ''1''), (u ''VERSIONINFO'', u ''NC|2026.07.25'')],
      pv_notification_baseline_key := Some (u ''FFT_QIANHAI_NOTIFICATION_BASELINE'')\<rparr>"

definition SWJJ :: pospal_venue where
  "SWJJ = (chain_venue (u ''swjj'') [28145, 28286, 31454, 30028] (u ''6149033'') [28145, 28286, 31454, 30028, 32593, 29699, 22330]
       [28145, 28286, 31454, 30028, 32593, 29699, 22330, 24033, 26816])
     \<lparr>pv_project_uid := u ''1793192927642251816'', pv_proxy_cache_key := u ''SWJJ_PROXY_CACHE'',
      pv_excluded_court_tokens := EXCLUDED_COURT_TOKENS @ [[21333, 25171]], pv_try_direct_first := True, pv_verify_tls := True,
      pv_include_user_id := True,
      pv_extra_headers := [(u ''PSPLVISITORAUTO'', u ''API''), (u ''APPTYPE'', u ''1''), (u ''VERSIONINFO'', u ''NC|2026.10.28'')],
      pv_notification_baseline_key := Some (u ''SWJJ_NOTIFICATION_BASELINE''), pv_lookahead_days := 7, pv_require_rooms := True,
      pv_max_cached_messages := 400\<rparr>"

definition CHAIN_VENUES :: "(pystr \<times> pospal_venue) list" where
  "CHAIN_VENUES = map (\<lambda>v. (pv_venue_id v, v)) [FSB_SHENYUN, FSB_SHEKOU, FSB_XINAN, FSB_ZHENGZHONG, FSB_ATUOSHAN, FSB_ZONGLVQUAN,
     FSB_GUANHU, FSB_BANTIAN, FSB_SHAHE, FSB_BAOSHUI, FSB_NANYOU, FSB_XINQIAO, FSB_YIFANGCHENG, FSB_QILIN, FSB_MAOZHOUHE]"

section \<open>Free ranges per court\<close>

text \<open>\<open>COURT_NUMBER_PATTERN\<close>: a number followed by the counter word.\<close>

definition court_number :: "pystr \<Rightarrow> int option" where
  [py_eval]: "court_number s =
     (let t = dropWhile is_space s; n = takeWhile is_digit t; rest = dropWhile is_space (dropWhile is_digit t) in
      if n \<noteq> [] \<and> rest \<noteq> [] \<and> hd rest = 21495 then py_int_of_str n else None)"

definition is_standard_tennis_court :: "pystr \<Rightarrow> pystr list \<Rightarrow> int list option \<Rightarrow> bool" where
  [py_eval]: "is_standard_tennis_court name excluded allowed =
     (let normalized = strip name in
      if normalized = [] \<or> list_ex (contains normalized) excluded then False
      else case allowed of None \<Rightarrow> True
        | Some numbers \<Rightarrow> (case court_number normalized of None \<Rightarrow> False | Some n \<Rightarrow> n \<in> set numbers))"

text \<open>\<open>s.split(":")\<close> and \<open>normalize_time\<close>.\<close>

fun split_char :: "nat \<Rightarrow> pystr \<Rightarrow> pystr list" where
  "split_char c [] = [[]]"
| "split_char c (x # xs) = (if x = c then [] # split_char c xs else case split_char c xs of [] \<Rightarrow> [[x]] | p # ps \<Rightarrow> (x # p) # ps)"

definition normalize_time :: "pystr \<Rightarrow> collect_error + pystr" where
  [py_eval]: "normalize_time s = (if s = [] then Inr s else case split_char 58 s of
     [h, m] \<Rightarrow> (case (py_int_of_str h, py_int_of_str m) of
        (Some hh, Some mm) \<Rightarrow> Inr (zpad 2 hh @ u '':'' @ zpad 2 mm) | _ \<Rightarrow> Inl ValueError)
   | _ \<Rightarrow> Inr s)"

definition parse_slot_time :: "pystr \<Rightarrow> pystr \<Rightarrow> collect_error + time_range" where
  "parse_slot_time b e = (case (strptime_seconds b, strptime_seconds e) of
     (Some t, Some t') \<Rightarrow>
       if last_datetime < t' + minutes 1 then Inl OverflowError
       else ebind (normalize_time (clock_of t)) (\<lambda>start.
         ebind (normalize_time (if date_of t < date_of (t' + minutes 1) then u ''24:00'' else clock_of (t' + minutes 1))) (\<lambda>fin.
           Inr (start, fin)))
   | _ \<Rightarrow> Inl ValueError)"

definition UNKNOWN_COURT :: pystr where
  [py_eval]: "UNKNOWN_COURT = [26410, 30693, 22330, 22320]"

text \<open>What one bookable cell adds: its court and range, or nothing.\<close>

definition cell_entry :: "pyenv \<Rightarrow> pystr list \<Rightarrow> int list option \<Rightarrow> jdict \<Rightarrow> (pystr \<times> time_range) option" where
  "cell_entry E excluded allowed slot =
     (let name = strip (py_str E (py_or (dget slot (u ''classRoomName'')) (PStr UNKNOWN_COURT))) in
      if \<not> is_standard_tennis_court name excluded allowed then None
      else case (dget slot (u ''beginDatetime''), dget slot (u ''endDatetime'')) of
        (PStr b, PStr e) \<Rightarrow> (case parse_slot_time b e of Inl _ \<Rightarrow> None | Inr r \<Rightarrow> Some (name, r))
      | _ \<Rightarrow> None)"

text \<open>\<open>d.setdefault(k, []).append(v)\<close>.\<close>

definition dict_append :: "'k \<times> 'v \<Rightarrow> ('k \<times> 'v list) list \<Rightarrow> ('k \<times> 'v list) list" where
  [py_eval]: "dict_append kv d = dict_put (fst kv) ((case map_of d (fst kv) of None \<Rightarrow> [] | Some vs \<Rightarrow> vs) @ [snd kv]) d"

definition merge_court :: "pystr \<times> time_range list \<Rightarrow> collect_error + pystr \<times> time_range list" where
  [py_eval]: "merge_court c = (case merge_time_ranges (snd c) of Inl _ \<Rightarrow> Inl ValueError | Inr rs \<Rightarrow> Inr (fst c, rs))"

definition parse_availability :: "pyenv \<Rightarrow> pyval \<Rightarrow> pystr list \<Rightarrow> int list option \<Rightarrow> collect_error + court_data" where
  "parse_availability E json excluded allowed =
     ebind (directly_bookable_slots E json) (\<lambda>slots.
       emap merge_court (fold dict_append (List.map_filter (cell_entry E excluded allowed) slots) []))"

section \<open>Which ranges are announced\<close>

text \<open>Times of day as minutes; a text that is no time raises ValueError.\<close>

definition parse_end_time_for_duration :: "pystr \<Rightarrow> int option" where
  [py_eval]: "parse_end_time_for_duration s = (if s = u ''24:00'' then Some 1440 else strptime_clock s)"

definition parse_end_time_for_overlap :: "pystr \<Rightarrow> int option" where
  [py_eval]: "parse_end_time_for_overlap s = (if s = u ''24:00'' then Some 1320 else strptime_clock s)"

definition target_start :: "pydate \<Rightarrow> int" where
  [py_eval]: "target_start d = (if 5 \<le> isoweekday d - 1 then 960 else 1080)"

definition target_end :: int where
  [py_eval]: "target_end = 1320"

definition announced_range :: "pydate \<Rightarrow> time_range \<Rightarrow> collect_error + bool" where
  "announced_range d r = (case (strptime_clock (fst r), parse_end_time_for_duration (snd r)) of
     (Some s, Some e) \<Rightarrow>
       if e - s < 60 then Inr False
       else (case parse_end_time_for_overlap (snd r) of
               None \<Rightarrow> Inl ValueError
             | Some e' \<Rightarrow> Inr (max s (target_start d) < min e' target_end))
   | _ \<Rightarrow> Inl ValueError)"

definition announced_ranges :: "pydate \<Rightarrow> time_range list \<Rightarrow> collect_error + time_range list" where
  "announced_ranges d rs = ebind (emap (announced_range d) rs) (\<lambda>bs. Inr (map fst (filter snd (zip rs bs))))"

definition notify_court :: "pospal_venue \<Rightarrow> pydate \<Rightarrow> pystr \<times> time_range list \<Rightarrow> collect_error + notification_court option" where
  "notify_court venue d c =
     (if snd c = [] \<or> \<not> is_standard_tennis_court (fst c) (pv_excluded_court_tokens venue) (pv_allowed_court_numbers venue) then Inr None
      else ebind (announced_ranges d (snd c)) (\<lambda>rs. Inr (if rs = [] then None
        else Some \<lparr>nc_date = month_day d, nc_court_name = pv_venue_name venue @ fst c, nc_free_slots = rs\<rparr>)))"

definition filter_court_data_for_notification :: "pospal_venue \<Rightarrow> pystr \<Rightarrow> court_data \<Rightarrow> collect_error + notification_court list" where
  "filter_court_data_for_notification venue input_date courts = (case strptime_date input_date of
     None \<Rightarrow> Inl ValueError
   | Some d \<Rightarrow> ebind (emap (notify_court venue d) courts) (\<lambda>xs. Inr (somes xs)))"

text \<open>\<open>print_court_data\<close> only prints, but computing a duration may raise.\<close>

definition print_court_data :: "court_data \<Rightarrow> collect_error + unit" where
  "print_court_data courts = (if list_all (\<lambda>(c, rs). list_all (\<lambda>r. parse_end_time_for_duration (snd r) \<noteq> None \<and> strptime_clock (fst r) \<noteq> None) rs) courts
     then Inr () else Inl ValueError)"

section \<open>Requests and proxies\<close>

text \<open>The answer to a request: the transport raises, or a status code and a body, which may not be JSON.\<close>

datatype http_reply = HttpRaises | HttpReply int "pyval option"

datatype request_result = Unavailable | NoRooms | Candidate pyval

definition request_availability :: "pospal_venue \<Rightarrow> http_reply \<Rightarrow> request_result" where
  "request_availability venue reply = (case reply of
     HttpRaises \<Rightarrow> Unavailable
   | HttpReply code body \<Rightarrow>
       if code \<noteq> 200 then Unavailable
       else (case body of None \<Rightarrow> Unavailable
         | Some v \<Rightarrow>
             let payload = as_mapping v in
             if dget payload (u ''successed'') \<noteq> PBool True \<or> dget payload (u ''status'') \<noteq> PStr (u ''success'') then Unavailable
             else if pv_require_rooms venue
                \<and> (case dget (as_mapping (dget payload (u ''result''))) (u ''validClassRooms'') of PList (r # rs) \<Rightarrow> False | _ \<Rightarrow> True)
             then NoRooms else Candidate v))"

definition as_str_list :: "pyenv \<Rightarrow> pyval \<Rightarrow> pystr list" where
  [py_eval]: "as_str_list E v = (case v of PList xs \<Rightarrow> filter (\<lambda>s. strip s \<noteq> []) (map (py_str E) xs) | _ \<Rightarrow> [])"

definition str_list_value :: "pystr list \<Rightarrow> pyval" where
  [py_eval]: "str_list_value xs = PList (map PStr xs)"

definition update_proxy_cache :: "pyenv \<Rightarrow> pystr \<Rightarrow> bool \<Rightarrow> pyval \<Rightarrow> pyval" where
  [py_eval]: "update_proxy_cache E proxy success cache =
     (let cached = as_str_list E cache in
      str_list_value (if success then (if proxy \<notin> set cached then take MAX_CACHED_PROXIES (proxy # cached) else cached)
        else remove1 proxy cached))"

fun try_proxies :: "pyenv \<Rightarrow> pospal_venue \<Rightarrow> (pystr option \<Rightarrow> http_reply) \<Rightarrow> pystr list \<Rightarrow> pyval \<Rightarrow> pyval \<times> (collect_error + pyval)" where
  "try_proxies E venue ask [] cache = (cache, Inl AllProxiesFailed)"
| "try_proxies E venue ask (p # ps) cache = (case request_availability venue (ask (Some p)) of
     Unavailable \<Rightarrow> try_proxies E venue ask ps (update_proxy_cache E p False cache)
   | NoRooms \<Rightarrow> (cache, Inl EmptyInventory)
   | Candidate v \<Rightarrow> (update_proxy_cache E p True cache, Inr v))"

text \<open>The answer that is used, direct or through a proxy; \<open>shuffle\<close> is the order the remaining proxies are tried in.\<close>

definition find_answer :: "pyenv \<Rightarrow> pospal_venue \<Rightarrow> (pystr option \<Rightarrow> http_reply) \<Rightarrow> (pystr list \<Rightarrow> pystr list) \<Rightarrow> pystr list \<Rightarrow> pyval \<Rightarrow> pyval \<times> (collect_error + pyval)" where
  "find_answer E venue ask shuffle proxy_list cache =
     (let cached = as_str_list E cache;
          proxied = try_proxies E venue ask (cached @ shuffle (filter (\<lambda>p. p \<notin> set cached) proxy_list)) cache
      in if pv_try_direct_first venue then
           (case request_availability venue (ask None) of
              Candidate v \<Rightarrow> (cache, Inr v) | NoRooms \<Rightarrow> (cache, Inl EmptyInventory) | Unavailable \<Rightarrow> proxied)
         else proxied)"

definition get_tennis_court_availability ::
    "pyenv \<Rightarrow> pospal_venue \<Rightarrow> (pystr option \<Rightarrow> http_reply) \<Rightarrow> (pystr list \<Rightarrow> pystr list) \<Rightarrow> pystr list \<Rightarrow> pyval \<Rightarrow> pyval \<times> (collect_error + court_data)" where
  "get_tennis_court_availability E venue ask shuffle proxy_list cache =
     (case find_answer E venue ask shuffle proxy_list cache of (cache', answer) \<Rightarrow>
        (cache', ebind answer (\<lambda>v. parse_availability E v (pv_excluded_court_tokens venue) (pv_allowed_court_numbers venue))))"

section \<open>A run\<close>

text \<open>The stored variables of a venue: its proxies, the lines announced before, and the warm-start marker.\<close>

record collector_vars =
  cv_proxies :: pyval
  cv_messages :: pyval
  cv_baseline :: pyval

text \<open>What the days of a run add up to.\<close>

record sweep =
  sw_courts :: "notification_court list"
  sw_slots :: "web_slot list"
  sw_errors :: "pystr list"
  sw_empty :: "pystr list"

text \<open>The body of the loop for one date; \<open>error_text\<close> is \<open>str(error)\<close>.\<close>

definition sweep_date ::
    "pyenv \<Rightarrow> (collect_error \<Rightarrow> pystr) \<Rightarrow> pospal_venue \<Rightarrow> (pystr \<Rightarrow> pystr option \<Rightarrow> http_reply) \<Rightarrow> (pystr list \<Rightarrow> pystr list) \<Rightarrow> pystr list
     \<Rightarrow> pydate \<Rightarrow> pyval \<times> sweep \<Rightarrow> pyval \<times> sweep" where
  "sweep_date E error_text venue ask shuffle proxy_list d st =
     (case get_tennis_court_availability E venue (ask (isoformat d)) shuffle proxy_list (fst st) of (cache, answer) \<Rightarrow>
        let failed = (\<lambda>w e. w\<lparr>sw_errors := sw_errors w @ [error_text e]\<rparr>) in
        (cache, case answer of
           Inl EmptyInventory \<Rightarrow> (snd st)\<lparr>sw_empty := sw_empty (snd st) @ [isoformat d]\<rparr>
         | Inl e \<Rightarrow> failed (snd st) e
         | Inr courts \<Rightarrow>
             let w = (snd st)\<lparr>sw_slots := sw_slots (snd st) @ flatten_court_slots (isoformat d) courts\<rparr> in
             (case ebind (print_court_data courts) (\<lambda>_. filter_court_data_for_notification venue (isoformat d) courts) of
                Inl e \<Rightarrow> failed w e
              | Inr ns \<Rightarrow> w\<lparr>sw_courts := sw_courts w @ ns\<rparr>)))"

definition empty_sweep :: sweep where
  [py_eval]: "empty_sweep = \<lparr>sw_courts = [], sw_slots = [], sw_errors = [], sw_empty = []\<rparr>"

text \<open>The loop over the days ahead; \<open>today i\<close> is the current date when the turn of day \<open>i\<close> comes.\<close>

definition sweep_days ::
    "pyenv \<Rightarrow> (collect_error \<Rightarrow> pystr) \<Rightarrow> pospal_venue \<Rightarrow> (pystr \<Rightarrow> pystr option \<Rightarrow> http_reply) \<Rightarrow> (pystr list \<Rightarrow> pystr list) \<Rightarrow> pystr list
     \<Rightarrow> (nat \<Rightarrow> pydate) \<Rightarrow> pyval \<Rightarrow> pyval \<times> sweep" where
  "sweep_days E error_text venue ask shuffle proxy_list today cache =
     fold (\<lambda>i. sweep_date E error_text venue ask shuffle proxy_list (today i + int i)) [0..<pv_lookahead_days venue] (cache, empty_sweep)"

text \<open>
  What a run finds outside: the time when it starts, when each day is asked for and when the lines are
  built, as the code reads the clock each time, the answers of the booking service per date and proxy, the
  order of the proxies, the time stamp it writes, whether the host acknowledges its observation, the
  configured chat rooms and device, and the host's answers to a digest.
\<close>

record run_world =
  rw_now :: int
  rw_clock :: "nat \<Rightarrow> int"
  rw_built :: int
  rw_ask :: "pystr \<Rightarrow> pystr option \<Rightarrow> http_reply"
  rw_shuffle :: "pystr list \<Rightarrow> pystr list"
  rw_proxies :: "pystr list"
  rw_stamp :: pystr
  rw_published :: bool
  rw_chat_names :: pyval
  rw_device :: pystr
  rw_host :: host_api

text \<open>
  What a run does to the outside: the observation it publishes, the new lines it stores as announced, the
  digest it hands over, and the text whose lines the handing over released again.
\<close>

record run_effects =
  re_slots :: "web_slot list"
  re_healthy :: bool
  re_error :: "pystr option"
  re_lines :: "pystr list"
  re_message :: "pystr option"
  re_released :: "pystr option"

definition STALE_SUFFIX :: pystr where
  "STALE_SUFFIX = [32, 22825, 22343, 36820, 22238, 31354, 32] @ u ''validClassRooms'' @ [65292, 38376, 24215, 25110, 39033, 30446, 37197, 32622, 21487, 33021, 24050, 22833, 25928]"

definition stale_text :: "pospal_venue \<Rightarrow> pystr" where
  "stale_text venue = pv_venue_name venue @ [32, 26410, 26469, 32] @ dec (int (pv_lookahead_days venue)) @ STALE_SUFFIX"

definition all_errors :: "pospal_venue \<Rightarrow> sweep \<Rightarrow> pystr list" where
  [py_eval]: "all_errors venue w = (if pv_require_rooms venue \<and> sw_errors w = [] \<and> length (sw_empty w) = pv_lookahead_days venue
     then [stale_text venue] else sw_errors w)"

definition baseline_initialized :: "pospal_venue \<Rightarrow> pyval \<Rightarrow> bool" where
  [py_eval]: "baseline_initialized venue baseline = (case pv_notification_baseline_key venue of
     None \<Rightarrow> True | Some k \<Rightarrow> k = [] \<or> dget (as_mapping baseline) (u ''initialized'') = PBool True)"

text \<open>The last \<open>n\<close> elements: \<open>xs[-n:]\<close>, which for \<open>n = 0\<close> is the whole list.\<close>

definition last_items :: "nat \<Rightarrow> 'a list \<Rightarrow> 'a list" where
  [py_eval]: "last_items n xs = (if n = 0 then xs else drop (length xs - n) xs)"

text \<open>\<open>enqueue_wechat_message\<close>: the digest goes to the configured chat rooms.\<close>

definition enqueue_wechat_message :: "pyenv \<Rightarrow> pospal_venue \<Rightarrow> run_world \<Rightarrow> pystr \<Rightarrow> pystr option" where
  "enqueue_wechat_message E venue world message =
     send_wechat_text_to_chatrooms_best_effort E (rw_host world) (PList (map PStr (splitlines (py_str E (rw_chat_names world)))))
       message (rw_device world) (pv_dag_id venue) (pv_venue_id venue)"

definition release_own :: "pyenv \<Rightarrow> pospal_venue \<Rightarrow> pystr option \<Rightarrow> collector_vars \<Rightarrow> collector_vars" where
  "release_own E venue released vars =
     vars\<lparr>cv_messages := release_stored E (pv_venue_id venue) (pv_cache_key venue) released (cv_messages vars)\<rparr>"

text \<open>
  The part after the sweep: the stored variables, the new lines, the digest and what was released. A year
  for which a line's day does not exist raises out of the run; the observation has been published by then.
\<close>

definition announce ::
    "pyenv \<Rightarrow> pospal_venue \<Rightarrow> run_world \<Rightarrow> sweep \<Rightarrow> collector_vars
     \<Rightarrow> collect_error + collector_vars \<times> pystr list \<times> pystr option \<times> pystr option" where
  "announce E venue world w vars =
     (let ready = baseline_initialized venue (cv_baseline vars);
          sended = as_str_list E (cv_messages vars);
          marked = (\<lambda>vs. if pv_notification_baseline_key venue \<noteq> None \<and> pv_notification_baseline_key venue \<noteq> Some [] \<and> \<not> ready
                      \<and> all_errors venue w = [] \<and> rw_published world
                    then vs\<lparr>cv_baseline := PDict [(u ''initialized'', PBool True), (u ''initialized_at'', PStr (rw_stamp world))]\<rparr> else vs)
      in if sw_courts w = [] then Inr (marked vars, [], None, None)
         else ebind (build_new_notifications (sw_courts w) sended (fst (civil_of_day (date_of (rw_built world))))) (\<lambda>new.
           if new = [] then Inr (marked vars, [], None, None)
           else
             let stored = vars\<lparr>cv_messages := str_list_value (last_items (pv_max_cached_messages venue) (sended @ new))\<rparr>;
                 message = (if ready then Some (join [10] new) else None);
                 released = (if ready then enqueue_wechat_message E venue world (join [10] new) else None)
             in Inr (marked (release_own E venue released stored), new, message, released)))"

definition inspection_closed :: "int \<Rightarrow> bool" where
  [py_eval]: "inspection_closed now \<longleftrightarrow> now mod days 1 < hours 8"

text \<open>The stored variables, what the run did to the outside, and the exception it ended with, if any.\<close>

definition run_check ::
    "pyenv \<Rightarrow> (collect_error \<Rightarrow> pystr) \<Rightarrow> pospal_venue \<Rightarrow> run_world \<Rightarrow> collector_vars \<Rightarrow> collector_vars \<times> run_effects \<times> collect_error option" where
  "run_check E error_text venue world vars =
     (if inspection_closed (rw_now world)
      then (vars, \<lparr>re_slots = [], re_healthy = True, re_error = None, re_lines = [], re_message = None, re_released = None\<rparr>, None)
      else case sweep_days E error_text venue (rw_ask world) (rw_shuffle world) (rw_proxies world) (\<lambda>i. date_of (rw_clock world i)) (cv_proxies vars) of (cache, w) \<Rightarrow>
        let vars1 = vars\<lparr>cv_proxies := cache\<rparr>; errors = all_errors venue w; text = join (u ''; '') errors;
            observed = \<lparr>re_slots = sw_slots w, re_healthy = (errors = []), re_error = (if text = [] then None else Some text),
              re_lines = [], re_message = None, re_released = None\<rparr>
        in case announce E venue world w vars1 of
             Inl e \<Rightarrow> (vars1, observed, Some e)
           | Inr (vars2, new, message, released) \<Rightarrow>
               (vars2, observed\<lparr>re_lines := new, re_message := message, re_released := released\<rparr>, None))"

end
