(* ===== verification/CollectorLaws.thy ===== *)
theory CollectorLaws
  imports PosPal WechatQueueLaws ApiLaws
begin

text \<open>
  What the collectors guarantee: the digest lines they announce are read back by the host as they were
  meant, and the time they publish as free is bookable in the answer they got.
\<close>

section \<open>Lines are read back\<close>

definition two_ascii :: "pystr \<Rightarrow> bool" where
  [py_eval]: "two_ascii s \<longleftrightarrow> length s = 2 \<and> list_all is_ascii_digit s"

lemma ascii_is_digit: "is_ascii_digit c \<Longrightarrow> is_digit c"
  by (simp add: is_ascii_digit_def is_digit_def digit_value_ascii)

lemma zpad2_ascii: "0 \<le> n \<Longrightarrow> n < 100 \<Longrightarrow> two_ascii (zpad 2 n)"
  by (auto simp: zpad2_digits two_ascii_def is_ascii_digit_def)

lemma two_asciiE: "two_ascii s \<Longrightarrow> (\<And>a b. s = [a, b] \<Longrightarrow> is_ascii_digit a \<Longrightarrow> is_ascii_digit b \<Longrightarrow> P) \<Longrightarrow> P"
  by (auto simp: two_ascii_def length_Suc_conv numeral_2_eq_2)

lemma clock_text_shape:
  assumes "0 \<le> m" "m < 6000"
  obtains a b c d where "clock_text m = [a, b, 58, c, d]" "is_ascii_digit a" "is_ascii_digit b" "is_ascii_digit c" "is_ascii_digit d"
proof -
  have "two_ascii (zpad 2 (m div 60))" "two_ascii (zpad 2 (m mod 60))" using assms by (auto intro!: zpad2_ascii)
  then show ?thesis by (elim two_asciiE) (auto simp: clock_text_def u_def intro: that)
qed

lemma clock_text_match: "0 \<le> m \<Longrightarrow> m < 6000 \<Longrightarrow> clock_match (clock_text m)"
  by (erule (1) clock_text_shape) (simp add: clock_match_def ascii_is_digit)

lemma month_day_shape:
  obtains a b c d where "month_day n = [a, b, 45, c, d]" "is_ascii_digit a" "is_ascii_digit b" "is_ascii_digit c" "is_ascii_digit d"
proof -
  obtain y m d where c: "civil_of_day n = (y, m, d)" by (cases "civil_of_day n")
  have "1 \<le> m \<and> m \<le> 12 \<and> 1 \<le> d \<and> d \<le> 31" using civil_of_day_md [OF c] by simp
  then have "two_ascii (zpad 2 m)" "two_ascii (zpad 2 d)" by (auto intro!: zpad2_ascii)
  then show ?thesis by (elim two_asciiE) (auto simp: month_day_def c u_def intro: that)
qed

lemma notification_line_match:
  assumes court: "court \<noteq> []" "10 \<notin> set court" and wd: "0 \<le> wd" "wd \<le> 6"
    and date: "date = month_day n" and t: "0 \<le> s" "s < 6000" "0 \<le> e" "e < 6000"
  shows "line_match (notification_line court wd date (clock_text s, clock_text e))
    = Some \<lparr>dl_court = court, dl_day = date, dl_start = clock_text s, dl_end = clock_text e\<rparr>"
proof -
  obtain m1 m2 d1 d2 where d: "date = [m1, m2, 45, d1, d2]" "is_ascii_digit m1" "is_ascii_digit m2" "is_ascii_digit d1" "is_ascii_digit d2"
    unfolding date by (rule month_day_shape)
  obtain a1 a2 a3 a4 where a: "clock_text s = [a1, a2, 58, a3, a4]" "is_ascii_digit a1" "is_ascii_digit a2" "is_ascii_digit a3" "is_ascii_digit a4"
    using t(1,2) by (rule clock_text_shape)
  obtain b1 b2 b3 b4 where b: "clock_text e = [b1, b2, 58, b3, b4]" "is_ascii_digit b1" "is_ascii_digit b2" "is_ascii_digit b3" "is_ascii_digit b4"
    using t(3,4) by (rule clock_text_shape)
  define w where "w = WEEKDAY_CHARS ! nat wd"
  have w: "w \<in> set WEEKDAY_CHARS" unfolding w_def by (rule nth_mem) (use wd in \<open>simp add: WEEKDAY_CHARS_def\<close>)
  let ?tail = "[26143, 26399, w, 40, m1, m2, 45, d1, d2, 41, 31354, 22330, 58, 32, a1, a2, 58, a3, a4, 45, b1, b2, 58, b3, b4]"
  have line: "notification_line court wd date (clock_text s, clock_text e) = 12304 # court @ 12305 # ?tail"
    by (simp add: notification_line_def d(1) a(1) b(1) w_def u_def)
  have "12305 \<notin> set ?tail"
    using w d a b by (auto simp: is_ascii_digit_def WEEKDAY_CHARS_def)
  then have split: "takeWhile (\<lambda>x. x \<noteq> 12305) (rev ?tail @ 12305 # rev court) = rev ?tail"
      "dropWhile (\<lambda>x. x \<noteq> 12305) (rev ?tail @ 12305 # rev court) = 12305 # rev court"
    by (subst takeWhile_append2 dropWhile_append2; auto)+
  then have tk: "rev (takeWhile (\<lambda>x. x \<noteq> 12305) (rev (court @ 12305 # ?tail))) = ?tail"
      "rev (drop 1 (dropWhile (\<lambda>x. x \<noteq> 12305) (rev (court @ 12305 # ?tail)))) = court" by simp_all
  have dw: "dropWhile is_space [32, a1, a2, 58, a3, a4, 45, b1, b2, 58, b3, b4] = [a1, a2, 58, a3, a4, 45, b1, b2, 58, b3, b4]"
    using a ascii_digit_not_space by (simp add: is_space_def [of 32])
  have cm: "clock_match [a1, a2, 58, a3, a4]" "clock_match [b1, b2, 58, b3, b4]" using a b by (simp_all add: clock_match_def ascii_is_digit)
  have dg: "is_digit m1" "is_digit m2" "is_digit d1" "is_digit d2" using d by (simp_all add: ascii_is_digit)
  have w': "w \<in> set [19968, 20108, 19977, 22235, 20116, 20845, 26085]" using w by (simp only: WEEKDAY_CHARS_def)
  have parts: "take 5 [a1, a2, 58, a3, a4, 45, b1, b2, 58, b3, b4] = [a1, a2, 58, a3, a4]"
    "drop 6 [a1, a2, 58, a3, a4, 45, b1, b2, 58, b3, b4] = [b1, b2, 58, b3, b4]" "[a1, a2, 58, a3, a4, 45, b1, b2, 58, b3, b4] ! 5 = 45" by simp_all
  show ?thesis unfolding line line_match_def list.case Let_def tk dw
    by (simp only: d(1) a(1) b(1) parts cm dg w' simp_thms if_True) (use court in simp)
qed

lemma mod60_mod10: "(m :: int) mod 60 mod 10 = m mod 10"
  by (rule mod_mod_cancel) simp

lemma clock_text_digits:
  assumes "0 \<le> m" "m < 6000"
  shows "clock_text m = [48 + nat (m div 600), 48 + nat (m div 60 mod 10), 58, 48 + nat (m mod 60 div 10), 48 + nat (m mod 10)]"
proof -
  have h: "0 \<le> m div 60" "m div 60 < 100" "0 \<le> m mod 60" "m mod 60 < 100" using assms by auto
  have "m div 60 div 10 = m div 600" by (simp add: zdiv_zmult2_eq [symmetric])
  moreover have "nat (m div 60) div 10 = nat (m div 60 div 10)" "nat (m div 60) mod 10 = nat (m div 60 mod 10)"
    "nat (m mod 60) div 10 = nat (m mod 60 div 10)" "nat (m mod 60) mod 10 = nat (m mod 60 mod 10)"
    using h by (simp_all add: nat_div_distrib nat_mod_distrib)
  ultimately show ?thesis
    unfolding clock_text_def zpad2_digits [OF h(1,2)] zpad2_digits [OF h(3,4)] by (simp add: u_def mod60_mod10)
qed

lemma minute_digits:
  fixes m :: int
  shows "m = 600 * (m div 600) + 60 * (m div 60 mod 10) + 10 * (m mod 60 div 10) + m mod 10"
proof -
  have "m div 60 = 10 * (m div 600) + m div 60 mod 10"
    using mult_div_mod_eq [of 10 "m div 60"] by (simp add: zdiv_zmult2_eq [symmetric])
  moreover have "m mod 60 = 10 * (m mod 60 div 10) + m mod 10" using mult_div_mod_eq [of 10 "m mod 60"] by (simp add: mod60_mod10)
  ultimately show ?thesis using mult_div_mod_eq [of 60 m] by linarith
qed

lemma clock_text_less:
  assumes "0 \<le> s" "s < e" "e < 6000"
  shows "clock_text s < clock_text e"
proof -
  have lex: "a < a' \<or> a = a' \<and> (b < b' \<or> b = b' \<and> (c < c' \<or> c = c' \<and> d < d'))"
    if "600 * a + 60 * b + 10 * c + d < 600 * a' + 60 * b' + 10 * c' + d'"
      "0 \<le> b" "0 \<le> b'" "b \<le> 9" "b' \<le> 9" "0 \<le> c" "0 \<le> c'" "c \<le> 5" "c' \<le> 5" "0 \<le> d" "0 \<le> d'" "d \<le> 9" "d' \<le> 9"
    for a a' b b' c c' d d' :: int using that by linarith
  have r: "0 \<le> m div 60 mod 10" "m div 60 mod 10 \<le> 9" "0 \<le> m mod 60 div 10" "m mod 60 div 10 \<le> 5" "0 \<le> m mod 10" "m mod 10 \<le> 9" for m :: int
    by (auto simp: pos_imp_zdiv_nonneg_iff)
  have "s div 600 < e div 600 \<or> s div 600 = e div 600 \<and> (s div 60 mod 10 < e div 60 mod 10 \<or> s div 60 mod 10 = e div 60 mod 10 \<and>
     (s mod 60 div 10 < e mod 60 div 10 \<or> s mod 60 div 10 = e mod 60 div 10 \<and> s mod 10 < e mod 10))"
    using assms(2) by (intro lex r) (simp only: minute_digits [symmetric])
  moreover have digits: "[48 + nat a, 48 + nat b, 58, 48 + nat c, 48 + nat d] < [48 + nat a', 48 + nat b', 58, 48 + nat c', 48 + nat d']"
    if "a < a' \<or> a = a' \<and> (b < b' \<or> b = b' \<and> (c < c' \<or> c = c' \<and> d < d'))" "0 \<le> a" "0 \<le> b" "0 \<le> c" "0 \<le> d"
    for a a' b b' c c' d d' :: int using that by (elim disjE conjE) (simp_all add: nat_less_eq_zless)
  moreover have "0 \<le> s div 600" using assms(1) by simp
  moreover have "s < 6000" "0 \<le> e" using assms by simp_all
  ultimately show ?thesis
    unfolding clock_text_digits [OF assms(1) \<open>s < 6000\<close>] clock_text_digits [OF \<open>0 \<le> e\<close> assms(3)] by (intro digits r)
qed

lemma clock_text_le: "0 \<le> s \<Longrightarrow> s \<le> e \<Longrightarrow> e < 6000 \<Longrightarrow> clock_text s \<le> clock_text e"
  using clock_text_less [of s e] by (cases "s = e") auto

lemma clock_text_minutes: "0 \<le> m \<Longrightarrow> m < 6000 \<Longrightarrow> \<not> u ''59'' < drop 3 (clock_text m)"
proof -
  assume m: "0 \<le> m" "m < 6000"
  have "m mod 60 div 10 \<le> 5" "m mod 10 \<le> 9" by (presburger, presburger)
  then show ?thesis using m by (auto simp: clock_text_digits u_def nat_le_iff not_less numeral_3_eq_3)
qed

section \<open>Announced digests are well formed\<close>

text \<open>What the host relies on: a court's name on one line, a day of the calendar, and ranges of at least an hour.\<close>

definition announceable :: "notification_court \<Rightarrow> bool" where
  "announceable c \<longleftrightarrow> nc_court_name c \<noteq> [] \<and> list_all (\<lambda>x. \<not> is_line_break x) (nc_court_name c) \<and> (\<exists>n. nc_date c = month_day n)
     \<and> list_all (\<lambda>r. \<exists>s e. r = range_text (s, e) \<and> 0 \<le> s \<and> s + 60 \<le> e \<and> e \<le> 1440) (nc_free_slots c)"

lemma cover_nonempty: "cover fin c ss = (c', ks) \<Longrightarrow> c < fin \<Longrightarrow> fin \<le> c' \<Longrightarrow> ks \<noteq> []"
  by (cases ss) (auto simp: Let_def split: if_splits prod.splits)

lemma line_no_break:
  assumes "list_all (\<lambda>x. \<not> is_line_break x) court" "0 \<le> wd" "wd \<le> 6" "0 \<le> s" "s < 6000" "0 \<le> e" "e < 6000"
  shows "unbroken (notification_line court wd (month_day n) (clock_text s, clock_text e))"
    "strip (notification_line court wd (month_day n) (clock_text s, clock_text e)) = notification_line court wd (month_day n) (clock_text s, clock_text e)"
proof -
  let ?w = "WEEKDAY_CHARS ! nat wd"
  have w: "?w \<in> set WEEKDAY_CHARS" by (rule nth_mem) (use assms in \<open>simp add: WEEKDAY_CHARS_def\<close>)
  obtain m1 m2 d1 d2 where d: "month_day n = [m1, m2, 45, d1, d2]" "is_ascii_digit m1" "is_ascii_digit m2" "is_ascii_digit d1" "is_ascii_digit d2"
    by (rule month_day_shape)
  obtain a1 a2 a3 a4 where a: "clock_text s = [a1, a2, 58, a3, a4]" "is_ascii_digit a1" "is_ascii_digit a2" "is_ascii_digit a3" "is_ascii_digit a4"
    using assms(4,5) by (rule clock_text_shape)
  obtain b1 b2 b3 b4 where b: "clock_text e = [b1, b2, 58, b3, b4]" "is_ascii_digit b1" "is_ascii_digit b2" "is_ascii_digit b3" "is_ascii_digit b4"
    using assms(6,7) by (rule clock_text_shape)
  have dig: "\<not> is_line_break c" "\<not> is_space c" if "is_ascii_digit c" for c using that by (auto simp: is_ascii_digit_def is_line_break_def is_space_def)
  have "\<not> is_line_break ?w" using w by (auto simp: WEEKDAY_CHARS_def is_line_break_def)
  moreover have "list_all (\<lambda>x. \<not> is_line_break x) [12304, 12305, 26143, 26399, 40, 45, 41, 31354, 22330, 58, 32]" by (simp add: is_line_break_def)
  ultimately show "unbroken (notification_line court wd (month_day n) (clock_text s, clock_text e))"
    using assms(1) d a b dig by (simp add: unbroken_def notification_line_def u_def)
  show "strip (notification_line court wd (month_day n) (clock_text s, clock_text e)) = notification_line court wd (month_day n) (clock_text s, clock_text e)"
    by (rule strip_fixed) (use dig b in \<open>simp_all add: notification_line_def u_def is_space_def [of 12304]\<close>)
qed

lemma line_accepted:
  assumes "court \<noteq> []" "list_all (\<lambda>x. \<not> is_line_break x) court" "0 \<le> wd" "wd \<le> 6" "0 \<le> s" "s + 60 \<le> e" "e \<le> 1440"
  shows "covered_events (notification_line court wd (month_day n) (clock_text s, clock_text e)) slots = Inl AvailabilityChanged
    \<or> (\<exists>ks. covered_events (notification_line court wd (month_day n) (clock_text s, clock_text e)) slots = Inr ks)"
proof -
  let ?line = "notification_line court wd (month_day n) (clock_text s, clock_text e)"
  let ?l = "\<lparr>dl_court = court, dl_day = month_day n, dl_start = clock_text s, dl_end = clock_text e\<rparr>"
  let ?fin = "if clock_text e = u ''24:00'' then u ''23:59'' else clock_text e"
  have b: "s < 6000" "0 \<le> e" "e < 6000" using assms by simp_all
  note line = line_no_break [OF assms(2,3,4,5) b(1) b(2,3), of n]
  have "10 \<notin> set court" using assms(2) by (auto simp: list_all_iff is_line_break_def)
  then have m: "line_match ?line = Some ?l" using assms b by (intro notification_line_match) auto
  have t: "u ''00:00'' = clock_text 0" "u ''24:00'' = clock_text 1440" "u ''23:59'' = clock_text 1439"
    by (simp_all add: clock_text_def zpad2_digits u_def)
  have valid: "u ''00:00'' \<le> clock_text s" "clock_text s < clock_text e" "clock_text e \<le> u ''24:00''"
    "\<not> u ''59'' < drop 3 (clock_text s)" "\<not> u ''59'' < drop 3 (clock_text e)"
    unfolding t using assms b clock_text_minutes [of s] clock_text_minutes [of e] by (auto intro!: clock_text_le clock_text_less)
  have fin: "clock_text s < ?fin" using assms b valid(2) by (auto simp: t intro!: clock_text_less)
  obtain c ks where c: "cover ?fin (clock_text s) (sort_key sl_start_time (filter (slot_candidate ?l ?fin) slots)) = (c, ks)" by fastforce
  have "covered_line slots ?line = (if c < ?fin then Inl AvailabilityChanged else Inr ks)"
    unfolding covered_line_def line(2) m option.case Let_def digest_line.simps
    using valid c by simp
  moreover have "ks \<noteq> []" if "\<not> c < ?fin" using cover_nonempty [OF c fin] that by simp
  moreover have "splitlines ?line = [?line]" using line(1) by (simp add: splitlines_def lines_from_single unbroken_def)
  ultimately show ?thesis by (simp add: covered_events_def)
qed

lemma keep_lines_total:
  assumes "list_all (\<lambda>l. strip l = l \<and> (covered_events l slots = Inl AvailabilityChanged \<or> (\<exists>ks. covered_events l slots = Inr ks))) ls"
  shows "\<exists>r. keep_lines slots ls = Inr r"
  using assms
proof (induction ls)
  case (Cons l ls)
  then obtain kept keys rejected where "keep_lines slots ls = Inr (kept, keys, rejected)" by (auto simp: split_paired_Ex)
  with Cons.prems show ?case by auto
qed simp

lemma line_weekday_range: "line_weekday year date = Inr wd \<Longrightarrow> 0 \<le> wd \<and> wd \<le> 6"
  using isoweekday_range [of "the (strptime_date (dec year @ u ''-'' @ date))"] by (auto simp: line_weekday_def split: option.splits)

lemma built_line_from:
  assumes "build_new_notifications courts sended year = Inr new" "l \<in> set new"
  obtains c wd r where "c \<in> set courts" "line_weekday year (nc_date c) = Inr wd" "r \<in> set (nc_free_slots c)"
    "l = notification_line (nc_court_name c) wd (nc_date c) r"
proof -
  have "\<exists>c \<in> set courts. \<exists>wd. \<exists>r \<in> set (nc_free_slots c). line_weekday year (nc_date c) = Inr wd
      \<and> l = notification_line (nc_court_name c) wd (nc_date c) r"
    using assms by (induction courts arbitrary: new) (force simp: ebind_Inr_iff)+
  then show ?thesis using that by blast
qed

lemma built_lines:
  assumes "build_new_notifications courts sended year = Inr new" "list_all announceable courts" "l \<in> set new"
  obtains court wd n s e where "l = notification_line court wd (month_day n) (clock_text s, clock_text e)" "court \<noteq> []"
    "list_all (\<lambda>x. \<not> is_line_break x) court" "0 \<le> wd" "wd \<le> 6" "0 \<le> s" "s + 60 \<le> e" "e \<le> 1440"
proof -
  obtain c wd r where c: "c \<in> set courts" "line_weekday year (nc_date c) = Inr wd" "r \<in> set (nc_free_slots c)"
    "l = notification_line (nc_court_name c) wd (nc_date c) r" using assms(1,3) by (rule built_line_from)
  have a: "announceable c" using assms(2) c(1) by (auto simp: list_all_iff)
  obtain n where "nc_date c = month_day n" using a by (auto simp: announceable_def)
  moreover obtain s e where "r = range_text (s, e)" "0 \<le> s" "s + 60 \<le> e" "e \<le> 1440" using a c(3) by (fastforce simp: announceable_def list_all_iff)
  ultimately show ?thesis using that a c(2,4) line_weekday_range [OF c(2)] by (auto simp: range_text_def announceable_def)
qed

lemma built_digest_accepted:
  assumes "build_new_notifications courts sended year = Inr new" "list_all announceable courts"
  shows "\<exists>current keys rejected. current_message (join [10] new) slots = Inr (current, keys, rejected)"
proof -
  have "unbroken l \<and> strip l = l \<and> (covered_events l slots = Inl AvailabilityChanged \<or> (\<exists>ks. covered_events l slots = Inr ks))" if mem: "l \<in> set new" for l
  proof -
    obtain court wd n s e where l: "l = notification_line court wd (month_day n) (clock_text s, clock_text e)" and a: "court \<noteq> []"
      "list_all (\<lambda>x. \<not> is_line_break x) court" "0 \<le> wd" "wd \<le> 6" "0 \<le> s" "s + 60 \<le> e" "e \<le> 1440" using assms mem by (rule built_lines)
    have b: "s < 6000" "0 \<le> e" "e < 6000" using a by simp_all
    show ?thesis unfolding l using line_no_break [OF a(2,3,4,5) b(1) b(2,3), of n] line_accepted [OF a, of n slots] by blast
  qed
  then have ok: "list_all unbroken new" "list_all (\<lambda>l. strip l = l \<and> (covered_events l slots = Inl AvailabilityChanged \<or> (\<exists>ks. covered_events l slots = Inr ks)))
      (sort (remdups (splitlines (join [10] new))))"
    by (auto simp: list_all_iff splitlines_join)
  obtain kept keys rejected where "keep_lines slots (sort (remdups (splitlines (join [10] new)))) = Inr (kept, keys, rejected)"
    using keep_lines_total [OF ok(2)] by (auto simp: split_paired_Ex)
  then show ?thesis by (simp add: current_message_def)
qed

section \<open>Ranges of an answer\<close>

lemma split_char_none: "c \<notin> set s \<Longrightarrow> split_char c s = [s]"
  by (induction s) auto

lemma split_char_one: "c \<notin> set s \<Longrightarrow> split_char c (s @ c # t) = s # split_char c t"
  by (induction s) auto

lemma normalize_clock:
  assumes "0 \<le> m" "m < 6000"
  shows "normalize_time (clock_text m) = Inr (clock_text m)"
proof -
  have h: "0 \<le> m div 60" "m div 60 < 100" "0 \<le> m mod 60" "m mod 60 < 100" using assms by auto
  have two: "two_ascii (zpad 2 (m div 60))" "two_ascii (zpad 2 (m mod 60))" using h by (auto intro!: zpad2_ascii)
  then have n: "58 \<notin> set (zpad 2 (m div 60))" "58 \<notin> set (zpad 2 (m mod 60))" by (auto elim!: two_asciiE simp: is_ascii_digit_def)
  have "split_char 58 (clock_text m) = [zpad 2 (m div 60), zpad 2 (m mod 60)]"
    using split_char_one [OF n(1), of "zpad 2 (m mod 60)"] split_char_none [OF n(2)] by (simp add: clock_text_def u_def)
  moreover have "py_int_of_str (zpad 2 k) = Some k" if "0 \<le> k" "k < 100" for k
  proof -
    have "nat k div 10 < 10" "nat k mod 10 < 10" using that by auto
    then have "py_int_of_str (zpad 2 k) = Some (10 * int (nat k div 10) + int (nat k mod 10))"
      unfolding zpad2_digits [OF that] by (rule py_int_two_ascii)
    also have "10 * int (nat k div 10) + int (nat k mod 10) = k" using that by (simp add: zdiv_int zmod_int)
    finally show ?thesis .
  qed
  moreover have "clock_text m \<noteq> []" by (simp add: clock_text_def u_def)
  ultimately show ?thesis using h by (simp add: normalize_time_def) (simp add: clock_text_def)
qed

lemma digit_value_nat: "0 \<le> x \<Longrightarrow> x \<le> 9 \<Longrightarrow> digit_value (48 + nat x) = Some x"
  by (subst digit_value_ascii) auto

lemma hour_field_digits:
  assumes "0 \<le> x" "x \<le> 2" "0 \<le> y" "y \<le> 9" "x = 2 \<longrightarrow> y \<le> 3"
  shows "hour_field [48 + nat x, 48 + nat y] = Some (10 * x + y)"
proof -
  have v: "digit_value (48 + nat x) = Some x" "digit_value (48 + nat y) = Some y" using assms by (simp_all add: digit_value_nat)
  consider "x = 0" | "x = 1" | "x = 2" using assms by linarith
  then have "48 + nat x = 50 \<and> 48 \<le> 48 + nat y \<and> 48 + nat y \<le> 51 \<or> (48 + nat x = 48 \<or> 48 + nat x = 49) \<and> is_digit (48 + nat y)"
    using assms v by cases (simp_all add: is_digit_def)
  then show ?thesis by (simp only: hour_field_def two_digits_def list.case if_True v option.case prod.case)
qed

lemma minute_field_digits:
  assumes "0 \<le> x" "x \<le> 5" "0 \<le> y" "y \<le> 9"
  shows "minute_field [48 + nat x, 48 + nat y] = Some (10 * x + y)"
proof -
  have v: "digit_value (48 + nat x) = Some x" "digit_value (48 + nat y) = Some y" using assms by (simp_all add: digit_value_nat)
  then have "48 \<le> 48 + nat x \<and> 48 + nat x \<le> 53 \<and> is_digit (48 + nat y)" using assms by (simp add: is_digit_def)
  then show ?thesis by (simp only: minute_field_def two_digits_def list.case if_True v option.case prod.case simp_thms)
qed

lemma strptime_clock_text:
  assumes "0 \<le> m" "m < 1440"
  shows "strptime_clock (clock_text m) = Some m"
proof -
  have m: "m < 6000" using assms by simp
  have r: "0 \<le> m div 60 mod 10" "m div 60 mod 10 \<le> 9" "0 \<le> m mod 60 div 10" "m mod 60 div 10 \<le> 5" "0 \<le> m mod 10" "m mod 10 \<le> 9"
    by (auto simp: pos_imp_zdiv_nonneg_iff)
  have a: "0 \<le> m div 600" using assms by (simp add: pos_imp_zdiv_nonneg_iff)
  have top: "m div 600 \<le> 2" "m div 600 = 2 \<longrightarrow> m div 60 mod 10 \<le> 3"
    using minute_digits [of m] r assms by linarith+
  have "partition_at 58 [48 + nat x, 48 + nat y, 58, 48 + nat z, 48 + nat w] = ([48 + nat x, 48 + nat y], True, [48 + nat z, 48 + nat w])"
    if "x \<le> 9" "y \<le> 9" for x y z w :: int using that by (auto simp: partition_at_def)
  then have "strptime_clock (clock_text m) = Some ((10 * (m div 600) + m div 60 mod 10) * 60 + (10 * (m mod 60 div 10) + m mod 10))"
    unfolding clock_text_digits [OF assms(1) m] strptime_clock_def
    using hour_field_digits [OF a top(1) r(1,2) top(2)] minute_field_digits [OF r(3,4,5,6)] top(1) r(2) by simp
  then show ?thesis using minute_digits [of m] by simp
qed

definition day_range :: "time_range \<Rightarrow> bool" where
  "day_range r \<longleftrightarrow> (\<exists>s e. r = range_text (s, e) \<and> 0 \<le> s \<and> s \<le> 1440 \<and> 0 \<le> e \<and> e \<le> 1440)"

lemma day_rangeI: "0 \<le> s \<Longrightarrow> s \<le> 1440 \<Longrightarrow> 0 \<le> e \<Longrightarrow> e \<le> 1440 \<Longrightarrow> day_range (clock_text s, clock_text e)"
  unfolding day_range_def range_text_def by auto

lemma clock_of_minutes: "0 \<le> t mod days 1 div minutes 1" "t mod days 1 div minutes 1 < 1440"
proof -
  let ?x = "t mod days 1"
  have "0 \<le> ?x" "?x < 60000000 * 1440" by (simp_all add: duration_defs)
  moreover have "60000000 * (?x div 60000000) + ?x mod 60000000 = ?x" "0 \<le> ?x mod 60000000" by simp_all
  ultimately have "?x div 60000000 < 1440" by linarith
  then show "0 \<le> t mod days 1 div minutes 1" "t mod days 1 div minutes 1 < 1440"
    by (simp_all add: duration_defs pos_imp_zdiv_nonneg_iff)
qed

lemma parse_slot_time_range: "parse_slot_time b e = Inr r \<Longrightarrow> day_range r"
proof -
  have t: "u ''24:00'' = clock_text 1440" by (simp add: clock_text_def zpad2_digits u_def)
  assume p: "parse_slot_time b e = Inr r"
  then obtain x y' where s: "strptime_seconds b = Some x" "strptime_seconds e = Some y'" by (auto simp: parse_slot_time_def split: option.split_asm)
  define y where "y = y' + minutes 1"
  have r: "ebind (normalize_time (clock_of x)) (\<lambda>start. ebind (normalize_time (if date_of x < date_of y then clock_text 1440 else clock_of y))
      (\<lambda>fin. Inr (start, fin))) = (Inr r :: collect_error + time_range)"
    using p s by (simp add: parse_slot_time_def t y_def split: if_split_asm)
  have b: "0 \<le> t mod days 1 div minutes 1" "t mod days 1 div minutes 1 < 6000" for t using clock_of_minutes [of t] by simp_all
  show ?thesis using r clock_of_minutes [of x] clock_of_minutes [of y] unfolding clock_of_def
    by (auto simp: normalize_clock [OF b] normalize_clock split: if_split_asm intro!: day_rangeI)
qed

lemma day_range_minutes:
  assumes "list_all day_range rs"
  obtains ms where "rs = map range_text ms" "emap range_to_minutes rs = Inr ms" "list_all (\<lambda>(s, e). 0 \<le> s \<and> e \<le> 1440 \<and> 0 \<le> e \<and> s \<le> 1440) ms"
  using assms
proof (induction rs arbitrary: thesis)
  case (Cons r rs)
  obtain ms where ms: "rs = map range_text ms" "emap range_to_minutes rs = Inr ms" "list_all (\<lambda>(s, e). 0 \<le> s \<and> e \<le> 1440 \<and> 0 \<le> e \<and> s \<le> 1440) ms"
    using Cons.IH Cons.prems(2) by auto
  obtain s e where r: "r = range_text (s, e)" "0 \<le> s" "s \<le> 1440" "0 \<le> e" "e \<le> 1440" using Cons.prems(2) by (auto simp: day_range_def)
  have "range_to_minutes r = Inr (s, e)" using r by (simp add: range_text_def range_to_minutes_def clock_text_read)
  with ms r show ?case by (intro Cons.prems(1) [of "(s, e) # ms"]) auto
qed simp

lemma merged_day_ranges:
  assumes "merge_time_ranges rs = Inr out" "list_all day_range rs"
  shows "list_all day_range out"
proof -
  obtain ms where ms: "emap range_to_minutes rs = Inr ms" "list_all (\<lambda>(s, e). 0 \<le> s \<and> e \<le> 1440 \<and> 0 \<le> e \<and> s \<le> 1440) ms"
    using assms(2) by (rule day_range_minutes)
  show ?thesis
  proof (cases "sort ms")
    case Nil
    with assms(1) ms(1) show ?thesis by (auto simp: merge_time_ranges_def split: if_split_asm)
  next
    case (Cons r rs')
    then have "set ms = set (r # rs')" by (metis set_sort)
    then have "list_all (\<lambda>(s, e). 0 \<le> s \<and> e \<le> 1440 \<and> 0 \<le> e \<and> s \<le> 1440) (r # rs')" using ms(2) unfolding list_all_iff by blast
    then have "list_all (\<lambda>(s, e). 0 \<le> s \<and> e \<le> 1440 \<and> 0 \<le> e \<and> s \<le> 1440) (merge_loop r rs')"
      using merge_loop_bounds [of 0 1440 "fst r" "snd r" rs'] by simp
    moreover have "out = map range_text (merge_loop r rs') \<or> out = []"
      using assms(1) ms(1) Cons by (auto simp: merge_time_ranges_def split: if_split_asm)
    ultimately show ?thesis by (fastforce simp: list_all_iff day_range_def)
  qed
qed

lemma in_dict_append:
  assumes "(k, vs) \<in> set (fold dict_append kvs d)" "distinct (map fst d)"
  shows "\<forall>v \<in> set vs. (k, v) \<in> set kvs \<or> (\<exists>vs'. (k, vs') \<in> set d \<and> v \<in> set vs')"
  using assms
proof (induction kvs arbitrary: d)
  case (Cons kv kvs)
  have d: "distinct (map fst (dict_append kv d))" using Cons.prems(2) by (auto simp: dict_append_def dict_put_keys)
  have "v \<in> set vs' \<longrightarrow> (k = fst kv \<and> v = snd kv) \<or> (\<exists>vs''. (k, vs'') \<in> set d \<and> v \<in> set vs'')" if "(k, vs') \<in> set (dict_append kv d)" for v vs'
    using dict_put_values [OF that [unfolded dict_append_def]] by (auto dest: map_of_SomeD split: option.splits)
  then show ?case using Cons.IH [OF _ d] Cons.prems(1) by (fastforce simp: prod_eq_iff)
qed auto

lemma cell_entry_range: "cell_entry E excluded allowed slot = Some (name, r) \<Longrightarrow> day_range r"
  by (auto simp: cell_entry_def Let_def split: if_split_asm pyval.split_asm sum.split_asm dest: parse_slot_time_range)

lemma parsed_court:
  assumes "parse_availability E json excluded allowed = Inr courts" "(name, rs) \<in> set courts"
  obtains slots cells where "directly_bookable_slots E json = Inr slots" "merge_time_ranges cells = Inr rs"
    "\<And>r. r \<in> set cells \<Longrightarrow> \<exists>slot \<in> set slots. cell_entry E excluded allowed slot = Some (name, r)"
proof -
  obtain slots where slots: "directly_bookable_slots E json = Inr slots"
    and m: "emap merge_court (fold dict_append (List.map_filter (cell_entry E excluded allowed) slots) []) = Inr courts"
    using assms(1) by (auto simp: parse_availability_def ebind_Inr_iff)
  obtain c where c: "c \<in> set (fold dict_append (List.map_filter (cell_entry E excluded allowed) slots) [])" "merge_court c = Inr (name, rs)"
    using emap_set [OF m assms(2)] by blast
  then have mc: "fst c = name" "merge_time_ranges (snd c) = Inr rs" by (auto simp: merge_court_def split: sum.splits)
  have "(name, r) \<in> set (List.map_filter (cell_entry E excluded allowed) slots)" if "r \<in> set (snd c)" for r
    using in_dict_append [of name "snd c" _ "[]"] c(1) mc(1) that by (cases c) auto
  then show ?thesis using that [OF slots mc(2)] by (fastforce simp: map_filter_def)
qed

lemma parsed_ranges:
  assumes "parse_availability E json excluded allowed = Inr courts" "(name, rs) \<in> set courts"
  shows "list_all day_range rs"
proof -
  obtain slots cells where "merge_time_ranges cells = Inr rs"
    "\<And>r. r \<in> set cells \<Longrightarrow> \<exists>slot \<in> set slots. cell_entry E excluded allowed slot = Some (name, r)"
    using assms by (rule parsed_court) blast
  moreover from this(2) have "list_all day_range cells"
    using cell_entry_range by (fastforce simp: list_all_iff)
  ultimately show ?thesis using merged_day_ranges by blast
qed

section \<open>Dates read back\<close>

lemma decimal_digits:
  fixes n :: nat
  shows "n = 1000 * (n div 10 div 10 div 10) + 100 * (n div 10 div 10 mod 10) + 10 * (n div 10 mod 10) + n mod 10"
  using mult_div_mod_eq [of 10 n] mult_div_mod_eq [of 10 "n div 10"] mult_div_mod_eq [of 10 "n div 10 div 10"] by linarith

lemma year_field_dec:
  assumes "1000 \<le> y" "y \<le> 9999"
  shows "year_field (dec y) = Some y" "45 \<notin> set (dec y)"
proof -
  define n where "n = nat y"
  have n: "1000 \<le> n" "n \<le> 9999" "int n = y" using assms by (auto simp: n_def)
  have b: "n mod 10 \<le> 9" "n div 10 mod 10 \<le> 9" "n div 10 div 10 mod 10 \<le> 9" by simp_all
  then have q: "1 \<le> n div 10 div 10 div 10" "n div 10 div 10 div 10 \<le> 9" using decimal_digits [of n] n by linarith+
  then have "10 \<le> n div 10 div 10" "10 \<le> n div 10" "10 \<le> n" by (simp_all add: div_greater_zero_iff Suc_le_eq)
  then have d: "dec y = [48 + n div 10 div 10 div 10, 48 + n div 10 div 10 mod 10, 48 + n div 10 mod 10, 48 + n mod 10]"
    using q assms by (simp add: dec_def n_def [symmetric] dec_nat.simps [of n] dec_nat.simps [of "n div 10"] dec_nat.simps [of "n div 10 div 10"] dec_nat.simps [of "n div 10 div 10 div 10"])
  have v: "digit_value (48 + k) = Some (int k)" if "k \<le> 9" for k using that by (subst digit_value_ascii) auto
  have "1000 * int (n div 10 div 10 div 10) + 100 * int (n div 10 div 10 mod 10) + 10 * int (n div 10 mod 10) + int (n mod 10) = y"
    using decimal_digits [of n] n(3) by linarith
  then show "year_field (dec y) = Some y" unfolding year_field_def d by (simp add: v [OF q(2)] v [OF b(1)] v [OF b(2)] v [OF b(3)])
  show "45 \<notin> set (dec y)" unfolding d using q b by simp
qed

lemma day_field_digits:
  assumes "0 \<le> x" "x \<le> 3" "0 \<le> y" "y \<le> 9" "x = 0 \<longrightarrow> 1 \<le> y" "x = 3 \<longrightarrow> y \<le> 1"
  shows "day_field [48 + nat x, 48 + nat y] = Some (10 * x + y)"
proof -
  have v: "digit_value (48 + nat x) = Some x" "digit_value (48 + nat y) = Some y" using assms by (simp_all add: digit_value_nat)
  have n: "48 + nat x \<noteq> 32" by simp
  consider "x = 0" | "x = 1" | "x = 2" | "x = 3" using assms by linarith
  then have "48 + nat x = 51 \<and> 48 \<le> 48 + nat y \<and> 48 + nat y \<le> 49 \<or> (48 + nat x = 49 \<or> 48 + nat x = 50) \<and> is_digit (48 + nat y)
      \<or> 48 + nat x = 48 \<and> 49 \<le> 48 + nat y \<and> 48 + nat y \<le> 57"
    using assms v by cases (simp_all add: is_digit_def le_nat_iff nat_le_iff)
  then show ?thesis by (simp only: day_field_def two_digits_def list.case if_True if_False n v option.case prod.case)
qed

lemma day_field_zpad:
  assumes "1 \<le> k" "k \<le> 31"
  shows "day_field (zpad 2 k) = Some k"
proof -
  have k: "k = 10 * (k div 10) + k mod 10" "0 \<le> k mod 10" "k mod 10 \<le> 9" by simp_all
  then have r: "0 \<le> k div 10" "k div 10 \<le> 3" "k div 10 = 0 \<longrightarrow> 1 \<le> k mod 10" "k div 10 = 3 \<longrightarrow> k mod 10 \<le> 1" using assms by linarith+
  have "zpad 2 k = [48 + nat (k div 10), 48 + nat (k mod 10)]" using assms by (simp add: zpad2_digits nat_div_distrib nat_mod_distrib)
  then show ?thesis using day_field_digits [OF r(1,2) k(2,3) r(3,4)] k(1) by simp
qed

lemma month_field_zpad:
  assumes "1 \<le> m" "m \<le> 12"
  shows "month_field (zpad 2 m) = Some m"
proof -
  have k: "m = 10 * (m div 10) + m mod 10" "0 \<le> m mod 10" "m mod 10 \<le> 9" by simp_all
  then have r: "m div 10 = 0 \<and> 1 \<le> m mod 10 \<or> m div 10 = 1 \<and> m mod 10 \<le> 2" using assms by linarith
  have z: "zpad 2 m = [48 + nat (m div 10), 48 + nat (m mod 10)]" using assms by (simp add: zpad2_digits nat_div_distrib nat_mod_distrib)
  have v: "digit_value (48 + nat (m div 10)) = Some (m div 10)" "digit_value (48 + nat (m mod 10)) = Some (m mod 10)"
    using r k by (auto intro!: digit_value_nat)
  have "48 + nat (m div 10) = 49 \<and> 48 \<le> 48 + nat (m mod 10) \<and> 48 + nat (m mod 10) \<le> 50
      \<or> 48 + nat (m div 10) = 48 \<and> 49 \<le> 48 + nat (m mod 10) \<and> 48 + nat (m mod 10) \<le> 57"
    using r k by (auto simp: nat_le_iff)
  then show ?thesis unfolding z using k(1) by (simp only: month_field_def two_digits_def list.case if_True v option.case prod.case)
qed

text \<open>The month and day of a date read in some year, and a date read back.\<close>

lemma dated_text_read:
  assumes "civil_of_day d = (y', m, k)" "1000 \<le> y" "y \<le> 9999"
  shows "strptime_date (dec y @ u ''-'' @ month_day d) = make_date y m k"
proof -
  have mk: "1 \<le> m" "m \<le> 12" "1 \<le> k" "k \<le> 31" using civil_of_day_md [OF assms(1)] by simp_all
  have "45 \<notin> set (zpad 2 m)" using zpad_digits [of m 45 2] mk by auto
  then have "partition_at 45 (zpad 2 m @ 45 # zpad 2 k) = (zpad 2 m, True, zpad 2 k)"
    by (simp only: partition_at_def) (subst takeWhile_append2 dropWhile_append2; auto)+
  moreover have "partition_at 45 (dec y @ 45 # zpad 2 m @ 45 # zpad 2 k) = (dec y, True, zpad 2 m @ 45 # zpad 2 k)"
    using year_field_dec(2) [OF assms(2,3)] by (simp only: partition_at_def) (subst takeWhile_append2 dropWhile_append2; auto)+
  ultimately show ?thesis
    by (simp add: strptime_date_def month_day_def assms(1) u_def date_fields_def year_field_dec(1) [OF assms(2,3)] month_field_zpad [OF mk(1,2)]
        day_field_zpad [OF mk(3,4)])
qed

lemma isoformat_year:
  assumes "civil_of_day d = (y, m, k)" "1000 \<le> y" "y \<le> 9999"
  shows "isoformat d = dec y @ u ''-'' @ month_day d"
proof -
  have "length (dec y) = 4" using year_field_dec(1) [OF assms(2,3)] by (auto simp: year_field_def split: list.split_asm option.split_asm)
  then show ?thesis by (simp add: isoformat_def month_day_def assms(1) zpad_def)
qed

lemma isoformat_read:
  assumes "strptime_date (isoformat d) = Some d'" "1000 \<le> fst (civil_of_day d)" "fst (civil_of_day d) \<le> 9999"
  shows "d' = d"
proof -
  obtain y m k where c: "civil_of_day d = (y, m, k)" by (metis prod_cases3)
  then have y: "1000 \<le> y" "y \<le> 9999" using assms by simp_all
  have "make_date y m k = Some d'" using assms(1) unfolding isoformat_year [OF c y] dated_text_read [OF c y] .
  then show ?thesis using day_of_civil_of_day [of d] c by (auto simp: make_date_def split: if_split_asm)
qed

lemma line_weekday_read:
  assumes "line_weekday y (month_day d) = Inr wd" "civil_of_day d = (y', m, k)" "1000 \<le> y" "y \<le> 9999"
  shows "wd = isoweekday (day_of_civil y m k) - 1"
  using assms(1) unfolding line_weekday_def dated_text_read [OF assms(2,3,4)] by (auto simp: make_date_def split: if_split_asm)

end
