(* ===== verification/CollectorRuns.thy ===== *)
theory CollectorRuns
  imports CollectorLaws
begin

text \<open>
  Properties of the runs of the collector: a digest is understood by the host, and a line is announced
  once.
\<close>

section \<open>A run announces only what the host accepts\<close>

lemma clock_text_inj: "0 \<le> a \<Longrightarrow> a < 6000 \<Longrightarrow> 0 \<le> b \<Longrightarrow> b < 6000 \<Longrightarrow> clock_text a = clock_text b \<Longrightarrow> a = b"
  using clock_text_less [of a b] clock_text_less [of b a] by (cases a b rule: linorder_cases) auto

lemma midnight_text: "u ''24:00'' = clock_text 1440"
  by (simp add: clock_text_def zpad2_digits u_def)

lemma no_clock_at_midnight: "strptime_clock (clock_text 1440) = None"
  unfolding midnight_text [symmetric] by (simp add: py_eval partition_at_def u_def)

text \<open>The ranges a run announces for a day: at least an hour, reaching into the evening, which starts earlier at the weekend.\<close>

definition worth_announcing :: "pydate \<Rightarrow> int \<Rightarrow> int \<Rightarrow> bool" where
  "worth_announcing d s e \<longleftrightarrow> 0 \<le> s \<and> s + 60 \<le> e \<and> e \<le> 24 * 60 \<and> s < 22 * 60 \<and> (if isoweekday d \<le> 5 then 18 else 16) * 60 < e"

lemma announced_range_worth:
  assumes "announced_range d r = Inr True" "day_range r"
  shows "\<exists>s e. r = range_text (s, e) \<and> worth_announcing d s e"
proof -
  obtain s e where r: "r = range_text (s, e)" "0 \<le> s" "s \<le> 1440" "0 \<le> e" "e \<le> 1440" using assms(2) by (auto simp: day_range_def)
  have s: "s < 1440" using assms(1) r by (cases "s = 1440") (auto simp: announced_range_def range_text_def no_clock_at_midnight)
  have "parse_end_time_for_duration (clock_text e) = Some e \<and> parse_end_time_for_overlap (clock_text e) = Some (if e = 1440 then 1320 else e)"
  proof (cases "e = 1440")
    case False
    then have "clock_text e \<noteq> clock_text 1440" using clock_text_inj [of e 1440] r by auto
    then show ?thesis using False r by (simp add: parse_end_time_for_duration_def parse_end_time_for_overlap_def midnight_text strptime_clock_text)
  qed (simp add: parse_end_time_for_duration_def parse_end_time_for_overlap_def midnight_text)
  then have "s + 60 \<le> e" "max s (target_start d) < min (if e = 1440 then 1320 else e) target_end"
    using assms(1) r s by (auto simp: announced_range_def range_text_def strptime_clock_text split: if_split_asm)
  then have "worth_announcing d s e" using r by (auto simp: worth_announcing_def target_start_def target_end_def split: if_split_asm)
  then show ?thesis using r(1) by blast
qed

lemma emap_zip: "emap f xs = Inr ys \<Longrightarrow> (x, y) \<in> set (zip xs ys) \<Longrightarrow> f x = Inr y \<and> x \<in> set xs"
  by (induction xs arbitrary: ys) (auto simp: ebind_Inr_iff)

lemma announced_ranges_worth:
  assumes "announced_ranges d rs = Inr out" "list_all day_range rs" "r \<in> set out"
  shows "r \<in> set rs \<and> (\<exists>s e. r = range_text (s, e) \<and> worth_announcing d s e)"
proof -
  obtain bs where bs: "emap (announced_range d) rs = Inr bs" "out = map fst (filter snd (zip rs bs))"
    using assms(1) by (auto simp: announced_ranges_def ebind_Inr_iff)
  have "(r, True) \<in> set (zip rs bs)" using assms(3) bs(2) by auto
  then show ?thesis using announced_range_worth emap_zip [OF bs(1)] assms(2) unfolding list_all_iff by blast
qed

lemma somes_set [simp]: "x \<in> set (somes xs) \<longleftrightarrow> Some x \<in> set xs"
  by (force simp: somes_def map_filter_def)

lemma notified_court:
  assumes "filter_court_data_for_notification venue date courts = Inr ns" "n \<in> set ns"
  obtains d name rs out where "strptime_date date = Some d" "(name, rs) \<in> set courts" "announced_ranges d rs = Inr out"
    "n = \<lparr>nc_date = month_day d, nc_court_name = pv_venue_name venue @ name, nc_free_slots = out\<rparr>" "strip name \<noteq> []"
proof -
  obtain d xs where d: "strptime_date date = Some d" and xs: "emap (notify_court venue d) courts = Inr xs" "ns = somes xs"
    using assms(1) by (auto simp: filter_court_data_for_notification_def ebind_Inr_iff split: option.split_asm)
  obtain c where c: "c \<in> set courts" "notify_court venue d c = Inr (Some n)" using emap_set [OF xs(1), of "Some n"] assms(2) xs(2) by (metis somes_set)
  then show ?thesis using that [OF d, of "fst c" "snd c"]
    by (auto simp: notify_court_def ebind_Inr_iff is_standard_tennis_court_def Let_def split: if_split_asm)
qed

lemma notified_announceable:
  assumes "filter_court_data_for_notification venue date courts = Inr ns" "list_all (\<lambda>(name, rs). unbroken name \<and> list_all day_range rs) courts"
    "unbroken (pv_venue_name venue)"
  shows "list_all announceable ns"
  unfolding list_all_iff
proof
  fix n assume "n \<in> set ns"
  with assms(1) obtain d name rs out where n: "(name, rs) \<in> set courts" "announced_ranges d rs = Inr out"
    "n = \<lparr>nc_date = month_day d, nc_court_name = pv_venue_name venue @ name, nc_free_slots = out\<rparr>" by (rule notified_court)
  have ok: "unbroken name" "list_all day_range rs" using assms(2) n(1) by (auto simp: list_all_iff)
  show "announceable n" using announced_ranges_worth [OF n(2) ok(2)] ok(1) assms(3)
    unfolding n(3) announceable_def by (fastforce simp: unbroken_def list_all_iff worth_announcing_def)
qed

text \<open>
  The range is in the observation of the run, where a range that ends at midnight ends a minute earlier, and
  a court that a run announces comes from one day of it.
\<close>

definition published_range :: "web_slot list \<Rightarrow> pydate \<Rightarrow> pystr \<Rightarrow> int \<Rightarrow> int \<Rightarrow> bool" where
  "published_range slots d court s e \<longleftrightarrow>
     \<lparr>ws_date = isoformat d, ws_court_name = strip court, ws_start_time = clock_text s, ws_end_time = clock_text (min e 1439)\<rparr> \<in> set slots"

definition swept_on :: "pospal_venue \<Rightarrow> pydate \<Rightarrow> web_slot list \<Rightarrow> notification_court \<Rightarrow> bool" where
  "swept_on venue d slots nc \<longleftrightarrow> nc_date nc = month_day d \<and> (\<exists>court. nc_court_name nc = pv_venue_name venue @ court \<and> strip court \<noteq> []
     \<and> list_all (\<lambda>r. \<exists>s e. r = range_text (s, e) \<and> worth_announcing d s e \<and> published_range slots d court s e) (nc_free_slots nc))"

lemma flattened_range:
  assumes "range_text (s, e) \<in> set rs" "(name, rs) \<in> set courts" "strip name \<noteq> []" "0 \<le> s" "s < 1440" "0 \<le> e" "e \<le> 1440"
  shows "published_range (flatten_court_slots (isoformat d) courts) d name s e"
proof -
  have shape: "strip (clock_text m) = clock_text m \<and> length (clock_text m) = 5" if m: "0 \<le> m" "m < 6000" for m
  proof -
    obtain a b c x where "clock_text m = [a, b, 58, c, x]" "is_ascii_digit a" "is_ascii_digit x" using m by (rule clock_text_shape)
    then show ?thesis by (auto intro!: strip_fixed simp: is_ascii_digit_def is_space_def)
  qed
  have last_minute: "u ''23:59'' = clock_text 1439" by (simp add: clock_text_def zpad2_digits u_def)
  have "e = 1440 \<or> e \<le> 1439 \<and> clock_text e \<noteq> clock_text 1440" using assms clock_text_inj [of e 1440] by force
  then have "flatten_range (isoformat d) (strip name) (range_text (s, e))
     = Some \<lparr>ws_date = isoformat d, ws_court_name = strip name, ws_start_time = clock_text s, ws_end_time = clock_text (min e 1439)\<rparr>"
    using shape [of s] shape [of e] shape [of 1439] shape [of 1440] assms
    by (elim disjE) (simp_all add: flatten_range_def range_text_def Let_def midnight_text last_minute min_def)
  then show ?thesis using assms(1,2,3)
    by (force simp: published_range_def flatten_court_slots_def map_filter_def)
qed

lemma notified_swept_on:
  assumes "filter_court_data_for_notification venue (isoformat d) courts = Inr ns" "list_all (\<lambda>(name, rs). list_all day_range rs) courts"
    "1000 \<le> fst (civil_of_day d)" "fst (civil_of_day d) \<le> 9999"
  shows "list_all (swept_on venue d (flatten_court_slots (isoformat d) courts)) ns"
  unfolding list_all_iff
proof
  fix n assume "n \<in> set ns"
  with assms(1) obtain d' name rs out where n: "strptime_date (isoformat d) = Some d'" "(name, rs) \<in> set courts" "announced_ranges d' rs = Inr out"
    "n = \<lparr>nc_date = month_day d', nc_court_name = pv_venue_name venue @ name, nc_free_slots = out\<rparr>" "strip name \<noteq> []" by (rule notified_court)
  have d: "d' = d" using n(1) assms(3,4) by (rule isoformat_read)
  have "\<exists>s e. r = range_text (s, e) \<and> worth_announcing d s e \<and> published_range (flatten_court_slots (isoformat d) courts) d name s e" if mem: "r \<in> set out" for r
  proof -
    have "list_all day_range rs" using assms(2) n(2) by (auto simp: list_all_iff)
    then obtain s e where r: "r = range_text (s, e)" "r \<in> set rs" "worth_announcing d s e" using announced_ranges_worth [OF n(3) _ mem] unfolding d by blast
    then have "published_range (flatten_court_slots (isoformat d) courts) d name s e"
      by (intro flattened_range [OF _ n(2,5)]) (auto simp: worth_announcing_def)
    then show ?thesis using r by blast
  qed
  then show "swept_on venue d (flatten_court_slots (isoformat d) courts) n" unfolding n(4) d using n(5) by (auto simp: swept_on_def list_all_iff)
qed

text \<open>What the run relies on: no name of a court in an answer holds a line break.\<close>

definition single_line_names :: "pyenv \<Rightarrow> pospal_venue \<Rightarrow> (pystr \<Rightarrow> pystr option \<Rightarrow> http_reply) \<Rightarrow> bool" where
  "single_line_names E venue ask \<longleftrightarrow> (\<forall>date proxy v courts name rs. request_availability venue (ask date proxy) = Candidate v \<longrightarrow>
     parse_availability E v (pv_excluded_court_tokens venue) (pv_allowed_court_numbers venue) = Inr courts \<longrightarrow>
     (name, rs) \<in> set courts \<longrightarrow> unbroken name)"

lemma try_proxies_candidate:
  "try_proxies E venue ask ps cache = (cache', Inr v) \<Longrightarrow> \<exists>p. request_availability venue (ask p) = Candidate v"
  by (induction ps arbitrary: cache) (auto split: request_result.split_asm)

lemma find_answer_candidate:
  "find_answer E venue ask shuffle proxies cache = (cache', Inr v) \<Longrightarrow> \<exists>p. request_availability venue (ask p) = Candidate v"
  by (auto simp: find_answer_def Let_def split: if_split_asm request_result.split_asm dest: try_proxies_candidate)

lemma swept_announceable:
  assumes "single_line_names E venue ask" "unbroken (pv_venue_name venue)" "list_all announceable (sw_courts (snd st))"
  shows "list_all announceable (sw_courts (snd (sweep_date E error_text venue ask shuffle proxies d st)))"
proof -
  obtain cache answer where g: "get_tennis_court_availability E venue (ask (isoformat d)) shuffle proxies (fst st) = (cache, answer)" by fastforce
  show ?thesis
  proof (cases answer)
    case (Inr courts)
    obtain v where v: "find_answer E venue (ask (isoformat d)) shuffle proxies (fst st) = (cache, Inr v)"
      "parse_availability E v (pv_excluded_court_tokens venue) (pv_allowed_court_numbers venue) = Inr courts"
      using g Inr by (auto simp: get_tennis_court_availability_def ebind_Inr_iff split: prod.split_asm)
    then have ok: "list_all (\<lambda>(name, rs). unbroken name \<and> list_all day_range rs) courts"
      using find_answer_candidate [OF v(1)] assms(1) parsed_ranges [OF v(2)] by (force simp: list_all_iff single_line_names_def)
    have "list_all announceable ns" if "filter_court_data_for_notification venue (isoformat d) courts = Inr ns" for ns
      using that ok assms(2) by (rule notified_announceable)
    then show ?thesis using g Inr assms(3) by (auto simp: sweep_date_def Let_def ebind_Inr_iff split: sum.split)
  qed (use g assms(3) in \<open>auto simp: sweep_date_def Let_def split: collect_error.split\<close>)
qed

lemma sweep_announceable:
  assumes "single_line_names E venue ask" "unbroken (pv_venue_name venue)"
  shows "list_all announceable (sw_courts (snd (sweep_days E error_text venue ask shuffle proxies today cache)))"
proof -
  have "list_all announceable (sw_courts (snd (fold (\<lambda>i. sweep_date E error_text venue ask shuffle proxies (today i + int i)) is st)))"
    if "list_all announceable (sw_courts (snd st))" for "is" st
    using that by (induction "is" arbitrary: st) (simp_all add: swept_announceable [OF assms])
  then show ?thesis unfolding sweep_days_def by (simp add: empty_sweep_def)
qed

lemma swept_on_mono: "swept_on venue d slots nc \<Longrightarrow> set slots \<subseteq> set slots' \<Longrightarrow> swept_on venue d slots' nc"
  by (fastforce simp: swept_on_def published_range_def list_all_iff)

lemma sweep_date_adds:
  assumes "1000 \<le> fst (civil_of_day d)" "fst (civil_of_day d) \<le> 9999"
  shows "\<exists>extra ns. sw_slots (snd (sweep_date E error_text venue ask shuffle proxies d st)) = sw_slots (snd st) @ extra
    \<and> sw_courts (snd (sweep_date E error_text venue ask shuffle proxies d st)) = sw_courts (snd st) @ ns \<and> list_all (swept_on venue d extra) ns"
proof -
  obtain cache answer where g: "get_tennis_court_availability E venue (ask (isoformat d)) shuffle proxies (fst st) = (cache, answer)" by fastforce
  show ?thesis
  proof (cases answer)
    case (Inr courts)
    then obtain v where "parse_availability E v (pv_excluded_court_tokens venue) (pv_allowed_court_numbers venue) = Inr courts"
      using g by (auto simp: get_tennis_court_availability_def ebind_Inr_iff split: prod.split_asm)
    then have "list_all (\<lambda>(name, rs). list_all day_range rs) courts" using parsed_ranges by (fastforce simp: list_all_iff)
    then have "list_all (swept_on venue d (flatten_court_slots (isoformat d) courts)) ns"
      if "filter_court_data_for_notification venue (isoformat d) courts = Inr ns" for ns using that assms by (intro notified_swept_on)
    then show ?thesis using g Inr by (auto simp: sweep_date_def Let_def ebind_Inr_iff split: sum.split)
  qed (use g in \<open>auto simp: sweep_date_def Let_def split: collect_error.split\<close>)
qed

lemma sweep_days_from:
  assumes "\<forall>i < pv_lookahead_days venue. 1000 \<le> fst (civil_of_day (today i + int i)) \<and> fst (civil_of_day (today i + int i)) \<le> 9999"
    and "w = snd (sweep_days E error_text venue ask shuffle proxies today cache)"
  shows "list_all (\<lambda>nc. \<exists>i < pv_lookahead_days venue. swept_on venue (today i + int i) (sw_slots w) nc) (sw_courts w)"
proof -
  define ok where "ok w \<longleftrightarrow> list_all (\<lambda>nc. \<exists>i < pv_lookahead_days venue. swept_on venue (today i + int i) (sw_slots w) nc) (sw_courts w)" for w :: sweep
  have step: "ok (snd (sweep_date E error_text venue ask shuffle proxies (today i + int i) st))" if ok: "ok (snd st)" and i: "i < pv_lookahead_days venue" for i st
  proof -
    obtain extra ns where a: "sw_slots (snd (sweep_date E error_text venue ask shuffle proxies (today i + int i) st)) = sw_slots (snd st) @ extra"
      "sw_courts (snd (sweep_date E error_text venue ask shuffle proxies (today i + int i) st)) = sw_courts (snd st) @ ns"
      "list_all (swept_on venue (today i + int i) extra) ns" using sweep_date_adds assms(1) i by blast
    have "\<exists>i < pv_lookahead_days venue. swept_on venue (today i + int i) (sw_slots (snd st) @ extra) nc" if "nc \<in> set (sw_courts (snd st)) \<or> nc \<in> set ns" for nc
      using that ok a(3) i swept_on_mono [of venue _ "sw_slots (snd st)" nc "sw_slots (snd st) @ extra"] swept_on_mono [of venue _ extra nc "sw_slots (snd st) @ extra"]
      unfolding ok_def list_all_iff by fastforce
    then show ?thesis unfolding ok_def a(1,2) list_all_iff by auto
  qed
  have "ok (snd (fold (\<lambda>i. sweep_date E error_text venue ask shuffle proxies (today i + int i)) is st))"
    if "ok (snd st)" "set is \<subseteq> {..<pv_lookahead_days venue}" for "is" st
    using that by (induction "is" arbitrary: st) (simp_all add: step)
  moreover have "ok empty_sweep" by (simp add: ok_def empty_sweep_def)
  ultimately have "ok w" unfolding assms(2) sweep_days_def by (simp add: atLeast0LessThan)
  then show ?thesis unfolding ok_def .
qed

text \<open>The year the lines of a run are built in, the day it asks for in the turn of day \<open>i\<close>, and what its days add up to.\<close>

abbreviation run_year :: "run_world \<Rightarrow> int" where
  "run_year world \<equiv> fst (civil_of_day (date_of (rw_built world)))"

abbreviation asked_day :: "run_world \<Rightarrow> nat \<Rightarrow> pydate" where
  "asked_day world i \<equiv> date_of (rw_clock world i) + int i"

abbreviation run_sweep :: "pyenv \<Rightarrow> (collect_error \<Rightarrow> pystr) \<Rightarrow> pospal_venue \<Rightarrow> run_world \<Rightarrow> collector_vars \<Rightarrow> sweep" where
  "run_sweep E error_text venue world vars \<equiv> snd (sweep_days E error_text venue (rw_ask world) (rw_shuffle world) (rw_proxies world)
     (\<lambda>i. date_of (rw_clock world i)) (cv_proxies vars))"

text \<open>What a run that gets past the opening hours does with the lines it stores.\<close>

lemma announce_outcome:
  assumes "announce E venue world w vars = Inr (vars', lines, message, released)"
  shows "lines = [] \<and> message = None \<and> released = None \<and> cv_messages vars' = cv_messages vars
    \<or> build_new_notifications (sw_courts w) (as_str_list E (cv_messages vars)) (run_year world) = Inr lines \<and> lines \<noteq> []
      \<and> (message = None \<and> released = None \<or> message = Some (join [10] lines) \<and> released = enqueue_wechat_message E venue world (join [10] lines))
      \<and> cv_messages vars' = cv_messages (release_own E venue released
          (vars\<lparr>cv_messages := str_list_value (last_items (pv_max_cached_messages venue) (as_str_list E (cv_messages vars) @ lines))\<rparr>))"
proof (cases "sw_courts w = [] \<or> build_new_notifications (sw_courts w) (as_str_list E (cv_messages vars)) (run_year world) = Inr []")
  case True
  then show ?thesis using assms by (auto simp: announce_def Let_def split: if_split_asm)
next
  case False
  then show ?thesis using assms by (auto simp: announce_def Let_def ebind_Inr_iff split: if_split_asm)
qed

lemma run_check_sweep:
  assumes "run_check E error_text venue world vars = (vars', eff, err)"
  obtains (quiet) "re_lines eff = []" "re_message eff = None" "re_released eff = None" "cv_messages vars' = cv_messages vars"
  | (lines) w where "w = run_sweep E error_text venue world vars" "re_slots eff = sw_slots w"
      "build_new_notifications (sw_courts w) (as_str_list E (cv_messages vars)) (run_year world) = Inr (re_lines eff)" "re_lines eff \<noteq> []"
      "re_message eff = None \<and> re_released eff = None
       \<or> re_message eff = Some (join [10] (re_lines eff)) \<and> re_released eff = enqueue_wechat_message E venue world (join [10] (re_lines eff))"
      "cv_messages vars' = cv_messages (release_own E venue (re_released eff)
         (vars\<lparr>cv_messages := str_list_value (last_items (pv_max_cached_messages venue) (as_str_list E (cv_messages vars) @ re_lines eff))\<rparr>))"
proof (cases "inspection_closed (rw_now world)")
  case True
  then show ?thesis using assms(1) quiet by (auto simp: run_check_def)
next
  case False
  obtain cache w where w: "sweep_days E error_text venue (rw_ask world) (rw_shuffle world) (rw_proxies world) (\<lambda>i. date_of (rw_clock world i)) (cv_proxies vars) = (cache, w)" by fastforce
  let ?vars = "vars\<lparr>cv_proxies := cache\<rparr>"
  show ?thesis
  proof (cases "announce E venue world w ?vars")
    case (Inl e)
    then show ?thesis using assms(1) False w quiet by (auto simp: run_check_def Let_def)
  next
    case (Inr r)
    then have a: "announce E venue world w ?vars = Inr (vars', re_lines eff, re_message eff, re_released eff)" and slots: "re_slots eff = sw_slots w"
      using assms(1) False w by (cases r; auto simp: run_check_def Let_def)+
    have rel: "cv_messages (release_own E venue rel (?vars\<lparr>cv_messages := m\<rparr>)) = cv_messages (release_own E venue rel (vars\<lparr>cv_messages := m\<rparr>))" for rel m
      by (simp add: release_own_def release_stored_def split: option.split)
    from announce_outcome [OF a] show ?thesis using quiet lines [OF _ slots] w rel by auto
  qed
qed

lemma run_check_outcome:
  assumes "run_check E error_text venue world vars = (vars', eff, err)" "single_line_names E venue (rw_ask world)" "unbroken (pv_venue_name venue)"
  obtains (quiet) "re_lines eff = []" "re_message eff = None" "re_released eff = None" "cv_messages vars' = cv_messages vars"
  | (lines) courts year where "build_new_notifications courts (as_str_list E (cv_messages vars)) year = Inr (re_lines eff)" "re_lines eff \<noteq> []"
      "list_all announceable courts"
      "re_message eff = None \<and> re_released eff = None
       \<or> re_message eff = Some (join [10] (re_lines eff)) \<and> re_released eff = enqueue_wechat_message E venue world (join [10] (re_lines eff))"
      "cv_messages vars' = cv_messages (release_own E venue (re_released eff)
         (vars\<lparr>cv_messages := str_list_value (last_items (pv_max_cached_messages venue) (as_str_list E (cv_messages vars) @ re_lines eff))\<rparr>))"
  using assms(1)
proof (cases rule: run_check_sweep)
  case (lines w)
  then show ?thesis using that(2) sweep_announceable [OF assms(2,3)] by blast
qed (rule that(1))

text \<open>Where a line of a run comes from: a day the run asked for, a court of the venue and a range it published.\<close>

definition dated_run :: "pospal_venue \<Rightarrow> run_world \<Rightarrow> bool" where
  "dated_run venue world \<longleftrightarrow> (\<forall>i < pv_lookahead_days venue. 1000 \<le> fst (civil_of_day (asked_day world i)) \<and> fst (civil_of_day (asked_day world i)) \<le> 9999)"

lemma run_line_origin:
  assumes "run_check E error_text venue world vars = (vars', eff, err)" "dated_run venue world" "l \<in> set (re_lines eff)"
  obtains i court wd s e where "i < pv_lookahead_days venue" "strip court \<noteq> []" "line_weekday (run_year world) (month_day (asked_day world i)) = Inr wd"
    "l = notification_line (pv_venue_name venue @ court) wd (month_day (asked_day world i)) (clock_text s, clock_text e)"
    "worth_announcing (asked_day world i) s e" "published_range (re_slots eff) (asked_day world i) court s e"
  using assms(1)
proof (cases rule: run_check_sweep)
  case (lines w)
  obtain c wd r where c: "c \<in> set (sw_courts w)" "line_weekday (run_year world) (nc_date c) = Inr wd" "r \<in> set (nc_free_slots c)"
    "l = notification_line (nc_court_name c) wd (nc_date c) r" using lines(3) assms(3) by (rule built_line_from)
  then obtain i where i: "i < pv_lookahead_days venue" "swept_on venue (asked_day world i) (re_slots eff) c"
    using sweep_days_from [OF assms(2) [unfolded dated_run_def] lines(1)] unfolding lines(2) list_all_iff by blast
  then obtain court s e where "nc_date c = month_day (asked_day world i)" "nc_court_name c = pv_venue_name venue @ court" "strip court \<noteq> []" "r = range_text (s, e)"
    "worth_announcing (asked_day world i) s e" "published_range (re_slots eff) (asked_day world i) court s e"
    using c(3) unfolding swept_on_def list_all_iff by blast
  then show ?thesis using that i(1) c(2,4) by (simp add: range_text_def)
qed (use assms(3) in simp)

lemma built_new:
  assumes "build_new_notifications courts sended year = Inr new" "l \<in> set new"
  shows "l \<notin> set sended \<and> strip l \<noteq> []"
  using assms
proof (induction courts arbitrary: new)
  case (Cons c cs)
  have "strip (notification_line a b c r) \<noteq> []" for a b c r
    unfolding notification_line_def by (simp add: strip_Cons_nonblank is_space_def)
  then show ?case using Cons by (auto simp: ebind_Inr_iff)
qed simp

lemma announced_line:
  assumes "build_new_notifications courts sended year = Inr new" "list_all announceable courts" "l \<in> set new"
  shows "unbroken l" "strip l = l"
    "\<exists>dl s e. line_match l = Some dl \<and> dl_start dl = clock_text s \<and> dl_end dl = clock_text e \<and> 0 \<le> s \<and> s + 60 \<le> e \<and> e \<le> 1440"
proof -
  obtain court wd n s e where l: "l = notification_line court wd (month_day n) (clock_text s, clock_text e)" and a: "court \<noteq> []"
    "list_all (\<lambda>x. \<not> is_line_break x) court" "0 \<le> wd" "wd \<le> 6" "0 \<le> s" "s + 60 \<le> e" "e \<le> 1440" using assms by (rule built_lines)
  have r: "s < 6000" "0 \<le> e" "e < 6000" using a by simp_all
  have "10 \<notin> set court" using a(2) by (auto simp: list_all_iff is_line_break_def)
  from notification_line_match [OF a(1) this a(3,4) refl a(5) r(1) r(2,3)] a
  show "\<exists>dl s e. line_match l = Some dl \<and> dl_start dl = clock_text s \<and> dl_end dl = clock_text e \<and> 0 \<le> s \<and> s + 60 \<le> e \<and> e \<le> 1440"
    unfolding l by fastforce
  show "unbroken l" "strip l = l" unfolding l by (rule line_no_break [OF a(2,3,4,5) r(1) r(2,3)])+
qed

lemma built_digest_lines:
  assumes "build_new_notifications courts sended year = Inr new" "list_all announceable courts"
  shows "splitlines (join [10] new) = new"
  using announced_line(1) [OF assms] by (intro splitlines_join) (simp add: list_all_iff)

section \<open>A run on one free court\<close>

text \<open>A run on New Year's Eve that finds one court free on New Year's Day.\<close>

definition demo_answer :: pyval where
  "demo_answer = PDict [(u ''successed'', PBool True), (u ''status'', PStr (u ''success'')),
     (u ''result'', PDict [(u ''slots'', PList [PDict [(u ''classRoomName'', PStr [49, 21495]), (u ''beginDatetime'', PStr (u ''1970-01-01 19:00:00'')),
        (u ''endDatetime'', PStr (u ''1970-01-01 20:59:00'')), (u ''apptInfo'', PDict [(u ''canApptOrNot'', PBool True)])]])])]"

definition demo_ask :: "pystr \<Rightarrow> pystr option \<Rightarrow> http_reply" where
  "demo_ask date proxy = (if date = u ''1970-01-01'' then HttpReply 200 (Some demo_answer) else HttpRaises)"

definition demo_vars :: collector_vars where
  "demo_vars = \<lparr>cv_proxies = PNone, cv_messages = PNone, cv_baseline = PNone\<rparr>"



lemma demo_make_date: "make_date 1970 1 1 = Some 0"
  by code_simp

lemma demo_date: "strptime_date (u ''1970-01-01'') = Some 0"
  using demo_make_date by (simp add: py_eval partition_at_def u_def digit_value_ascii)

lemma demo_cell_times:
  "strptime_seconds (u ''1970-01-01 19:00:00'') = Some (19 * hours 1)"
  "strptime_seconds (u ''1970-01-01 20:59:00'') = Some (20 * hours 1 + 59 * minutes 1)"
  using demo_make_date by (simp_all add: py_eval partition_at_def u_def digit_value_ascii)

definition demo_cell :: jdict where
  "demo_cell = [(u ''classRoomName'', PStr [49, 21495]), (u ''beginDatetime'', PStr (u ''1970-01-01 19:00:00'')),
        (u ''endDatetime'', PStr (u ''1970-01-01 20:59:00'')), (u ''apptInfo'', PDict [(u ''canApptOrNot'', PBool True)])]"

lemma demo_cell_fields: "dget demo_cell (u ''classRoomName'') = PStr [49, 21495]" "dget demo_cell (u ''beginDatetime'') = PStr (u ''1970-01-01 19:00:00'')"
   "dget demo_cell (u ''endDatetime'') = PStr (u ''1970-01-01 20:59:00'')" "dget demo_cell (u ''apptInfo'') = PDict [(u ''canApptOrNot'', PBool True)]"
  by (simp_all add: demo_cell_def dget_def u_def)

lemma demo_cell_time: "parse_slot_time (u ''1970-01-01 19:00:00'') (u ''1970-01-01 20:59:00'') = Inr (clock_text 1140, clock_text 1260)"
proof -
  have "\<not> last_datetime < 20 * hours 1 + 59 * minutes 1 + minutes 1" unfolding last_datetime_def by code_simp
  then show ?thesis by (simp add: parse_slot_time_def demo_cell_times clock_of_def date_of_def duration_defs normalize_clock)
qed

lemma demo_directly: "directly_bookable_slots plain_env demo_answer = Inr [demo_cell]"
proof -
  have "dget (as_mapping (dget (as_mapping demo_answer) (u ''result''))) (u ''slots'') = PList [PDict demo_cell]"
    "dget (as_mapping (dget (as_mapping demo_answer) (u ''result''))) (u ''enrollSlots'') = PNone"
    "dget [(u ''canApptOrNot'', PBool True)] (u ''canApptOrNot'') = PBool True"
    by (simp_all add: demo_answer_def as_mapping_def dget_def u_def demo_cell_def)
  moreover have "\<not> last_datetime < 20 * hours 1 + 59 * minutes 1 + minutes 1" unfolding last_datetime_def by code_simp
  ultimately show ?thesis
    by (simp add: directly_bookable_slots_def enrollment_intervals_def bookable_cell_def as_mapping_def demo_cell_fields blocked_by_enrollment_def
       cell_range_def demo_cell_times duration_defs somes_def map_filter_def)
qed

lemma demo_court_rules [simp]: "pv_excluded_court_tokens FSB_SHENYUN = EXCLUDED_COURT_TOKENS" "pv_allowed_court_numbers FSB_SHENYUN = None"
  by (simp_all add: FSB_SHENYUN_def chain_venue_def)

lemma demo_parsed: "parse_availability plain_env demo_answer EXCLUDED_COURT_TOKENS None
    = Inr [([49, 21495], [(clock_text 1140, clock_text 1260)])]"
proof -
  have "is_standard_tennis_court [49, 21495] EXCLUDED_COURT_TOKENS None" by (simp add: py_eval)
  moreover have "strip (py_str plain_env (py_or (PStr [49, 21495]) (PStr UNKNOWN_COURT))) = [49, 21495]" by (simp add: py_eval)
  ultimately have "cell_entry plain_env EXCLUDED_COURT_TOKENS None demo_cell = Some ([49, 21495], (clock_text 1140, clock_text 1260))"
    by (simp add: cell_entry_def demo_cell_fields demo_cell_time)
  then show ?thesis
    by (simp add: parse_availability_def demo_directly dict_append_def map_filter_def merge_court_def
     merge_time_ranges_def range_to_minutes_def clock_text_read range_text_def)
qed

lemma demo_candidate: "request_availability FSB_SHENYUN (demo_ask date proxy) = (if date = u ''1970-01-01'' then Candidate demo_answer else Unavailable)"
proof -
  have "dget (as_mapping demo_answer) (u ''successed'') = PBool True" "dget (as_mapping demo_answer) (u ''status'') = PStr (u ''success'')"
    by (simp_all add: demo_answer_def as_mapping_def dget_def u_def)
  then show ?thesis by (simp add: request_availability_def demo_ask_def FSB_SHENYUN_def chain_venue_def Let_def)
qed


lemma demo_get:
  assumes "as_str_list plain_env cache = [] \<or> as_str_list plain_env cache = [u ''p'']"
  shows "get_tennis_court_availability plain_env FSB_SHENYUN (demo_ask date) (\<lambda>xs. xs) [u ''p''] cache
    = (if date = u ''1970-01-01'' then (PList [PStr (u ''p'')], Inr [([49, 21495], [(clock_text 1140, clock_text 1260)])]) else (PList [], Inl AllProxiesFailed))"
proof -
  have "as_str_list plain_env cache @ filter (\<lambda>p. p \<notin> set (as_str_list plain_env cache)) [u ''p''] = [u ''p'']" using assms by auto
  moreover have "update_proxy_cache plain_env (u ''p'') True cache = PList [PStr (u ''p'')]" "update_proxy_cache plain_env (u ''p'') False cache = PList []"
    using assms by (auto simp: update_proxy_cache_def str_list_value_def MAX_CACHED_PROXIES_def)
  moreover have "\<not> pv_try_direct_first FSB_SHENYUN" by (simp add: FSB_SHENYUN_def chain_venue_def)
  ultimately show ?thesis
    by (simp add: get_tennis_court_availability_def find_answer_def Let_def demo_candidate demo_parsed)
qed

lemma demo_notified: "filter_court_data_for_notification FSB_SHENYUN (u ''1970-01-01'') [([49, 21495], [(clock_text 1140, clock_text 1260)])]
   = Inr [\<lparr>nc_date = month_day 0, nc_court_name = pv_venue_name FSB_SHENYUN @ [49, 21495], nc_free_slots = [(clock_text 1140, clock_text 1260)]\<rparr>]"
proof -
  have "isoweekday 0 = 4" by code_simp
  moreover have "clock_text 1260 \<noteq> u ''24:00''" using clock_text_inj [of 1260 1440] by (auto simp: midnight_text)
  moreover have "is_standard_tennis_court [49, 21495] EXCLUDED_COURT_TOKENS None" by (simp add: py_eval)
  ultimately show ?thesis
    by (simp add: filter_court_data_for_notification_def demo_date notify_court_def announced_ranges_def announced_range_def strptime_clock_text
      parse_end_time_for_duration_def parse_end_time_for_overlap_def target_start_def target_end_def somes_def map_filter_def FSB_SHENYUN_def chain_venue_def)
qed


lemma demo_printed: "print_court_data [([49, 21495], [(clock_text 1140, clock_text 1260)])] = Inr ()"
  using clock_text_inj [of 1260 1440] by (simp add: print_court_data_def strptime_clock_text parse_end_time_for_duration_def midnight_text)

lemma demo_dates: "isoformat 0 = u ''1970-01-01''" "isoformat (- 1) \<noteq> u ''1970-01-01''" "isoformat 1 \<noteq> u ''1970-01-01''"
    "civil_of_day (- 1) = (1969, 12, 31)" "civil_of_day 0 = (1970, 1, 1)" "civil_of_day 1 = (1970, 1, 2)"
  by code_simp+

lemma demo_sweep:
  assumes "as_str_list plain_env cache = [] \<or> as_str_list plain_env cache = [u ''p'']"
  shows "fst (sweep_days plain_env (\<lambda>_. []) FSB_SHENYUN demo_ask (\<lambda>xs. xs) [u ''p''] (\<lambda>_. - 1) cache) = PList []"
    "sw_slots (snd (sweep_days plain_env (\<lambda>_. []) FSB_SHENYUN demo_ask (\<lambda>xs. xs) [u ''p''] (\<lambda>_. - 1) cache))
     = flatten_court_slots (u ''1970-01-01'') [([49, 21495], [(clock_text 1140, clock_text 1260)])]"
    "sw_courts (snd (sweep_days plain_env (\<lambda>_. []) FSB_SHENYUN demo_ask (\<lambda>xs. xs) [u ''p''] (\<lambda>_. - 1) cache))
     = [\<lparr>nc_date = month_day 0, nc_court_name = pv_venue_name FSB_SHENYUN @ [49, 21495], nc_free_slots = [(clock_text 1140, clock_text 1260)]\<rparr>]"
proof -
  have c: "as_str_list plain_env PNone = []" "as_str_list plain_env (PList []) = []" "as_str_list plain_env (PList [PStr (u ''p'')]) = [u ''p'']"
    by (simp_all add: py_eval u_def)
  have "pv_lookahead_days FSB_SHENYUN = 3" by (simp add: FSB_SHENYUN_def chain_venue_def)
  then have "sweep_days plain_env (\<lambda>_. []) FSB_SHENYUN demo_ask (\<lambda>xs. xs) [u ''p''] (\<lambda>_. - 1) cache = (PList [],
     \<lparr>sw_courts = [\<lparr>nc_date = month_day 0, nc_court_name = pv_venue_name FSB_SHENYUN @ [49, 21495], nc_free_slots = [(clock_text 1140, clock_text 1260)]\<rparr>],
      sw_slots = flatten_court_slots (u ''1970-01-01'') [([49, 21495], [(clock_text 1140, clock_text 1260)])], sw_errors = [[], []], sw_empty = []\<rparr>)"
    by (simp add: sweep_days_def empty_sweep_def upt_rec sweep_date_def demo_get [OF assms] demo_get c demo_dates demo_printed demo_notified Let_def)
  then show "fst (sweep_days plain_env (\<lambda>_. []) FSB_SHENYUN demo_ask (\<lambda>xs. xs) [u ''p''] (\<lambda>_. - 1) cache) = PList []"
    "sw_slots (snd (sweep_days plain_env (\<lambda>_. []) FSB_SHENYUN demo_ask (\<lambda>xs. xs) [u ''p''] (\<lambda>_. - 1) cache))
     = flatten_court_slots (u ''1970-01-01'') [([49, 21495], [(clock_text 1140, clock_text 1260)])]"
    "sw_courts (snd (sweep_days plain_env (\<lambda>_. []) FSB_SHENYUN demo_ask (\<lambda>xs. xs) [u ''p''] (\<lambda>_. - 1) cache))
     = [\<lparr>nc_date = month_day 0, nc_court_name = pv_venue_name FSB_SHENYUN @ [49, 21495], nc_free_slots = [(clock_text 1140, clock_text 1260)]\<rparr>]" by simp_all
qed

lemma demo_weekday: "line_weekday 1969 (month_day 0) = Inr 2"
proof -
  have m: "month_day 0 = u ''01-01''" and d: "dec 1969 @ u ''-'' @ u ''01-01'' = u ''1969-01-01''" and w: "isoweekday (- 365) = 3"
    and n: "make_date 1969 1 1 = Some (- 365)" by code_simp+
  have "strptime_date (u ''1969-01-01'') = Some (- 365)" using n by (simp add: py_eval partition_at_def u_def digit_value_ascii)
  then show ?thesis unfolding line_weekday_def m d by (simp add: w)
qed

definition demo_digest :: pystr where
  "demo_digest = notification_line (pv_venue_name FSB_SHENYUN @ [49, 21495]) 2 (month_day 0) (clock_text 1140, clock_text 1260)"

text \<open>A host that queues every digest as it is, and a run against it from the stored lines \<open>sent\<close>, none or the one it announces.\<close>

definition queueing_host :: host_api where
  "queueing_host payload = Some (enqueue_json (Queued [] []))"

interpretation demo_host: digest_host queueing_host
  by unfold_locales (auto simp: queueing_host_def enqueue_json_def dget_def u_def)

definition demo_run_world :: run_world where
  "demo_run_world = \<lparr>rw_now = hours 10 - days 1, rw_clock = (\<lambda>_. hours 10 - days 1), rw_built = hours 10 - days 1, rw_ask = demo_ask, rw_shuffle = (\<lambda>xs. xs), rw_proxies = [u ''p''], rw_stamp = [], rw_published = True,
     rw_chat_names = PStr (u ''g''), rw_device = u ''d'', rw_host = queueing_host\<rparr>"

lemma demo_run:
  assumes "as_str_list plain_env (cv_proxies vars) = [] \<or> as_str_list plain_env (cv_proxies vars) = [u ''p'']"
    and "as_str_list plain_env (cv_messages vars) = sent" "sent = [] \<or> sent = [demo_digest]"
  shows "\<exists>eff. run_check plain_env (\<lambda>_. []) FSB_SHENYUN demo_run_world vars
      = (vars\<lparr>cv_proxies := PList [], cv_messages := if sent = [] then PList [PStr demo_digest] else cv_messages vars\<rparr>, eff, None)
    \<and> re_message eff = (if sent = [] then Some demo_digest else None) \<and> re_lines eff = (if sent = [] then [demo_digest] else []) \<and> re_released eff = None
    \<and> re_slots eff = flatten_court_slots (u ''1970-01-01'') [([49, 21495], [(clock_text 1140, clock_text 1260)])]"
proof -
  obtain w where w: "sweep_days plain_env (\<lambda>_. []) FSB_SHENYUN demo_ask (\<lambda>xs. xs) [u ''p''] (\<lambda>_. - 1) (cv_proxies vars) = (PList [], w)"
    using demo_sweep(1) [OF assms(1)] by (metis prod.collapse)
  have c: "sw_courts w = [\<lparr>nc_date = month_day 0, nc_court_name = pv_venue_name FSB_SHENYUN @ [49, 21495], nc_free_slots = [(clock_text 1140, clock_text 1260)]\<rparr>]"
    and slots: "sw_slots w = flatten_court_slots (u ''1970-01-01'') [([49, 21495], [(clock_text 1140, clock_text 1260)])]"
    using demo_sweep(2,3) [OF assms(1)] w by simp_all
  have now: "\<not> inspection_closed (rw_now demo_run_world)" "(\<lambda>i. date_of (rw_clock demo_run_world i)) = (\<lambda>_. - 1)" "date_of (rw_built demo_run_world) = - 1" "rw_ask demo_run_world = demo_ask" "rw_shuffle demo_run_world = (\<lambda>xs. xs)"
    "rw_proxies demo_run_world = [u ''p'']" by (simp_all add: demo_run_world_def inspection_closed_def date_of_def duration_defs)
  have host: "enqueue_wechat_message plain_env FSB_SHENYUN demo_run_world m = None" for m
    by (simp add: enqueue_wechat_message_def send_wechat_text_to_chatrooms_best_effort_def demo_run_world_def queueing_host_def released_text_def enqueue_json_def
        dget_def u_def Let_def)
  have "pv_notification_baseline_key FSB_SHENYUN = None" "pv_max_cached_messages FSB_SHENYUN = 100" by (simp_all add: FSB_SHENYUN_def chain_venue_def)
  then have "announce plain_env FSB_SHENYUN demo_run_world w (vars\<lparr>cv_proxies := PList []\<rparr>)
     = Inr (vars\<lparr>cv_proxies := PList [], cv_messages := if sent = [] then PList [PStr demo_digest] else cv_messages vars\<rparr>,
         if sent = [] then [demo_digest] else [], if sent = [] then Some demo_digest else None, None)"
    using assms(2,3) by (auto simp: announce_def now c demo_dates demo_weekday baseline_initialized_def demo_digest_def Let_def last_items_def str_list_value_def host
        release_own_def release_stored_def)
  then show ?thesis using w slots by (auto simp: run_check_def now Let_def)
qed

lemma demo_names: "single_line_names plain_env FSB_SHENYUN demo_ask" "unbroken (pv_venue_name FSB_SHENYUN)"
  by (auto simp: single_line_names_def demo_candidate demo_parsed unbroken_def is_line_break_def split: if_split_asm)
    (simp_all add: unbroken_def is_line_break_def FSB_SHENYUN_def chain_venue_def)

section \<open>The host understands a digest\<close>

text \<open>The chat rooms a run addresses, and what the host asks of a request apart from its lines.\<close>

abbreviation chat_rooms :: "pyenv \<Rightarrow> run_world \<Rightarrow> pystr list" where
  "chat_rooms E world \<equiv> normalize_chatrooms E (PList (map PStr (splitlines (py_str E (rw_chat_names world)))))"

definition within_limits :: "pystr list \<Rightarrow> pystr \<Rightarrow> pystr \<Rightarrow> bool" where
  "within_limits rooms device message \<longleftrightarrow> rooms \<noteq> [] \<and> length rooms \<le> 20 \<and> list_all (\<lambda>r. length r \<le> 256) rooms
     \<and> strip device \<noteq> [] \<and> length (strip device) \<le> 128 \<and> length message \<le> 20000"

lemma digest_text:
  assumes "build_new_notifications courts sended year = Inr new" "list_all announceable courts" "new \<noteq> []"
  shows "strip (join [10] new) = join [10] new" "join [10] new \<noteq> []"
proof -
  have l: "unbroken l \<and> strip l = l \<and> l \<noteq> []" if "l \<in> set new" for l
    using announced_line(1,2) [OF assms(1,2) that] built_new [OF assms(1) that] by auto
  then show "strip (join [10] new) = join [10] new" using assms(3) by (intro strip_join) (auto simp: list_all_iff unbroken_def)
  show "join [10] new \<noteq> []" using l assms(3) by (cases "([10] :: pystr, new)" rule: join.cases) auto
qed

lemma digest_request_accepted:
  assumes "build_new_notifications courts sended year = Inr new" "list_all announceable courts" "new \<noteq> []"
    and "is_venue venue_id" "within_limits (normalize_chatrooms E names) device (join [10] new)" "times_castable db"
  shows "\<exists>db' r. enqueue_payload E (enqueue_request (normalize_chatrooms E names) (join [10] new) device source venue_id) now sqlnow db = Inr (db', r)"
proof -
  let ?rooms = "normalize_chatrooms E names" and ?m = "join [10] new"
  let ?p = "enqueue_request ?rooms ?m device source venue_id"
  have f: "dget ?p (u ''venue_id'') = PStr venue_id" "dget ?p (u ''message'') = PStr ?m" "dget ?p (u ''device_name'') = PStr device"
    "dget ?p (u ''receivers'') = PList (map PStr ?rooms)" by (simp_all add: enqueue_request_def dget_def u_def)
  have s: "str_or_empty E (PStr x) = x" for x by (cases "x = []") (simp_all add: str_or_empty_def py_or_def)
  have "receiver_names E (map PStr ?rooms) = dedupe (map strip ?rooms)" by (simp add: receiver_names_def comp_def)
  then have names: "\<not> list_ex (\<lambda>r. r = [] \<or> 256 < length r) (receiver_names E (map PStr ?rooms))"
    using assms(5) by (auto simp: within_limits_def normalize_chatrooms_def list_ex_iff list_all_iff)
  have ok: "is_venue venue_id" "strip device \<noteq> []" "\<not> 128 < length (strip device)" "?m \<noteq> []" "strip ?m = ?m" "\<not> 20000 < length ?m" "map PStr ?rooms \<noteq> []"
    "\<not> 20 < length (map PStr ?rooms)" using assms(4,5) digest_text [OF assms(1-3)] by (auto simp: within_limits_def)
  obtain slots where slots: "open_slots (\<lambda>s. sl_venue_id s = venue_id) sqlnow db = Inr slots" using assms(6) by (simp add: open_slots_def)
  obtain current keys rejected where c: "current_message ?m slots = Inr (current, keys, rejected)"
    using built_digest_accepted [OF assms(1,2)] by blast
  show ?thesis unfolding enqueue_payload_def Let_def f s ok(5) pyval.case
    by (simp only: ok names slots c if_False if_True simp_thms ebind_simps sum.case prod.case) auto
qed

text \<open>C22: A run's digest is understood by the host. As long as no court name of an answer holds a line break, each
  line of the digest reads back as exactly what the run found: a court of the venue, the month and day of
  a date the run asked for, and a range of at least an hour that reaches into the evening of that day and is in the
  observation the run published. The host takes the digest when the venue is in its catalogue and the rooms, the device and the
  20000 characters are within its limits: it drops lines that are no longer available rather than refusing the message.\<close>

theorem announced_digest_understood:
  assumes "run_check E error_text venue world vars = (vars', eff, err)" "re_message eff = Some m"
    and "single_line_names E venue (rw_ask world)" "unbroken (pv_venue_name venue)" "dated_run venue world"
  shows "splitlines m = re_lines eff \<and> re_lines eff \<noteq> []
    \<and> (\<forall>l \<in> set (re_lines eff). \<exists>i court s e. i < pv_lookahead_days venue
        \<and> line_match l = Some \<lparr>dl_court = pv_venue_name venue @ court, dl_day = month_day (asked_day world i), dl_start = clock_text s, dl_end = clock_text e\<rparr>
        \<and> worth_announcing (asked_day world i) s e \<and> published_range (re_slots eff) (asked_day world i) court s e)
    \<and> (is_venue (pv_venue_id venue) \<and> within_limits (chat_rooms E world) (rw_device world) m \<and> times_castable db \<longrightarrow>
        (\<exists>db' r. enqueue_payload E (enqueue_request (chat_rooms E world) m (rw_device world) (pv_dag_id venue) (pv_venue_id venue)) now sqlnow db = Inr (db', r)))"
  using assms(1,3,4)
proof (cases rule: run_check_outcome)
  case (lines courts year)
  have m: "m = join [10] (re_lines eff)" using lines(4) assms(2) by auto
  have "\<exists>i court s e. i < pv_lookahead_days venue
        \<and> line_match l = Some \<lparr>dl_court = pv_venue_name venue @ court, dl_day = month_day (asked_day world i), dl_start = clock_text s, dl_end = clock_text e\<rparr>
        \<and> worth_announcing (asked_day world i) s e \<and> published_range (re_slots eff) (asked_day world i) court s e" if l: "l \<in> set (re_lines eff)" for l
  proof -
    obtain i court wd s e where src: "i < pv_lookahead_days venue" "strip court \<noteq> []" "line_weekday (run_year world) (month_day (asked_day world i)) = Inr wd"
      "l = notification_line (pv_venue_name venue @ court) wd (month_day (asked_day world i)) (clock_text s, clock_text e)"
      "worth_announcing (asked_day world i) s e" "published_range (re_slots eff) (asked_day world i) court s e"
      using assms(1,5) l by (rule run_line_origin)
    have "unbroken l" using announced_line(1) [OF lines(1,3) l] .
    then have "10 \<notin> set (pv_venue_name venue @ court)"
      unfolding src(4) by (auto simp: unbroken_def notification_line_def list_all_iff is_line_break_def)
    moreover have "pv_venue_name venue @ court \<noteq> []" using src(2) by (auto simp: strip_def lstrip_def)
    ultimately show ?thesis using src line_weekday_range [OF src(3)] notification_line_match [of "pv_venue_name venue @ court" wd _ "asked_day world i" s e]
      by (intro exI [of _ i] exI [of _ court] exI [of _ s] exI [of _ e]) (simp add: worth_announcing_def)
  qed
  then show ?thesis using built_digest_lines [OF lines(1,3)] lines(2) digest_request_accepted [OF lines(1,3,2)] m by auto
qed (use assms(2) in simp)

lemma demo_asked: "asked_day demo_run_world i = int i - 1"
  by (simp add: demo_run_world_def date_of_def duration_defs)

lemma demo_dated: "dated_run FSB_SHENYUN demo_run_world"
proof -
  have "fst (civil_of_day (int i - 1)) \<in> {1969, 1970}" if "i < 3" for i
    using that demo_dates by (cases i rule: nat.exhaust; cases "i - 1") (auto simp: numeral_3_eq_3 less_Suc_eq)
  moreover have "pv_lookahead_days FSB_SHENYUN = 3" by (simp add: FSB_SHENYUN_def chain_venue_def)
  ultimately show ?thesis unfolding dated_run_def demo_asked by fastforce
qed

lemma demo_limits: "is_venue (pv_venue_id FSB_SHENYUN)" "chat_rooms plain_env demo_run_world = [u ''g'']"
    "within_limits [u ''g''] (u ''d'') demo_digest"
proof -
  show "is_venue (pv_venue_id FSB_SHENYUN)" unfolding is_venue_def VENUES_eval by (simp add: FSB_SHENYUN_def chain_venue_def u_def)
  have "strip (u ''g'') = u ''g''" "strip (u ''d'') = u ''d''" "splitlines (u ''g'') = [u ''g'']"
    by (simp_all add: strip_fixed u_def is_space_def splitlines_def lines_from_single is_line_break_def)
  then show "chat_rooms plain_env demo_run_world = [u ''g'']" by (simp add: normalize_chatrooms_def demo_run_world_def) (simp add: u_def)
  obtain a b c d where "month_day 0 = [a, b, 45, c, d]" by (rule month_day_shape)
  moreover have "length (clock_text 1140) = 5" "length (clock_text 1260) = 5" by (simp_all add: clock_text_def zpad2_digits u_def)
  ultimately show "within_limits [u ''g''] (u ''d'') demo_digest" using \<open>strip (u ''d'') = u ''d''\<close>
    by (simp add: within_limits_def demo_digest_def notification_line_def FSB_SHENYUN_def chain_venue_def u_def)
qed

theorem announced_digest_understood_witness:
  "\<exists>eff. snd (run_check plain_env (\<lambda>_. []) FSB_SHENYUN demo_run_world demo_vars) = (eff, None) \<and> splitlines demo_digest = [demo_digest]
    \<and> (\<exists>i court s e. i < 3 \<and> line_match demo_digest = Some \<lparr>dl_court = pv_venue_name FSB_SHENYUN @ court,
           dl_day = month_day (int i - 1), dl_start = clock_text s, dl_end = clock_text e\<rparr>
        \<and> worth_announcing (int i - 1) s e \<and> published_range (re_slots eff) (int i - 1) court s e)
    \<and> (\<exists>db' r. enqueue_payload plain_env (enqueue_request [u ''g''] demo_digest (u ''d'') (pv_dag_id FSB_SHENYUN) (pv_venue_id FSB_SHENYUN)) 0 0 (empty_db 0) = Inr (db', r))"
proof -
  have "as_str_list plain_env (cv_proxies demo_vars) = []" "as_str_list plain_env (cv_messages demo_vars) = []" by (simp_all add: py_eval demo_vars_def)
  then obtain vars eff where run: "run_check plain_env (\<lambda>_. []) FSB_SHENYUN demo_run_world demo_vars = (vars, eff, None)"
    and eff: "re_message eff = Some demo_digest" "re_lines eff = [demo_digest]" using demo_run [of demo_vars "[]"] by auto
  have w: "rw_ask demo_run_world = demo_ask" "rw_device demo_run_world = u ''d''" "pv_lookahead_days FSB_SHENYUN = 3" "times_castable (empty_db 0)"
    by (simp_all add: demo_run_world_def FSB_SHENYUN_def chain_venue_def empty_db_def times_castable_def)
  have names: "single_line_names plain_env FSB_SHENYUN (rw_ask demo_run_world)" using demo_names(1) w(1) by simp
  show ?thesis using announced_digest_understood [OF run eff(1) names demo_names(2) demo_dated, of "empty_db 0" 0 0]
    unfolding demo_limits(2) demo_asked w eff(2) using demo_limits(1,3) w(4) run by simp
qed

text \<open>The lines of every venue of this collector are the ones the hand-over releases: the catalogue names its cache.\<close>

lemma cache_keys_in_catalogue:
  "list_all (\<lambda>v. map_of VENUE_DEDUPE_CACHE_KEYS (pv_venue_id v) = Some (pv_cache_key v)) (FFT_QIANHAI # SWJJ # map snd CHAIN_VENUES)"
  by (simp add: VENUE_DEDUPE_CACHE_KEYS_def VENUE_CATALOG_def CHAIN_VENUES_def FFT_QIANHAI_def SWJJ_def chain_venue_def u_def
      FSB_SHENYUN_def FSB_SHEKOU_def FSB_XINAN_def FSB_ZHENGZHONG_def FSB_ATUOSHAN_def FSB_ZONGLVQUAN_def FSB_GUANHU_def FSB_BANTIAN_def FSB_SHAHE_def
      FSB_BAOSHUI_def FSB_NANYOU_def FSB_XINQIAO_def FSB_YIFANGCHENG_def FSB_QILIN_def FSB_MAOZHOUHE_def)

section \<open>A line is announced once\<close>

text \<open>The runs of a venue one after the other, as the scheduler starts them, and what they do.\<close>

fun collector_runs :: "pyenv \<Rightarrow> (collect_error \<Rightarrow> pystr) \<Rightarrow> pospal_venue \<Rightarrow> run_world list \<Rightarrow> collector_vars \<Rightarrow> collector_vars \<times> run_effects list" where
  "collector_runs E error_text venue [] vars = (vars, [])"
| "collector_runs E error_text venue (world # ws) vars =
     (case run_check E error_text venue world vars of (vars1, eff, err) \<Rightarrow>
      case collector_runs E error_text venue ws vars1 of (vars2, effs) \<Rightarrow> (vars2, eff # effs))"

text \<open>The lines of a run that stay announced: those the host did not hand back.\<close>

definition settled :: "run_effects \<Rightarrow> pystr list" where
  "settled eff = filter (\<lambda>l. case re_released eff of None \<Rightarrow> True | Some text \<Rightarrow> l \<notin> set (released_lines text)) (re_lines eff)"

abbreviation sent_lines :: "pyenv \<Rightarrow> collector_vars \<Rightarrow> pystr list" where
  "sent_lines E vars \<equiv> as_str_list E (cv_messages vars)"

lemma as_str_list_stored: "\<forall>l \<in> set xs. strip l \<noteq> [] \<Longrightarrow> as_str_list E (str_list_value xs) = xs"
  by (simp add: as_str_list_def str_list_value_def filter_id_conv comp_def)

lemma as_str_list_released:
  "\<forall>l \<in> set xs. strip l \<noteq> [] \<Longrightarrow>
   as_str_list E (release_subscription_gate_dedupe E text (str_list_value xs)) = filter (\<lambda>l. strip l \<notin> set (released_lines text)) xs"
  by (induction xs) (auto simp: as_str_list_def str_list_value_def release_subscription_gate_dedupe_def)

lemma sent_lines_nonblank: "l \<in> set (as_str_list E v) \<Longrightarrow> strip l \<noteq> []"
  by (cases v) (auto simp: as_str_list_def)

lemma released_from_digest:
  assumes "digest_host (rw_host world)" "build_new_notifications courts sended year = Inr new" "list_all announceable courts" "new \<noteq> []"
    "enqueue_wechat_message E venue world (join [10] new) = Some text"
  shows "set (released_lines text) \<subseteq> set new"
proof (rule digest_host.released_from_message [OF assms(1) assms(5) [unfolded enqueue_wechat_message_def]])
  show l: "list_all (\<lambda>l. unbroken l \<and> strip l = l) new" using announced_line(1,2) [OF assms(2,3)] by (simp add: list_all_iff)
  then show "strip (join [10] new) = join [10] new" using assms(4) by (intro strip_join) (auto simp: list_all_iff unbroken_def)
qed

lemma run_check_stored:
  assumes run: "run_check E error_text venue world vars = (vars', eff, err)" and names: "single_line_names E venue (rw_ask world)" "unbroken (pv_venue_name venue)"
    and host: "digest_host (rw_host world)" and room: "length (sent_lines E vars) + length (re_lines eff) \<le> pv_max_cached_messages venue"
    and K: "K \<subseteq> set (sent_lines E vars)" "\<And>l. l \<in> K \<Longrightarrow> strip l = l"
  shows "set (re_lines eff) \<inter> K = {} \<and> K \<union> set (settled eff) \<subseteq> set (sent_lines E vars')
    \<and> length (sent_lines E vars') \<le> length (sent_lines E vars) + length (re_lines eff) \<and> (\<forall>l \<in> set (re_lines eff). strip l = l)"
  using run names
proof (cases rule: run_check_outcome)
  case quiet
  then show ?thesis using K by (simp add: settled_def)
next
  case (lines courts year)
  let ?new = "re_lines eff" and ?all = "sent_lines E vars @ re_lines eff"
  have new: "\<forall>l \<in> set ?new. l \<notin> set (sent_lines E vars) \<and> strip l \<noteq> [] \<and> strip l = l"
    using built_new [OF lines(1)] announced_line(2) [OF lines(1,3)] by blast
  then have nb: "\<forall>l \<in> set ?all. strip l \<noteq> []" using sent_lines_nonblank by auto
  have stored: "last_items (pv_max_cached_messages venue) ?all = ?all" using room by (simp add: last_items_def)
  have "sent_lines E vars' = ?all \<or> (\<exists>text. re_released eff = Some text \<and> sent_lines E vars' = filter (\<lambda>l. strip l \<notin> set (released_lines text)) ?all)"
    using lines(5) unfolding stored
    by (auto simp: release_own_def release_stored_def as_str_list_stored [OF nb] as_str_list_released [OF nb] split: option.split_asm)
  then show ?thesis
  proof
    assume "sent_lines E vars' = ?all"
    then show ?thesis using new K by (auto simp: settled_def)
  next
    assume "\<exists>text. re_released eff = Some text \<and> sent_lines E vars' = filter (\<lambda>l. strip l \<notin> set (released_lines text)) ?all"
    then obtain handed where t: "re_released eff = Some handed" "sent_lines E vars' = filter (\<lambda>l. strip l \<notin> set (released_lines handed)) ?all" by blast
    then have "set (released_lines handed) \<subseteq> set ?new" using lines by (intro released_from_digest [OF host lines(1,3,2)]) auto
    then have "K \<inter> set (released_lines handed) = {}" using new K(1) by blast
    then have "K \<union> set (settled eff) \<subseteq> set (sent_lines E vars')" using t new K by (auto simp: settled_def)
    moreover have "length (sent_lines E vars') \<le> length ?all" unfolding t(2) by (rule length_filter_le)
    ultimately show ?thesis using new K by auto
  qed
qed

lemma collector_runs_stored:
  assumes "collector_runs E error_text venue ws vars = (vars', effs)" "unbroken (pv_venue_name venue)"
    and "list_all (\<lambda>world. single_line_names E venue (rw_ask world) \<and> digest_host (rw_host world)) ws"
    and "length (sent_lines E vars) + length (concat (map re_lines effs)) \<le> pv_max_cached_messages venue"
    and "K \<subseteq> set (sent_lines E vars)" "\<forall>l \<in> K. strip l = l"
  shows "list_all (\<lambda>e. set (re_lines e) \<inter> K = {}) effs \<and> sorted_wrt (\<lambda>a b. set (settled a) \<inter> set (re_lines b) = {}) effs"
  using assms
proof (induction ws arbitrary: vars effs K)
  case (Cons world ws)
  obtain vars1 eff err where run: "run_check E error_text venue world vars = (vars1, eff, err)" by (metis prod_cases3)
  obtain rest where rest: "collector_runs E error_text venue ws vars1 = (vars', rest)" and effs: "effs = eff # rest"
    using Cons.prems(1) run by (auto split: prod.split_asm)
  have step: "set (re_lines eff) \<inter> K = {}" "K \<union> set (settled eff) \<subseteq> set (sent_lines E vars1)"
    "length (sent_lines E vars1) \<le> length (sent_lines E vars) + length (re_lines eff)" "\<forall>l \<in> set (re_lines eff). strip l = l"
    using run_check_stored [OF run _ Cons.prems(2), of K] Cons.prems(3-6) effs by simp_all
  have "list_all (\<lambda>e. set (re_lines e) \<inter> (K \<union> set (settled eff)) = {}) rest \<and> sorted_wrt (\<lambda>a b. set (settled a) \<inter> set (re_lines b) = {}) rest"
    by (rule Cons.IH [OF rest Cons.prems(2)]) (use Cons.prems(3-6) step effs in \<open>auto simp: settled_def\<close>)
  then show ?case using step(1) effs by (auto simp: list_all_iff disjoint_iff)
qed simp

text \<open>C10: A free court is announced once: however many runs of a venue follow each other, and whatever the booking service
  answers, a line that the host took stays announced: it is in none of the later digests. Only lines the host
  handed back, because nobody subscribes to the venue or the court is gone, are announced again. This holds as long as
  the lines announced fit the cache, and for every host that rejects only lines of the digest it was sent, which the
  host's \<open>enqueue\<close> does.\<close>

theorem line_announced_once:
  assumes "collector_runs E error_text venue ws vars = (vars', effs)" "unbroken (pv_venue_name venue)"
    and "list_all (\<lambda>world. single_line_names E venue (rw_ask world) \<and> digest_host (rw_host world)) ws"
    and "length (sent_lines E vars) + length (concat (map re_lines effs)) \<le> pv_max_cached_messages venue"
  shows "sorted_wrt (\<lambda>a b. set (settled a) \<inter> set (re_lines b) = {}) effs"
  using collector_runs_stored [OF assms, of "{}"] by simp

theorem line_announced_once_witness:
  "map re_lines (snd (collector_runs plain_env (\<lambda>_. []) FSB_SHENYUN [demo_run_world, demo_run_world] demo_vars)) = [[demo_digest], []]
   \<and> sorted_wrt (\<lambda>a b. set (settled a) \<inter> set (re_lines b) = {}) (snd (collector_runs plain_env (\<lambda>_. []) FSB_SHENYUN [demo_run_world, demo_run_world] demo_vars))"
proof -
  let ?vars = "demo_vars\<lparr>cv_proxies := PList [], cv_messages := PList [PStr demo_digest]\<rparr>"
  have nb: "strip demo_digest \<noteq> []" unfolding demo_digest_def notification_line_def by (simp add: strip_Cons_nonblank is_space_def)
  have c: "as_str_list plain_env (cv_proxies demo_vars) = []" "sent_lines plain_env demo_vars = []" by (simp_all add: py_eval demo_vars_def)
  have c': "as_str_list plain_env (cv_proxies ?vars) = []" "sent_lines plain_env ?vars = [demo_digest]" using nb by (simp_all add: as_str_list_def)
  obtain e1 e2 vars where runs: "collector_runs plain_env (\<lambda>_. []) FSB_SHENYUN [demo_run_world, demo_run_world] demo_vars = (vars, [e1, e2])"
    and l: "re_lines e1 = [demo_digest]" "re_lines e2 = []"
    using demo_run [of demo_vars "[]"] demo_run [of ?vars "[demo_digest]"] c c' by auto
  have "pv_max_cached_messages FSB_SHENYUN = 100" by (simp add: FSB_SHENYUN_def chain_venue_def)
  moreover have "single_line_names plain_env FSB_SHENYUN (rw_ask demo_run_world)" "digest_host (rw_host demo_run_world)"
    using demo_names(1) demo_host.digest_host_axioms by (simp_all add: demo_run_world_def)
  ultimately show ?thesis using line_announced_once [OF runs demo_names(2)] c(2) runs l by simp
qed

end
