(* ===== verification/CollectorTimes.thy ===== *)
theory CollectorTimes
  imports CollectorRuns
begin

text \<open>
  The times of the collector: what it publishes as free is bookable in the answer it got, and the weekday
  of an announced line.
\<close>

section \<open>Published time is bookable\<close>

text \<open>The cells of an answer and its enrolments.\<close>

definition offered_cells :: "pyval \<Rightarrow> pyval list" where
  "offered_cells json = (case dget (as_mapping (dget (as_mapping json) (u ''result''))) (u ''slots'') of PList xs \<Rightarrow> xs | _ \<Rightarrow> [])"

definition enrolled :: "pyenv \<Rightarrow> pyval \<Rightarrow> enrollment list" where
  "enrolled E json = (case enrollment_intervals E (dget (as_mapping (dget (as_mapping json) (u ''result''))) (u ''enrollSlots'')) of
     Inl _ \<Rightarrow> [] | Inr ens \<Rightarrow> ens)"

text \<open>What the booking service is relied on for: a cell starts on a whole minute and does not end before it starts.\<close>

definition minute_cells :: "pyval \<Rightarrow> bool" where
  "minute_cells json \<longleftrightarrow> list_all (\<lambda>raw. case (dget (as_mapping raw) (u ''beginDatetime''), dget (as_mapping raw) (u ''endDatetime'')) of
     (PStr b, PStr e) \<Rightarrow> (case (strptime_seconds b, strptime_seconds e) of
        (Some t, Some t') \<Rightarrow> t \<le> t' \<and> t mod minutes 1 = 0 | _ \<Rightarrow> True)
   | _ \<Rightarrow> True) (offered_cells json)"

lemma bookable_origin:
  assumes "directly_bookable_slots E json = Inr slots" "slot \<in> set slots"
  obtains raw where "raw \<in> set (offered_cells json)" "slot = as_mapping raw"
    "dget (as_mapping (dget slot (u ''apptInfo''))) (u ''canApptOrNot'') = PBool True"
    "blocked_by_enrollment E slot (enrolled E json) = Inr False"
proof -
  let ?result = "as_mapping (dget (as_mapping json) (u ''result''))"
  obtain raws where raws: "dget ?result (u ''slots'') = PList raws"
    using assms by (auto simp: directly_bookable_slots_def Let_def split: pyval.split_asm)
  obtain ens xs where ens: "enrollment_intervals E (dget ?result (u ''enrollSlots'')) = Inr ens" and xs: "emap (bookable_cell E ens) raws = Inr xs" "slots = somes xs"
    using assms(1) by (auto simp: directly_bookable_slots_def raws ebind_Inr_iff)
  obtain raw where raw: "raw \<in> set raws" "bookable_cell E ens raw = Inr (Some slot)"
    using emap_set [OF xs(1), of "Some slot"] assms(2) xs(2) by (metis somes_set)
  then have "slot = as_mapping raw" "dget (as_mapping (dget slot (u ''apptInfo''))) (u ''canApptOrNot'') = PBool True" "blocked_by_enrollment E slot ens = Inr False"
    by (auto simp: bookable_cell_def Let_def ebind_Inr_iff split: if_split_asm)
  then show ?thesis using that raw(1) raws ens by (simp add: offered_cells_def enrolled_def)
qed

lemma enrolled_proper: "en \<in> set (enrolled E json) \<Longrightarrow> en_begin en < en_end en"
proof -
  assume "en \<in> set (enrolled E json)"
  then obtain v where "en \<in> set (case enrollment_intervals E v of Inl _ \<Rightarrow> [] | Inr ens \<Rightarrow> ens)" unfolding enrolled_def by blast
  then obtain ens where "enrollment_intervals E v = Inr ens" "en \<in> set ens" by (cases "enrollment_intervals E v") auto
  then obtain raws xs where xs: "emap (enrollment_of E) raws = Inr xs" "Some en \<in> set xs"
    by (auto simp: enrollment_intervals_def ebind_Inr_iff split: pyval.split_asm)
  then obtain raw where "enrollment_of E raw = Inr (Some en)" using emap_set [OF xs] by blast
  then obtain r where r: "cell_range (as_mapping raw) = Inr r" and en: "(case r of None \<Rightarrow> None
      | Some (b, e) \<Rightarrow> if court_uid E (as_mapping raw) = [] \<and> cell_court_name E (as_mapping raw) = [] then None
          else Some \<lparr>en_court_uid = court_uid E (as_mapping raw), en_court_name = cell_court_name E (as_mapping raw), en_begin = b, en_end = e\<rparr>) = Some en"
    unfolding enrollment_of_def Let_def ebind_Inr_iff by auto
  then obtain b e where "cell_range (as_mapping raw) = Inr (Some (b, e))" "en_begin en = b" "en_end en = e"
    by (cases r) (auto split: if_split_asm)
  then show ?thesis by (auto simp: cell_range_def split: if_split_asm option.split_asm pyval.split_asm)
qed

lemma clock_minutes:
  assumes "t mod minutes 1 = 0" "0 \<le> x" "x < 1440"
  shows "t mod days 1 div minutes 1 \<le> x \<longleftrightarrow> t \<le> date_of t * days 1 + x * minutes 1"
    "x < t mod days 1 div minutes 1 \<longleftrightarrow> date_of t * days 1 + (x + 1) * minutes 1 \<le> t"
proof -
  have t: "t = date_of t * days 1 + t mod days 1" by (simp add: date_of_def)
  have "days 1 = minutes 1 * 1440" by (simp add: duration_defs)
  then have "(t mod days 1) mod minutes 1 = 0" using assms(1) by (metis mod_mod_cancel dvd_triv_left)
  then have m: "t mod days 1 = (t mod days 1 div minutes 1) * minutes 1" by (metis add.right_neutral div_mult_mod_eq)
  have p: "0 < minutes 1" by (simp add: duration_defs)
  show "t mod days 1 div minutes 1 \<le> x \<longleftrightarrow> t \<le> date_of t * days 1 + x * minutes 1"
    using t m p by (metis add_le_cancel_left mult_le_cancel_right_pos)
  show "x < t mod days 1 div minutes 1 \<longleftrightarrow> date_of t * days 1 + (x + 1) * minutes 1 \<le> t"
    using t m p by (metis add_le_cancel_left mult_le_cancel_right_pos add1_zle_eq)
qed

text \<open>The minute \<open>m\<close> of a cell's range, as an instant, lies in the cell.\<close>

lemma slot_time_minutes:
  assumes "parse_slot_time b e = Inr (clock_text p, clock_text q)" "strptime_seconds b = Some t" "strptime_seconds e = Some t'" "t \<le> t'" "t mod minutes 1 = 0"
    and pq: "0 \<le> p" "p \<le> 1440" "0 \<le> q" "q \<le> 1440" and m: "p \<le> m" "m < q"
  shows "t \<le> date_of t * days 1 + m * minutes 1" "date_of t * days 1 + (m + 1) * minutes 1 \<le> t' + minutes 1"
proof -
  define y where "y = t' + minutes 1"
  have b: "0 \<le> x mod days 1 div minutes 1" "x mod days 1 div minutes 1 < 1440" "x mod days 1 div minutes 1 < 6000" for x using clock_of_minutes [of x] by simp_all
  have c: "clock_text p = clock_text (t mod days 1 div minutes 1)"
    "clock_text q = clock_text (if date_of t < date_of y then 1440 else y mod days 1 div minutes 1)"
    using assms(1,2,3) by (auto simp: parse_slot_time_def midnight_text clock_of_def y_def normalize_clock normalize_clock [OF b(1,3)] split: if_split_asm)
  have p: "p = t mod days 1 div minutes 1" using c(1) pq b [of t] by (intro clock_text_inj) simp_all
  have q: "q = (if date_of t < date_of y then 1440 else y mod days 1 div minutes 1)" using c(2) pq b [of y] by (intro clock_text_inj) simp_all
  have m0: "0 \<le> m" "m < 1440" using m pq by simp_all
  show "t \<le> date_of t * days 1 + m * minutes 1" using clock_minutes(1) [OF assms(5) m0] m(1) p by simp
  show "date_of t * days 1 + (m + 1) * minutes 1 \<le> t' + minutes 1" unfolding y_def [symmetric]
  proof (cases "date_of t < date_of y")
    case True
    have "(m + 1) * minutes 1 \<le> days 1" using m0 by (simp add: duration_defs)
    moreover have "(date_of t + 1) * days 1 \<le> date_of y * days 1" using True by (simp add: duration_defs)
    moreover have "date_of y * days 1 \<le> y" using mult_div_mod_eq [of "days 1" y] by (simp add: date_of_def duration_defs)
    ultimately show "date_of t * days 1 + (m + 1) * minutes 1 \<le> y" by (simp add: distrib_right)
  next
    case False
    have "t \<le> y" using assms(4) by (simp add: y_def duration_defs)
    then have d: "date_of y = date_of t" using False zdiv_mono1 [of t y "days 1"] by (simp add: date_of_def duration_defs)
    have "m + 1 \<le> y mod days 1 div minutes 1" using m(2) q False by simp
    then have "(m + 1) * minutes 1 \<le> y mod days 1 div minutes 1 * minutes 1" by (simp add: duration_defs)
    also have "\<dots> \<le> y mod days 1" by (simp add: duration_defs)
    finally show "date_of t * days 1 + (m + 1) * minutes 1 \<le> y"
      using div_mult_mod_eq [of y "days 1"] unfolding d [symmetric] unfolding date_of_def by linarith
  qed
qed


lemma published_minute:
  assumes "merge_time_ranges cells = Inr texts" "list_all day_range cells" "emap range_to_minutes texts = Inr rs" "m \<in> minute_set rs"
  obtains p q where "range_text (p, q) \<in> set cells" "0 \<le> p" "p \<le> 1440" "0 \<le> q" "q \<le> 1440" "p \<le> m" "m < q"
proof -
  obtain ms where ms: "cells = map range_text ms" "emap range_to_minutes cells = Inr ms" "list_all (\<lambda>(s, e). 0 \<le> s \<and> e \<le> 1440 \<and> 0 \<le> e \<and> s \<le> 1440) ms"
    using assms(2) by (rule day_range_minutes)
  have "list_all in_day ms" using ms(3) by (auto simp: list_all_iff in_day_def)
  then obtain ms' where "merge_time_ranges cells = Inr (map range_text ms')" "emap range_to_minutes (map range_text ms') = Inr ms'" "minute_set ms' = minute_set ms"
    using merge_time_ranges_span [OF ms(2)] by blast
  then have "m \<in> minute_set ms" using assms by simp
  then obtain p q where "(p, q) \<in> set ms" "p \<le> m" "m < q" by (auto simp: minute_set_def)
  then show ?thesis using that ms(1,3) by (fastforce simp: list_all_iff)
qed

lemma cell_entry_times:
  assumes "cell_entry E excluded allowed slot = Some (name, r)"
  obtains b e t t' where "dget slot (u ''beginDatetime'') = PStr b" "dget slot (u ''endDatetime'') = PStr e" "parse_slot_time b e = Inr r"
    "strptime_seconds b = Some t" "strptime_seconds e = Some t'" "t' + minutes 1 \<le> last_datetime"
    "strip (py_str E (py_or (dget slot (u ''classRoomName'')) (PStr UNKNOWN_COURT))) = name"
  using assms unfolding cell_entry_def Let_def
  by (auto simp: parse_slot_time_def split: if_split_asm pyval.split_asm sum.split_asm option.split_asm)

text \<open>C11: Published time can be booked: every minute of a range published for a court lies within a cell of the answer that
  the booking service marks as open for booking and that bears the court's name, and no enrolment of the
  same court overlaps that minute. This holds of answers whose cells start on whole minutes and end after they start.\<close>

theorem published_time_is_bookable:
  assumes "parse_availability E json excluded allowed = Inr courts" "(name, texts) \<in> set courts"
    "emap range_to_minutes texts = Inr rs" "m \<in> minute_set rs" "minute_cells json"
  shows "\<exists>raw t t'. raw \<in> set (offered_cells json) \<and> cell_range (as_mapping raw) = Inr (Some (t, t'))
    \<and> dget (as_mapping (dget (as_mapping raw) (u ''apptInfo''))) (u ''canApptOrNot'') = PBool True
    \<and> strip (py_str E (py_or (dget (as_mapping raw) (u ''classRoomName'')) (PStr UNKNOWN_COURT))) = name
    \<and> t \<le> date_of t * days 1 + m * minutes 1 \<and> date_of t * days 1 + (m + 1) * minutes 1 \<le> t'
    \<and> list_all (\<lambda>en. \<not> same_court E (as_mapping raw) en \<or> en_end en \<le> date_of t * days 1 + m * minutes 1
          \<or> date_of t * days 1 + (m + 1) * minutes 1 \<le> en_begin en) (enrolled E json)"
proof -
  obtain slots cells where slots: "directly_bookable_slots E json = Inr slots" and merged: "merge_time_ranges cells = Inr texts"
    and from_cell: "\<And>r. r \<in> set cells \<Longrightarrow> \<exists>slot \<in> set slots. cell_entry E excluded allowed slot = Some (name, r)"
    using assms(1,2) by (rule parsed_court) blast
  have "list_all day_range cells" using from_cell cell_entry_range by (fastforce simp: list_all_iff)
  then obtain p q where pq: "range_text (p, q) \<in> set cells" "0 \<le> p" "p \<le> 1440" "0 \<le> q" "q \<le> 1440" "p \<le> m" "m < q"
    by (rule published_minute [OF merged _ assms(3,4)])
  obtain slot where slot: "slot \<in> set slots" "cell_entry E excluded allowed slot = Some (name, range_text (p, q))" using from_cell [OF pq(1)] by blast
  obtain raw where raw: "raw \<in> set (offered_cells json)" "slot = as_mapping raw"
    "dget (as_mapping (dget slot (u ''apptInfo''))) (u ''canApptOrNot'') = PBool True" "blocked_by_enrollment E slot (enrolled E json) = Inr False"
    using slots slot(1) by (rule bookable_origin)
  obtain b e t t' where t: "dget slot (u ''beginDatetime'') = PStr b" "dget slot (u ''endDatetime'') = PStr e" "parse_slot_time b e = Inr (range_text (p, q))"
    "strptime_seconds b = Some t" "strptime_seconds e = Some t'" "t' + minutes 1 \<le> last_datetime"
    "strip (py_str E (py_or (dget slot (u ''classRoomName'')) (PStr UNKNOWN_COURT))) = name" using slot(2) by (rule cell_entry_times)
  have w: "t \<le> t'" "t mod minutes 1 = 0" using assms(5) raw(1,2) t by (fastforce simp: minute_cells_def list_all_iff)+
  have cr: "cell_range slot = Inr (Some (t, t' + minutes 1))" using t w by (simp add: cell_range_def) (simp add: duration_defs)
  let ?start = "date_of t * days 1 + m * minutes 1" and ?stop = "date_of t * days 1 + (m + 1) * minutes 1"
  have in_cell: "t \<le> ?start" "?stop \<le> t' + minutes 1"
    using slot_time_minutes [OF t(3) [unfolded range_text_def fst_conv snd_conv] t(4,5) w pq(2-7)] .
  have "\<not> same_court E slot en \<or> en_end en \<le> ?start \<or> ?stop \<le> en_begin en" if "en \<in> set (enrolled E json)" for en
  proof -
    have "\<not> (same_court E slot en \<and> max t (en_begin en) < min (t' + minutes 1) (en_end en))"
      using raw(4) that by (auto simp: blocked_by_enrollment_def cr list_ex_iff)
    then have "same_court E slot en \<Longrightarrow> t' + minutes 1 \<le> en_begin en \<or> en_end en \<le> t"
      using enrolled_proper [OF that] w(1) by (auto simp: max_def min_def duration_defs split: if_split_asm)
    then show ?thesis using in_cell by linarith
  qed
  then show ?thesis using raw t(7) cr in_cell by (intro exI [of _ raw] exI [of _ t] exI [of _ "t' + minutes 1"]) (simp add: list_all_iff)
qed

theorem published_time_is_bookable_witness:
  "\<exists>raw t t'. raw \<in> set (offered_cells demo_answer) \<and> cell_range (as_mapping raw) = Inr (Some (t, t'))
     \<and> t \<le> date_of t * days 1 + 1200 * minutes 1 \<and> date_of t * days 1 + 1201 * minutes 1 \<le> t'"
proof -
  have c: "dget (as_mapping (dget (as_mapping demo_answer) (u ''result''))) (u ''slots'') = PList [PDict demo_cell]"
    by (simp add: demo_answer_def as_mapping_def dget_def u_def demo_cell_def)
  have "minute_cells demo_answer"
    by (simp add: minute_cells_def offered_cells_def c) (simp add: as_mapping_def demo_cell_fields demo_cell_times duration_defs)
  moreover have "emap range_to_minutes [(clock_text 1140, clock_text 1260)] = Inr [(1140, 1260)]" by (simp add: range_to_minutes_def clock_text_read)
  ultimately show ?thesis using published_time_is_bookable [OF demo_parsed, of "[49, 21495]" "[(clock_text 1140, clock_text 1260)]" "[(1140, 1260)]" 1200] by auto
qed

section \<open>The weekday of a line\<close>

lemma succ_div:
  fixes n e :: int
  assumes "0 < n"
  shows "(e + 1) div n = e div n + (if n dvd e + 1 then 1 else 0)"
proof (cases "n dvd e + 1")
  case True
  then obtain q where q: "e + 1 = n * q" by (rule dvdE)
  then have "e = n * (q - 1) + (n - 1)" by (simp add: algebra_simps)
  then have "e div n = q - 1" using assms by (intro int_div_pos_eq [of _ _ _ "n - 1"]) auto
  then show ?thesis using True q assms by simp
next
  case False
  have e: "e = n * (e div n) + e mod n" by simp
  have "e mod n + 1 \<noteq> n"
  proof
    assume "e mod n + 1 = n"
    then have "e + 1 = n * (e div n + 1)" using e unfolding distrib_left by linarith
    with False show False by (metis dvd_triv_left)
  qed
  then have "e mod n + 1 < n" using pos_mod_bound [OF assms, of e] by linarith
  then have "(e + 1) div n = e div n" using e assms by (intro int_div_pos_eq [of _ _ _ "e mod n + 1"]) auto
  then show ?thesis using False by simp
qed

lemma new_year_days:
  "day_of_civil (y + 1) 1 k - day_of_civil y 1 k = 365 \<or> day_of_civil (y + 1) 1 k - day_of_civil y 1 k = 366"
proof -
  define e where "e = (y - 1) mod 400"
  have y: "y - 1 = 400 * ((y - 1) div 400) + e" by (simp add: e_def)
  have e: "0 \<le> e" "e < 400" by (simp_all add: e_def)
  have now: "day_of_civil y 1 k = (y - 1) div 400 * 146097 + (e * 365 + e div 4 - e div 100 + (306 + k - 1)) - 719468"
    by (simp add: day_of_civil_def Let_def e_def)
  show ?thesis
  proof (cases "e = 399")
    case True
    then have "y = 400 * ((y - 1) div 400 + 1)" using y by simp
    then have "y mod 400 = 0" "y div 400 = (y - 1) div 400 + 1" by (metis mod_mult_self1_is_0, metis nonzero_mult_div_cancel_left zero_neq_numeral)
    then show ?thesis using True unfolding now by (simp add: day_of_civil_def Let_def)
  next
    case False
    have "y = 400 * ((y - 1) div 400) + (e + 1)" "0 \<le> e + 1" "e + 1 < 400" using y e False by simp_all
    then have "y mod 400 = e + 1" "y div 400 = (y - 1) div 400" by (rule int_mod_pos_eq, rule int_div_pos_eq)
    then have nxt: "day_of_civil (y + 1) 1 k = (y - 1) div 400 * 146097 + ((e + 1) * 365 + (e + 1) div 4 - (e + 1) div 100 + (306 + k - 1)) - 719468"
      by (simp add: day_of_civil_def Let_def)
    have "(100 :: int) dvd e + 1 \<Longrightarrow> 4 dvd e + 1" by (rule dvd_trans [of 4 100]) simp_all
    then show ?thesis unfolding now nxt by (simp add: succ_div)
  qed
qed

lemma new_year_weekday:
  assumes "civil_of_day d = (y + 1, 1, k)"
  shows "isoweekday (day_of_civil y 1 k) \<noteq> isoweekday d"
proof -
  have "day_of_civil (y + 1) 1 k = d" using day_of_civil_of_day [of d] assms by simp
  then consider "d = day_of_civil y 1 k + 365" | "d = day_of_civil y 1 k + 366" using new_year_days [of y k] by fastforce
  then have "(day_of_civil y 1 k + 3) mod 7 \<noteq> (d + 3) mod 7" by cases presburger+
  then show ?thesis by (simp add: isoweekday_def)
qed

text \<open>The weekday a line names, as its character.\<close>

definition weekday_char :: "pydate \<Rightarrow> nat" where
  "weekday_char d = WEEKDAY_CHARS ! nat (isoweekday d - 1)"

lemma weekday_char_eq: "weekday_char a = weekday_char b \<longleftrightarrow> isoweekday a = isoweekday b"
proof -
  have "nat (isoweekday d - 1) < length WEEKDAY_CHARS" for d using isoweekday_range [of d] by (simp add: WEEKDAY_CHARS_def nat_less_iff)
  moreover have "distinct WEEKDAY_CHARS" by (simp add: WEEKDAY_CHARS_def)
  ultimately show ?thesis using isoweekday_range [of a] isoweekday_range [of b] by (simp add: weekday_char_def nth_eq_iff_index_eq eq_nat_nat_iff)
qed

text \<open>C40: A line for a day after New Year names the wrong weekday. Every line of a run is made of a court, the month and day of a
  date the run asked for, a range, and a weekday. The weekday is that of the date when the date is in the year in which the lines
  are built; for a date in the January after it, it is the weekday of the same day a year earlier, which never
  is the weekday of the date announced.\<close>

theorem new_year_weekday_wrong:
  assumes "run_check E error_text venue world vars = (vars', eff, err)" "dated_run venue world" "l \<in> set (re_lines eff)"
    and "run_year world = y" "1000 \<le> y" "y \<le> 9998"
  shows "\<exists>i court s e day_char. i < pv_lookahead_days venue
    \<and> l = [12304] @ pv_venue_name venue @ court @ [12305, 26143, 26399, day_char, 40] @ month_day (asked_day world i) @ [41, 31354, 22330, 58, 32]
        @ clock_text s @ [45] @ clock_text e
    \<and> worth_announcing (asked_day world i) s e \<and> published_range (re_slots eff) (asked_day world i) court s e
    \<and> (fst (civil_of_day (asked_day world i)) = y \<longrightarrow> day_char = weekday_char (asked_day world i))
    \<and> (\<forall>k. civil_of_day (asked_day world i) = (y + 1, 1, k) \<longrightarrow>
         day_char = weekday_char (day_of_civil y 1 k) \<and> day_char \<noteq> weekday_char (asked_day world i))"
proof -
  obtain i court wd s e where src: "i < pv_lookahead_days venue" "strip court \<noteq> []" "line_weekday (run_year world) (month_day (asked_day world i)) = Inr wd"
    "l = notification_line (pv_venue_name venue @ court) wd (month_day (asked_day world i)) (clock_text s, clock_text e)"
    "worth_announcing (asked_day world i) s e" "published_range (re_slots eff) (asked_day world i) court s e"
    using assms(1,2,3) by (rule run_line_origin)
  let ?d = "asked_day world i" and ?char = "WEEKDAY_CHARS ! nat wd"
  have read: "?char = weekday_char (day_of_civil y m k)" if "civil_of_day ?d = (y', m, k)" for y' m k
    using line_weekday_read [OF src(3) that] assms(4-6) by (simp add: weekday_char_def)
  have same: "?char = weekday_char ?d" if "fst (civil_of_day ?d) = y"
    using read [of y "fst (snd (civil_of_day ?d))" "snd (snd (civil_of_day ?d))"] day_of_civil_of_day [of ?d] that by (simp add: prod_eq_iff split: prod.split_asm)
  have wrong: "?char = weekday_char (day_of_civil y 1 k) \<and> ?char \<noteq> weekday_char ?d" if "civil_of_day ?d = (y + 1, 1, k)" for k
    using read [OF that] new_year_weekday [OF that] by (simp add: weekday_char_eq)
  show ?thesis
    by (rule exI [of _ i], rule exI [of _ court], rule exI [of _ s], rule exI [of _ e], rule exI [of _ ?char])
      (use same wrong src in \<open>auto simp: notification_line_def u_def\<close>)
qed

theorem new_year_weekday_wrong_witness:
  "\<exists>court s e day_char. demo_digest = [12304] @ pv_venue_name FSB_SHENYUN @ court @ [12305, 26143, 26399, day_char, 40] @ month_day 0
      @ [41, 31354, 22330, 58, 32] @ clock_text s @ [45] @ clock_text e
    \<and> day_char = weekday_char (day_of_civil 1969 1 1) \<and> day_char \<noteq> weekday_char 0"
proof -
  have "as_str_list plain_env (cv_proxies demo_vars) = []" "as_str_list plain_env (cv_messages demo_vars) = []" by (simp_all add: py_eval demo_vars_def)
  then obtain vars eff where run: "run_check plain_env (\<lambda>_. []) FSB_SHENYUN demo_run_world demo_vars = (vars, eff, None)"
    and eff: "demo_digest \<in> set (re_lines eff)" using demo_run [of demo_vars "[]"] by auto
  have year: "run_year demo_run_world = 1969" using demo_dates(4) by (simp add: demo_run_world_def date_of_def duration_defs)
  obtain i court s e c where i: "i < 3" and l: "demo_digest = [12304] @ pv_venue_name FSB_SHENYUN @ court @ [12305, 26143, 26399, c, 40] @ month_day (int i - 1)
        @ [41, 31354, 22330, 58, 32] @ clock_text s @ [45] @ clock_text e" and worth: "worth_announcing (int i - 1) s e"
    and c: "\<forall>k. civil_of_day (int i - 1) = (1969 + 1, 1, k) \<longrightarrow> c = weekday_char (day_of_civil 1969 1 k) \<and> c \<noteq> weekday_char (int i - 1)"
    using new_year_weekday_wrong [OF run demo_dated eff year] unfolding demo_asked by (auto simp: FSB_SHENYUN_def chain_venue_def)
  have len: "length (clock_text m) = 5" if "0 \<le> m" "m < 6000" for m using that by (elim clock_text_shape) auto
  have md: "length (month_day n) = 5" for n by (rule month_day_shape [of n]) auto
  have day: "take 5 (drop 16 (rev (xs @ month_day n @ [41, 31354, 22330, 58, 32] @ clock_text a @ [45] @ clock_text b))) = rev (month_day n)"
    if "0 \<le> a" "a < 6000" "0 \<le> b" "b < 6000" for xs n a b using len [OF that(1,2)] len [OF that(3,4)] md [of n] by simp
  have "demo_digest = ([12304] @ pv_venue_name FSB_SHENYUN @ [49, 21495, 12305, 26143, 26399, WEEKDAY_CHARS ! nat 2, 40]) @ month_day 0
      @ [41, 31354, 22330, 58, 32] @ clock_text 1140 @ [45] @ clock_text 1260" by (simp add: demo_digest_def notification_line_def u_def)
  then have "rev (month_day 0) = take 5 (drop 16 (rev demo_digest))"
    using day [of 1140 1260 "[12304] @ pv_venue_name FSB_SHENYUN @ [49, 21495, 12305, 26143, 26399, WEEKDAY_CHARS ! nat 2, 40]" 0] by simp
  also have "\<dots> = rev (month_day (int i - 1))" unfolding l using worth day [of s e "[12304] @ pv_venue_name FSB_SHENYUN @ court @ [12305, 26143, 26399, c, 40]"]
    by (simp add: worth_announcing_def)
  finally have m: "month_day (int i - 1) = month_day 0" by simp
  have "month_day (- 1) \<noteq> month_day 0" "month_day 1 \<noteq> month_day 0" by code_simp+
  then have "i = 1" using i m by (cases "i = 0"; cases "i = 2") auto
  then show ?thesis using l c demo_dates(5) by auto
qed

end
