(* ===== verification/Crland.thy ===== *)
theory Crland
  imports PosPal WechatWorker
begin

text \<open>
  The collector for the venues of CRLand (\<open>venues/szw_watcher.py\<close>): the accounts it rotates through, the
  hours in which it may ask, the requests with their retries, the free time of a court as the complement of its
  booked cells, and the run for one day.
\<close>

section \<open>Venues\<close>

record booking_area =
  ba_project_uuid :: pystr
  ba_field_area_uuid :: pystr
  ba_start_time :: pystr
  ba_end_time :: pystr
  ba_court_name_prefix :: pystr

record crland_venue =
  cl_venue_id :: pystr
  cl_venue_name :: pystr
  cl_booking_areas :: "booking_area list"
  cl_cache_key :: pystr
  cl_dag_id :: pystr
  cl_inspection_interval_minutes :: int
  cl_weekday_wechat_hours :: "int \<times> int"
  cl_weekend_wechat_hours :: "int \<times> int"

definition SZW_VENUE :: crland_venue where
  "SZW_VENUE = \<lparr>cl_venue_id = u ''szw'', cl_venue_name = [28145, 22323, 28286],
     cl_booking_areas =
       [\<lparr>ba_project_uuid = u ''3a59e62a07f811f1bec0aeefcf2e061a'', ba_field_area_uuid = u ''b7f8a0770a4d11f198f45a68b1262c30'',
         ba_start_time = u ''08:30'', ba_end_time = u ''22:30'', ba_court_name_prefix = []\<rparr>,
        \<lparr>ba_project_uuid = u ''3a59e62a07f811f1bec0aeefcf2e061a'', ba_field_area_uuid = u ''71abff5590af11f195a452a64e4c2bdc'',
         ba_start_time = u ''07:30'', ba_end_time = u ''22:30'', ba_court_name_prefix = [39118, 38632, 22330]\<rparr>],
     cl_cache_key = [28145, 22323, 28286, 32593, 29699, 22330], cl_dag_id = [28145, 22323, 28286, 32593, 29699, 22330, 24033, 26816],
     cl_inspection_interval_minutes = 2, cl_weekday_wechat_hours = (18, 22), cl_weekend_wechat_hours = (16, 22)\<rparr>"

definition GBA_VENUE :: crland_venue where
  "GBA_VENUE = \<lparr>cl_venue_id = u ''gba'', cl_venue_name = [22823, 28286, 21306, 32593, 29699, 22330],
     cl_booking_areas =
       [\<lparr>ba_project_uuid = u ''0ddda9c33d4e11f1b51c2273436a3e4e'', ba_field_area_uuid = u ''cec42d973dee11f1b51c2273436a3e4e'',
         ba_start_time = u ''09:00'', ba_end_time = u ''21:00'', ba_court_name_prefix = []\<rparr>],
     cl_cache_key = [22823, 28286, 21306, 32593, 29699, 22330], cl_dag_id = [22823, 28286, 21306, 32593, 29699, 22330, 24033, 26816],
     cl_inspection_interval_minutes = 3, cl_weekday_wechat_hours = (18, 21), cl_weekend_wechat_hours = (12, 21)\<rparr>"

definition CRLAND_VENUES :: "(pystr \<times> crland_venue) list" where
  "CRLAND_VENUES = [(u ''szw'', SZW_VENUE), (u ''gba'', GBA_VENUE)]"

definition CRLAND_REQUEST_ATTEMPTS :: nat where
  [py_eval]: "CRLAND_REQUEST_ATTEMPTS = 3"

definition CRLAND_AUTHORIZATION_POOL_SIZE :: nat where
  [py_eval]: "CRLAND_AUTHORIZATION_POOL_SIZE = 3"

definition crland_inspection_is_open :: "instant \<Rightarrow> bool" where
  [py_eval]: "crland_inspection_is_open now \<longleftrightarrow>
     hours 8 \<le> (now + shanghai_offset) mod days 1 \<and> (now + shanghai_offset) mod days 1 < hours 21"

section \<open>Accounts\<close>

datatype auth_error = NotConfigured | BadFormat | NotAJwt | MalformedJwt | TokenExpired
  | PoolNotArray | PoolSize | NoAccountIdentifier | AccountsNotDistinct | BadInterval | BadSchedule

text \<open>
  The JSON value of a segment of a token: base64, UTF-8 and JSON in turn, \<open>None\<close> where one of them
  raises. It is an argument, as is the JSON reader for the stored pool.
\<close>

type_synonym segment_decoder = "pystr \<Rightarrow> pyval option"

definition token_char :: "nat \<Rightarrow> bool" where
  [py_eval]: "token_char c \<longleftrightarrow> 65 \<le> c \<and> c \<le> 90 \<or> 97 \<le> c \<and> c \<le> 122 \<or> is_ascii_digit c \<or> c = 95 \<or> c = 45"

text \<open>A number that is no \<open>bool\<close>: \<open>exp\<close> of a token. An integer beyond the floats makes \<open>isfinite\<close> raise.\<close>

definition numeric :: "pyval \<Rightarrow> rat option" where
  [py_eval]: "numeric v = (case v of PInt i \<Rightarrow> if \<bar>i\<bar> < 2 ^ 1024 - 2 ^ 970 then Some (of_int i) else None | PFloat r \<Rightarrow> Some r | _ \<Rightarrow> None)"

text \<open>
  The payload of a token, if header, payload and signature are well formed. A signature of letters of
  the alphabet decodes to 32 bytes exactly when it has 43 letters.
\<close>

definition token_expiry :: "segment_decoder \<Rightarrow> pystr \<Rightarrow> rat option" where
  [py_eval]: "token_expiry decode token = (case split_char 46 token of
     [h, p, s] \<Rightarrow>
       (case (decode h, decode p) of
          (Some (PDict header), Some (PDict payload)) \<Rightarrow>
            if dget header (u ''alg'') = PStr (u ''HS256'') \<and> length s = 43
            then Option.bind (map_of payload (u ''exp'')) numeric else None
        | _ \<Rightarrow> None)
   | _ \<Rightarrow> None)"

definition jwt_shape :: "pystr \<Rightarrow> bool" where
  [py_eval]: "jwt_shape token \<longleftrightarrow> length (split_char 46 token) = 3 \<and> list_all (\<lambda>s. s \<noteq> [] \<and> list_all token_char s) (split_char 46 token)"

definition validate_szw_authorization :: "segment_decoder \<Rightarrow> pyval \<Rightarrow> rat \<Rightarrow> auth_error + pystr" where
  "validate_szw_authorization decode authorization now = (case authorization of
     PStr raw \<Rightarrow>
       if strip raw = [] then Inl NotConfigured
       else if 10 \<in> set raw \<or> 13 \<in> set raw then Inl BadFormat
       else
         let a = strip raw;
             token = (if startswith a (u ''Wechat '') then drop 7 a else a)
         in if \<not> startswith a (u ''Wechat '') \<and> 32 \<in> set a then Inl NotAJwt
            else if \<not> jwt_shape token then Inl NotAJwt
            else (case token_expiry decode token of
                    None \<Rightarrow> Inl MalformedJwt
                  | Some expires_at \<Rightarrow> if expires_at \<le> now then Inl TokenExpired else Inr (u ''Wechat '' @ token))
   | _ \<Rightarrow> Inl NotConfigured)"

text \<open>The account a token belongs to, by the claims that name it.\<close>

definition identifiers :: "segment_decoder \<Rightarrow> pystr \<Rightarrow> pystr list" where
  [py_eval]: "identifiers decode authorization =
     (let payload = as_mapping (case decode (split_char 46 authorization ! 1) of Some v \<Rightarrow> v | None \<Rightarrow> PNone)
      in filter (\<lambda>c. c \<noteq> []) (map (\<lambda>k. case dget payload k of PStr c \<Rightarrow> strip c | _ \<Rightarrow> []) [u ''sub'', u ''openid'']))"

fun collect_accounts :: "segment_decoder \<Rightarrow> rat \<Rightarrow> pyval list \<Rightarrow> pystr list \<Rightarrow> pystr list \<Rightarrow> auth_error + pystr list" where
  "collect_accounts decode now [] seen authorizations = Inr authorizations"
| "collect_accounts decode now (v # vs) seen authorizations =
     ebind (validate_szw_authorization decode v now) (\<lambda>a.
       let ids = identifiers decode a in
       if ids = [] then Inl NoAccountIdentifier
       else if set seen \<inter> set ids \<noteq> {} \<or> a \<in> set authorizations then Inl AccountsNotDistinct
       else collect_accounts decode now vs (seen @ ids) (authorizations @ [a]))"

definition validate_szw_authorization_pool :: "segment_decoder \<Rightarrow> (pystr \<Rightarrow> pyval option) \<Rightarrow> pyval \<Rightarrow> rat \<Rightarrow> auth_error + pystr list" where
  "validate_szw_authorization_pool decode loads value now =
     (case (case value of PStr s \<Rightarrow> loads s | v \<Rightarrow> Some v) of
        None \<Rightarrow> Inl PoolNotArray
      | Some (PList pool) \<Rightarrow> if length pool \<noteq> CRLAND_AUTHORIZATION_POOL_SIZE then Inl PoolSize else collect_accounts decode now pool [] []
      | Some _ \<Rightarrow> Inl PoolSize)"

text \<open>When a run was scheduled: not at all, at a time given as text, or at an instant.\<close>

datatype schedule = Unscheduled | ScheduledText pystr | ScheduledAt instant

text \<open>The minute of a round; \<open>now\<close> is \<open>time.time()\<close> in seconds.\<close>

definition round_minute :: "schedule \<Rightarrow> rat \<Rightarrow> auth_error + int" where
  [py_eval]: "round_minute scheduled now = (case scheduled of
     Unscheduled \<Rightarrow> Inr \<lfloor>now / 60\<rfloor>
   | ScheduledAt t \<Rightarrow> Inr (t div minutes 1)
   | ScheduledText s \<Rightarrow> (case datetime_fromisoformat s of
        None \<Rightarrow> Inl BadSchedule
      | Some p \<Rightarrow> Inr (instant_of p div minutes 1)))"

definition select_crland_authorization ::
    "segment_decoder \<Rightarrow> (pystr \<Rightarrow> pyval option) \<Rightarrow> pyval option \<Rightarrow> pyval \<Rightarrow> int \<Rightarrow> schedule \<Rightarrow> rat \<Rightarrow> auth_error + pystr" where
  "select_crland_authorization decode loads pool single interval scheduled now =
     (if interval \<le> 0 then Inl BadInterval
      else case pool of
        None \<Rightarrow> validate_szw_authorization decode single now
      | Some value \<Rightarrow>
          ebind (validate_szw_authorization_pool decode loads value now) (\<lambda>authorizations.
          ebind (round_minute scheduled now) (\<lambda>minute.
            Inr (authorizations ! nat ((minute div interval) mod int (length authorizations))))))"

section \<open>Requests\<close>

datatype crland_reply = CrRaises pystr | CrReply int "pyval option"

datatype crland_error = AuthError auth_error | WindowClosed | AttemptsFailed pystr | BadAnswer pystr | BadTime | DuplicateCourts "pystr list"

text \<open>What one request comes to: an answer, or an error that is worth another try or not.\<close>

datatype attempt_result = Answer pyval | Again pystr | GiveUp pystr

definition safe_code :: "pystr \<Rightarrow> pystr" where
  [py_eval]: "safe_code s = (if s \<noteq> [] \<and> length s \<le> 9 \<and> list_all is_ascii_digit s then s else u ''unknown'')"

definition read_attempt :: "pyenv \<Rightarrow> crland_reply \<Rightarrow> attempt_result" where
  "read_attempt E reply = (case reply of
     CrRaises name \<Rightarrow> Again (u ''request failed ('' @ name @ u '')'')
   | CrReply status body \<Rightarrow>
       if status = 200 then
         (case body of
            None \<Rightarrow> Again (u ''invalid json response'')
          | Some (PDict d) \<Rightarrow>
              if equals_int (dget d (u ''code'')) 200 \<and> truthy (dget d (u ''result'')) then Answer (dget d (u ''result''))
              else GiveUp (u ''api error code='' @ safe_code (py_str E (dget d (u ''code''))))
          | Some _ \<Rightarrow> Again (u ''request failed (AttributeError)''))
       else if status = 403 \<or> status = 429 \<or> 500 \<le> status then Again (u ''http status code='' @ dec status)
       else GiveUp (u ''http status code='' @ dec status))"

text \<open>
  The tries through one proxy from attempt \<open>n\<close> on: when the requests were sent, and how it ended. Before
  every request the clock is read, and outside the hours nothing is sent.
\<close>

fun proxy_attempts :: "pyenv \<Rightarrow> (nat \<Rightarrow> instant) \<Rightarrow> (nat \<Rightarrow> crland_reply) \<Rightarrow> nat \<Rightarrow> nat \<Rightarrow> instant list \<times> (crland_error + attempt_result)" where
  "proxy_attempts E clock reply n 0 = ([], Inr (GiveUp []))"
| "proxy_attempts E clock reply n (Suc left) =
     (if \<not> crland_inspection_is_open (clock n) then ([], Inl WindowClosed)
      else case read_attempt E (reply n) of
        Again e \<Rightarrow>
          if left = 0 then ([clock n], Inr (GiveUp e))
          else (case proxy_attempts E clock reply (Suc n) left of (ts, r) \<Rightarrow> (clock n # ts, r))
      | r \<Rightarrow> ([clock n], Inr r))"

section \<open>Free time\<close>

text \<open>What the reading of an answer uses of Python: iteration, \<open>get\<close>, item access, and keys of a dict.\<close>

definition iterate :: "pyval \<Rightarrow> pystr + pyval list" where
  [py_eval]: "iterate v = (case v of
     PList xs \<Rightarrow> Inr xs | PDict d \<Rightarrow> Inr (map (\<lambda>kv. PStr (fst kv)) d) | PStr s \<Rightarrow> Inr (map (\<lambda>c. PStr [c]) s) | _ \<Rightarrow> Inl (u ''TypeError''))"

definition get_or :: "pyval \<Rightarrow> pystr \<Rightarrow> pyval \<Rightarrow> pystr + pyval" where
  [py_eval]: "get_or v k otherwise = (case v of
     PDict d \<Rightarrow> Inr (case map_of d k of None \<Rightarrow> otherwise | Some x \<Rightarrow> x) | _ \<Rightarrow> Inl (u ''AttributeError''))"

definition item_of :: "pyval \<Rightarrow> pystr \<Rightarrow> pystr + pyval" where
  [py_eval]: "item_of v k = (case v of
     PDict d \<Rightarrow> (case map_of d k of None \<Rightarrow> Inl (u ''KeyError'') | Some x \<Rightarrow> Inr x) | _ \<Rightarrow> Inl (u ''TypeError''))"

text \<open>Numbers that are equal are the same key; lists and dicts are none.\<close>

definition dict_key :: "pyval \<Rightarrow> pystr + pyval" where
  [py_eval]: "dict_key v = (case v of
     PBool b \<Rightarrow> Inr (PFloat (if b then 1 else 0)) | PInt i \<Rightarrow> Inr (PFloat (of_int i))
   | PList _ \<Rightarrow> Inl (u ''TypeError'') | PDict _ \<Rightarrow> Inl (u ''TypeError'') | x \<Rightarrow> Inr x)"

text \<open>\<open>re.search(r"\d{2}:\d{2}", s)\<close>: the first match.\<close>

fun find_clock :: "pystr \<Rightarrow> pystr" where
  "find_clock (a # b # c # d # e # s) =
     (if is_digit a \<and> is_digit b \<and> c = 58 \<and> is_digit d \<and> is_digit e then [a, b, c, d, e] else find_clock (b # c # d # e # s))"
| "find_clock _ = []"

definition extract_time_hhmm :: "pyenv \<Rightarrow> pyval \<Rightarrow> pystr" where
  [py_eval]: "extract_time_hhmm E v = (if truthy v then find_clock (py_str E v) else [])"

text \<open>The names of the courts by the key of their field.\<close>

definition field_names :: "pyenv \<Rightarrow> pystr \<Rightarrow> pyval \<Rightarrow> pystr + (pyval \<times> pystr) list" where
  "field_names E pre result =
     ebind (get_or result (u ''fieldList'') (PList [])) (\<lambda>fields.
     ebind (iterate fields) (\<lambda>items.
     ebind (emap (\<lambda>item. ebind (item_of item (u ''fieldUuid'')) (\<lambda>uuid. ebind (item_of item (u ''fieldName'')) (\<lambda>name.
              ebind (dict_key uuid) (\<lambda>key. Inr (key, pre @ py_str E name))))) items) (\<lambda>kvs. Inr (dict_of kvs))))"

text \<open>What a cell adds to the booked ranges of its court: a range, or nothing when it can be reserved or has no times.\<close>

definition booked_cell :: "pyenv \<Rightarrow> pyval \<Rightarrow> pystr + time_range option" where
  "booked_cell E cell =
     ebind (get_or cell (u ''isAbleReserve'') PNone) (\<lambda>able.
       if truthy able then Inr None
       else ebind (get_or cell (u ''startTime'') (PStr [])) (\<lambda>s. ebind (get_or cell (u ''endTime'') (PStr [])) (\<lambda>e.
         if length (extract_time_hhmm E s) \<noteq> 5 \<or> length (extract_time_hhmm E e) \<noteq> 5 then Inr None
         else Inr (Some (extract_time_hhmm E s, extract_time_hhmm E e)))))"

definition booked_row :: "pyenv \<Rightarrow> (pyval \<times> pystr) list \<Rightarrow> pyval \<Rightarrow> pystr + (pystr \<times> time_range list) option" where
  "booked_row E names row =
     ebind (get_or row (u ''fieldUuid'') PNone) (\<lambda>uuid. ebind (dict_key uuid) (\<lambda>key.
       case map_of names key of
         None \<Rightarrow> Inr None
       | Some name \<Rightarrow>
           if name = [] then Inr None
           else ebind (get_or row (u ''matrix'') (PList [])) (\<lambda>cells. ebind (iterate cells) (\<lambda>items.
             ebind (emap (booked_cell E) items) (\<lambda>rs. Inr (Some (name, somes rs)))))))"

text \<open>The booked ranges per court, in the order the courts come up.\<close>

definition add_booked :: "pystr \<times> time_range list \<Rightarrow> court_data \<Rightarrow> court_data" where
  [py_eval]: "add_booked row booked = dict_put (fst row) ((case map_of booked (fst row) of None \<Rightarrow> [] | Some rs \<Rightarrow> rs) @ snd row) booked"

definition booked_courts :: "pyenv \<Rightarrow> pystr \<Rightarrow> pyval \<Rightarrow> pystr + court_data" where
  "booked_courts E pre result =
     ebind (field_names E pre result) (\<lambda>names.
     ebind (get_or result (u ''matrix'') (PList [])) (\<lambda>matrix.
     ebind (iterate matrix) (\<lambda>rows.
     ebind (emap (booked_row E names) rows) (\<lambda>xs. Inr (fold add_booked (somes xs) [])))))"

definition free_court :: "time_range \<Rightarrow> pystr \<times> time_range list \<Rightarrow> crland_error + pystr \<times> time_range list" where
  [py_eval]: "free_court window c = (case find_available_slots (snd c) window of Inl _ \<Rightarrow> Inl BadTime | Inr rs \<Rightarrow> Inr (fst c, rs))"

definition free_courts :: "pyenv \<Rightarrow> pystr \<Rightarrow> time_range \<Rightarrow> pyval \<Rightarrow> crland_error + court_data" where
  "free_courts E pre window result = (case booked_courts E pre result of
     Inl e \<Rightarrow> Inl (BadAnswer e)
   | Inr booked \<Rightarrow> ebind (emap (free_court window) booked) (\<lambda>cs. Inr (filter (\<lambda>c. snd c \<noteq> []) cs)))"

section \<open>The run for a day\<close>

text \<open>
  What a run finds outside. \<open>cw_clock a n\<close> is the time at which area \<open>a\<close> is about to send request \<open>n\<close>
  (0: when it starts with the area), \<open>cw_end\<close> the time when everything was read, \<open>cw_year\<close> the current
  year; times as seconds are what \<open>time.time()\<close> gives.
\<close>

record crland_world =
  cw_now :: instant
  cw_seconds :: "nat \<Rightarrow> rat"
  cw_schedule :: schedule
  cw_pool :: "pyval option"
  cw_single :: pyval
  cw_clock :: "nat \<Rightarrow> nat \<Rightarrow> instant"
  cw_reply :: "booking_area \<Rightarrow> nat \<Rightarrow> crland_reply"
  cw_end :: instant
  cw_year :: int
  cw_chat_names :: pyval
  cw_device :: pystr
  cw_host :: host_api

text \<open>
  \<open>get_free_tennis_court_infos_for_szw\<close> for the area at position \<open>a\<close>, without a proxy as the run calls it:
  when requests were sent, and the free courts.
\<close>

definition get_free_tennis_court_infos_for_szw ::
    "pyenv \<Rightarrow> segment_decoder \<Rightarrow> crland_world \<Rightarrow> pystr \<Rightarrow> nat \<Rightarrow> booking_area \<Rightarrow> instant list \<times> (crland_error + court_data)" where
  "get_free_tennis_court_infos_for_szw E decode world authorization a area =
     (if \<not> crland_inspection_is_open (cw_clock world a 0) then ([], Inl WindowClosed)
      else case validate_szw_authorization decode (PStr authorization) (cw_seconds world (Suc a)) of
        Inl e \<Rightarrow> ([], Inl (AuthError e))
      | Inr _ \<Rightarrow>
          (case proxy_attempts E (\<lambda>n. cw_clock world a (Suc n)) (cw_reply world area) 0 CRLAND_REQUEST_ATTEMPTS of (sent, r) \<Rightarrow>
             (sent, ebind r (\<lambda>x. case x of
                Answer result \<Rightarrow> free_courts E (ba_court_name_prefix area) (ba_start_time area, ba_end_time area) result
              | Again e \<Rightarrow> Inl (AttemptsFailed e)
              | GiveUp e \<Rightarrow> Inl (AttemptsFailed e)))))"

text \<open>The areas in turn: two areas may not name the same court.\<close>

fun collect_areas ::
    "pyenv \<Rightarrow> segment_decoder \<Rightarrow> crland_world \<Rightarrow> pystr \<Rightarrow> nat \<Rightarrow> booking_area list \<Rightarrow> court_data \<Rightarrow> instant list \<times> (crland_error + court_data)" where
  "collect_areas E decode world authorization a [] courts = ([], Inr courts)"
| "collect_areas E decode world authorization a (area # areas) courts =
     (case get_free_tennis_court_infos_for_szw E decode world authorization a area of
        (sent, Inl e) \<Rightarrow> (sent, Inl e)
      | (sent, Inr data) \<Rightarrow>
          let twice = filter (\<lambda>c. c \<in> set (map fst data)) (map fst courts) in
          if twice \<noteq> [] then (sent, Inl (DuplicateCourts (sort twice)))
          else (case collect_areas E decode world authorization (Suc a) areas (courts @ data) of (later, r) \<Rightarrow> (sent @ later, r)))"

definition slot_in_wechat_window :: "time_range \<Rightarrow> pydate \<Rightarrow> crland_venue \<Rightarrow> bool option" where
  [py_eval]: "slot_in_wechat_window slot d venue =
     (let hours = (if 5 \<le> isoweekday d - 1 then cl_weekend_wechat_hours venue else cl_weekday_wechat_hours venue)
      in map_option (\<lambda>h. fst hours \<le> h \<and> h < snd hours) (py_int_of_str (hd (split_char 58 (fst slot)))))"

definition announce_court :: "crland_venue \<Rightarrow> pydate \<Rightarrow> pystr \<times> time_range list \<Rightarrow> crland_error + notification_court option" where
  "announce_court venue d c =
     ebind (emap (\<lambda>slot. case slot_in_wechat_window slot d venue of None \<Rightarrow> Inl BadTime | Some b \<Rightarrow> Inr b) (snd c)) (\<lambda>bs.
       let rs = map fst (filter snd (zip (snd c) bs)) in
       Inr (if rs = [] then None else Some \<lparr>nc_date = month_day d, nc_court_name = cl_venue_name venue @ fst c, nc_free_slots = rs\<rparr>))"

text \<open>Everything of the run that is guarded by its handler: when requests were sent, the courts published and announced.\<close>

definition inspect_day ::
    "pyenv \<Rightarrow> segment_decoder \<Rightarrow> (pystr \<Rightarrow> pyval option) \<Rightarrow> crland_venue \<Rightarrow> crland_world \<Rightarrow> pydate
     \<Rightarrow> instant list \<times> (crland_error + web_slot list \<times> notification_court list) \<times> web_slot list" where
  "inspect_day E decode loads venue world d =
     (case select_crland_authorization decode loads (cw_pool world) (cw_single world) (cl_inspection_interval_minutes venue) (cw_schedule world) (cw_seconds world 0) of
        Inl e \<Rightarrow> ([], Inl (AuthError e), [])
      | Inr authorization \<Rightarrow>
          (case collect_areas E decode world authorization 0 (cl_booking_areas venue) [] of
             (sent, Inl e) \<Rightarrow> (sent, Inl e, [])
           | (sent, Inr courts) \<Rightarrow>
               let slots = flatten_court_slots (isoformat d) courts in
               (sent, ebind (emap (announce_court venue d) courts) (\<lambda>ns.
                  if crland_inspection_is_open (cw_end world) then Inr (slots, somes ns) else Inl WindowClosed), slots)))"

text \<open>\<open>line not in stored\<close> for a stored value, which need not be a list.\<close>

definition stored_has :: "pyval \<Rightarrow> pystr \<Rightarrow> pystr + bool" where
  [py_eval]: "stored_has stored l = (case stored of
     PList items \<Rightarrow> Inr (PStr l \<in> set items)
   | PDict d \<Rightarrow> Inr (l \<in> set (map fst d))
   | PStr s \<Rightarrow> Inr (contains s l)
   | _ \<Rightarrow> Inl (u ''TypeError''))"

record crland_effects =
  ce_requests :: "instant list"
  ce_slots :: "web_slot list"
  ce_healthy :: bool
  ce_error :: "crland_error option"
  ce_message :: "pystr option"

text \<open>
  The run: what is stored as announced, what the run did, and whether it ended with an exception. Outside the
  hours, and when they end while the run is under way, it publishes that nothing is free.
\<close>

definition crland_announce ::
    "pyenv \<Rightarrow> crland_venue \<Rightarrow> crland_world \<Rightarrow> notification_court list \<Rightarrow> pyval \<Rightarrow> pystr + pyval \<times> pystr option" where
  "crland_announce E venue world ns stored = (case build_new_notifications ns [] (cw_year world) of
     Inl _ \<Rightarrow> Inl (u ''ValueError'')
   | Inr all_lines \<Rightarrow>
       ebind (emap (stored_has stored) all_lines) (\<lambda>known.
         let new = map fst (filter (\<lambda>p. \<not> snd p) (zip all_lines known)) in
         if new = [] then Inr (stored, None)
         else case stored of
           PList items \<Rightarrow>
             let kept = PList (last_items 100 (items @ map PStr new));
                 released = send_wechat_text_to_chatrooms_best_effort E (cw_host world) (PList (map PStr (splitlines (py_str E (cw_chat_names world)))))
                   (join [10] new) (cw_device world) (cl_dag_id venue) (cl_venue_id venue)
             in Inr (release_stored E (cl_venue_id venue) (cl_cache_key venue) released kept, Some (join [10] new))
         | _ \<Rightarrow> Inl (u ''AttributeError'')))"

definition crland_idle :: "instant list \<Rightarrow> crland_effects" where
  [py_eval]: "crland_idle sent = \<lparr>ce_requests = sent, ce_slots = [], ce_healthy = True, ce_error = None, ce_message = None\<rparr>"

definition check_venue_for_day ::
    "pyenv \<Rightarrow> segment_decoder \<Rightarrow> (pystr \<Rightarrow> pyval option) \<Rightarrow> crland_venue \<Rightarrow> crland_world \<Rightarrow> int \<Rightarrow> pyval \<Rightarrow> pyval \<times> crland_effects \<times> bool" where
  "check_venue_for_day E decode loads venue world day_offset stored =
     (if \<not> crland_inspection_is_open (cw_now world) then (stored, crland_idle [], False)
      else case inspect_day E decode loads venue world (shanghai_date (cw_now world) + day_offset) of
        (sent, Inl WindowClosed, slots) \<Rightarrow> (stored, crland_idle sent, False)
      | (sent, Inl e, slots) \<Rightarrow> (stored, \<lparr>ce_requests = sent, ce_slots = slots, ce_healthy = False, ce_error = Some e, ce_message = None\<rparr>, True)
      | (sent, Inr (slots, ns), _) \<Rightarrow>
          let observed = \<lparr>ce_requests = sent, ce_slots = slots, ce_healthy = True, ce_error = None, ce_message = None\<rparr> in
          if ns = [] then (stored, observed, False)
          else (case crland_announce E venue world ns stored of
                  Inl _ \<Rightarrow> (stored, observed, True)
                | Inr (stored', message) \<Rightarrow> (stored', observed\<lparr>ce_message := message\<rparr>, False)))"

text \<open>\<open>None\<close>: no venue has that key, which raises.\<close>

definition check_and_notify_for_day ::
    "pyenv \<Rightarrow> segment_decoder \<Rightarrow> (pystr \<Rightarrow> pyval option) \<Rightarrow> pystr \<Rightarrow> crland_world \<Rightarrow> int \<Rightarrow> pyval \<Rightarrow> (pyval \<times> crland_effects \<times> bool) option" where
  "check_and_notify_for_day E decode loads venue_key world day_offset stored =
     map_option (\<lambda>venue. check_venue_for_day E decode loads venue world day_offset stored) (map_of CRLAND_VENUES venue_key)"

end
