(* ===== verification/CrlandLaws.thy ===== *)
theory CrlandLaws
  imports Crland CollectorLaws DomainLaws
begin

text \<open>
  Laws of the collector for the venues of CRLand: it sends requests only within its hours and only a few of them,
  it uses its accounts in turn, and the free time it reads from an answer is the opening time less the booked cells.
\<close>

section \<open>Requests\<close>

lemma proxy_attempts_sent:
  "proxy_attempts E clock reply n left = (ts, r) \<Longrightarrow> list_all crland_inspection_is_open ts \<and> length ts \<le> left"
proof (induction E clock reply n left arbitrary: ts r rule: proxy_attempts.induct)
  case (2 E clock reply n left)
  then show ?case by (cases "read_attempt E (reply n)") (auto split: if_splits prod.splits)
qed simp

lemma area_sent:
  assumes "get_free_tennis_court_infos_for_szw E decode world authorization a area = (ts, r)"
  shows "list_all crland_inspection_is_open ts \<and> length ts \<le> 3"
proof -
  obtain ts' r' where p: "proxy_attempts E (\<lambda>n. cw_clock world a (Suc n)) (cw_reply world area) 0 CRLAND_REQUEST_ATTEMPTS = (ts', r')"
    by (cases "proxy_attempts E (\<lambda>n. cw_clock world a (Suc n)) (cw_reply world area) 0 CRLAND_REQUEST_ATTEMPTS")
  have "ts = [] \<or> ts = ts'"
    using assms p by (auto simp: get_free_tennis_court_infos_for_szw_def split: if_splits sum.splits)
  then show ?thesis using proxy_attempts_sent [OF p] by (auto simp: CRLAND_REQUEST_ATTEMPTS_def)
qed

lemma areas_sent:
  "collect_areas E decode world authorization a areas courts = (ts, r)
   \<Longrightarrow> list_all crland_inspection_is_open ts \<and> length ts \<le> 3 * length areas"
proof (induction E decode world authorization a areas courts arbitrary: ts r rule: collect_areas.induct)
  case (2 E decode world authorization a area areas courts)
  obtain sent q where g: "get_free_tennis_court_infos_for_szw E decode world authorization a area = (sent, q)"
    by (cases "get_free_tennis_court_infos_for_szw E decode world authorization a area")
  note s = area_sent [OF g]
  show ?case
  proof (cases q)
    case (Inl e)
    with "2.prems" g s show ?thesis by auto
  next
    case (Inr data)
    let ?twice = "filter (\<lambda>c. c \<in> set (map fst data)) (map fst courts)"
    show ?thesis
    proof (cases "?twice = []")
      case True
      obtain later r' where m: "collect_areas E decode world authorization (Suc a) areas (courts @ data) = (later, r')"
        by (cases "collect_areas E decode world authorization (Suc a) areas (courts @ data)")
      have "ts = sent @ later" using "2.prems" g Inr True m by (simp add: Let_def)
      then show ?thesis using s "2.IH" [OF g [symmetric] Inr refl, of later r'] True m by auto
    next
      case False
      then have "ts = sent" using "2.prems" g Inr by (auto simp: Let_def)
      then show ?thesis using s by auto
    qed
  qed
qed simp

lemma inspect_day_sent:
  assumes "inspect_day E decode loads venue world d = (ts, r, slots)"
  shows "list_all crland_inspection_is_open ts" "length ts \<le> 3 * length (cl_booking_areas venue)"
    and "r = Inr (slots', ns) \<Longrightarrow> crland_inspection_is_open (cw_end world)"
proof -
  have *: "(ts = [] \<or> (\<exists>authorization r'. collect_areas E decode world authorization 0 (cl_booking_areas venue) [] = (ts, r')))
      \<and> (\<forall>slots' ns. r = Inr (slots', ns) \<longrightarrow> crland_inspection_is_open (cw_end world))"
    using assms unfolding inspect_day_def Let_def
    by (auto simp: ebind_def split: sum.splits prod.splits if_splits)
  then show "list_all crland_inspection_is_open ts" "length ts \<le> 3 * length (cl_booking_areas venue)"
    using areas_sent by fastforce+
  show "r = Inr (slots', ns) \<Longrightarrow> crland_inspection_is_open (cw_end world)" using * by blast
qed

text \<open>C13: The CRLand collector keeps to its hours and to its tries. Whatever the clock does between the steps of a run, every request it
  sends is sent between 08:00 and 21:00 in Shanghai, there are at most three per booking area, and courts are published as
  free in good health, or announced in the chats, only when the hours had not ended once everything was read.\<close>

theorem crland_requests_in_hours:
  assumes "check_and_notify_for_day E decode loads venue_key world day_offset stored = Some (stored', effects, raised)"
    and venue: "map_of CRLAND_VENUES venue_key = Some venue"
  shows "list_all crland_inspection_is_open (ce_requests effects)
    \<and> length (ce_requests effects) \<le> 3 * length (cl_booking_areas venue)
    \<and> (ce_slots effects \<noteq> [] \<and> ce_healthy effects \<or> ce_message effects \<noteq> None \<longrightarrow> crland_inspection_is_open (cw_end world))"
proof -
  obtain ts r slots where i: "inspect_day E decode loads venue world (shanghai_date (cw_now world) + day_offset) = (ts, r, slots)"
    by (cases "inspect_day E decode loads venue world (shanghai_date (cw_now world) + day_offset)") auto
  note day = inspect_day_sent [OF i]
  have "ce_requests effects \<in> {[], ts} \<and> (ce_slots effects \<noteq> [] \<and> ce_healthy effects \<or> ce_message effects \<noteq> None
      \<longrightarrow> (\<exists>slots' ns. r = Inr (slots', ns)))"
    using assms i unfolding check_and_notify_for_day_def check_venue_for_day_def Let_def
    by (auto simp: crland_idle_def split: if_splits sum.splits prod.splits crland_error.splits)
  then show ?thesis using day by (auto simp del: split_paired_Ex)
qed

section \<open>Accounts\<close>

lemma collect_accounts_spec:
  "collect_accounts decode now vs seen authorizations = Inr accounts \<Longrightarrow>
   \<exists>later. accounts = authorizations @ later \<and> length later = length vs
     \<and> list_all (\<lambda>a. identifiers decode a \<noteq> []) later
     \<and> (\<forall>a \<in> set later. set seen \<inter> set (identifiers decode a) = {} \<and> a \<notin> set authorizations)
     \<and> distinct later \<and> sorted_wrt (\<lambda>a b. set (identifiers decode a) \<inter> set (identifiers decode b) = {}) later"
proof (induction decode now vs seen authorizations rule: collect_accounts.induct)
  case (2 decode now v vs seen authorizations)
  from "2.prems" obtain a where a: "validate_szw_authorization decode v now = Inr a" "identifiers decode a \<noteq> []"
    "set seen \<inter> set (identifiers decode a) = {}" "a \<notin> set authorizations"
    and rest: "collect_accounts decode now vs (seen @ identifiers decode a) (authorizations @ [a]) = Inr accounts"
    by (auto simp: ebind_def Let_def split: sum.splits if_splits)
  from "2.IH" [OF refl a(2)] a(3,4) rest obtain later where m: "accounts = (authorizations @ [a]) @ later" "length later = length vs"
    "list_all (\<lambda>a. identifiers decode a \<noteq> []) later"
    "\<forall>b \<in> set later. set (seen @ identifiers decode a) \<inter> set (identifiers decode b) = {} \<and> b \<notin> set (authorizations @ [a])"
    "distinct later" "sorted_wrt (\<lambda>a b. set (identifiers decode a) \<inter> set (identifiers decode b) = {}) later"
    by auto
  then show ?case using a by (intro exI [of _ "a # later"]) auto
qed simp

lemma valid_pool:
  assumes "validate_szw_authorization_pool decode loads value now = Inr accounts"
  shows "length accounts = 3" "distinct accounts" "list_all (\<lambda>a. identifiers decode a \<noteq> []) accounts"
    "sorted_wrt (\<lambda>a b. set (identifiers decode a) \<inter> set (identifiers decode b) = {}) accounts"
proof -
  obtain pool where "length pool = 3" "collect_accounts decode now pool [] [] = Inr accounts"
    using assms by (auto simp: validate_szw_authorization_pool_def CRLAND_AUTHORIZATION_POOL_SIZE_def
        split: option.splits pyval.splits if_splits)
  then show "length accounts = 3" "distinct accounts" "list_all (\<lambda>a. identifiers decode a \<noteq> []) accounts"
    "sorted_wrt (\<lambda>a b. set (identifiers decode a) \<inter> set (identifiers decode b) = {}) accounts"
    using collect_accounts_spec [of decode now pool "[]" "[]" accounts] by auto
qed

abbreviation round_of :: "int \<Rightarrow> instant \<Rightarrow> int" where
  "round_of interval t \<equiv> t div minutes interval"

lemma select_scheduled:
  assumes "validate_szw_authorization_pool decode loads value now = Inr accounts" "0 < interval"
  shows "select_crland_authorization decode loads (Some value) single interval (ScheduledAt t) now = Inr (accounts ! nat (round_of interval t mod 3))"
proof -
  have "t div minutes 1 div interval = t div minutes interval"
    using assms(2) by (simp add: minutes_def seconds_def zdiv_zmult2_eq [symmetric])
  then show ?thesis using assms valid_pool(1) [OF assms(1)] by (simp add: select_crland_authorization_def round_minute_def)
qed

lemma three_in_turn:
  assumes "length xs = 3"
  shows "{xs ! nat (k mod 3), xs ! nat ((k + 1) mod 3), xs ! nat ((k + 2) mod (3 :: int))} = set xs"
proof -
  obtain a b c where xs: "xs = [a, b, c]" using assms by (auto simp: numeral_3_eq_3 length_Suc_conv)
  have "k mod 3 = 0 \<and> (k + 1) mod 3 = 1 \<and> (k + 2) mod 3 = 2 \<or> k mod 3 = 1 \<and> (k + 1) mod 3 = 2 \<and> (k + 2) mod 3 = 0
    \<or> k mod 3 = 2 \<and> (k + 1) mod 3 = 0 \<and> (k + 2) mod 3 = 1" by presburger
  then show ?thesis unfolding xs by (elim disjE) auto
qed

text \<open>C14: The collector uses its accounts in turn. A pool that is accepted holds three accounts with no identifier in common, so
  they belong to three people; every task of the same interval, whenever it really runs, gets the same account, and
  three intervals in a row use each of the three once.\<close>

theorem crland_accounts_rotate:
  assumes "validate_szw_authorization_pool decode loads value now = Inr accounts" "0 < interval"
  shows "let account = (\<lambda>t. select_crland_authorization decode loads (Some value) single interval (ScheduledAt t) now) in
    card (set accounts) = 3 \<and> sorted_wrt (\<lambda>a b. set (identifiers decode a) \<inter> set (identifiers decode b) = {}) accounts
    \<and> list_all (\<lambda>a. identifiers decode a \<noteq> []) accounts
    \<and> (t div minutes interval = t' div minutes interval \<longrightarrow> account t = account t')
    \<and> {account t, account (t + minutes interval), account (t + 2 * minutes interval)} = Inr ` set accounts"
proof -
  note pool = valid_pool [OF assms(1)]
  have pos: "minutes interval \<noteq> 0" using assms(2) by (simp add: minutes_def seconds_def)
  have "round_of interval (t + minutes interval) = round_of interval t + 1"
    "round_of interval (t + 2 * minutes interval) = round_of interval t + 2"
    using pos div_mult_self2 [of "minutes interval" t 1] div_mult_self2 [of "minutes interval" t 2] by simp_all
  then show ?thesis
    using pool distinct_card [OF pool(2)] three_in_turn [OF pool(1), of "round_of interval t"]
    by (auto simp: Let_def select_scheduled [OF assms])
qed

section \<open>Free time\<close>

definition covers :: "time_range \<Rightarrow> int \<Rightarrow> bool" where
  [py_eval]: "covers r m \<longleftrightarrow> (case range_to_minutes r of Inl _ \<Rightarrow> False | Inr (s, e) \<Rightarrow> s \<le> m \<and> m < e)"

text \<open>Minute \<open>m\<close> belongs to a range listed for court \<open>c\<close>.\<close>

definition court_minute :: "court_data \<Rightarrow> pystr \<Rightarrow> int \<Rightarrow> bool" where
  [py_eval]: "court_minute courts c m \<longleftrightarrow> (\<exists>(c', rs) \<in> set courts. c' = c \<and> (\<exists>r \<in> set rs. covers r m))"

definition ranges_at :: "court_data \<Rightarrow> pystr \<Rightarrow> time_range set" where
  "ranges_at courts c = {r. \<exists>rs. (c, rs) \<in> set courts \<and> r \<in> set rs}"

lemma court_minute_ranges: "court_minute courts c m \<longleftrightarrow> (\<exists>r \<in> ranges_at courts c. covers r m)"
  by (auto simp: court_minute_def ranges_at_def)

lemma ranges_at_Cons: "ranges_at (row # courts) c = (if fst row = c then set (snd row) else {}) \<union> ranges_at courts c"
  by (cases row) (auto simp: ranges_at_def)

lemma ranges_at_map_of: "distinct (map fst courts) \<Longrightarrow> ranges_at courts c = (case map_of courts c of None \<Rightarrow> {} | Some rs \<Rightarrow> set rs)"
  by (auto simp: ranges_at_def map_of_eq_None_iff image_iff split: option.splits dest: map_of_SomeD)
     (metis eq_key_imp_eq_value map_of_SomeD)

lemma add_booked_keys: "fst ` set (add_booked row acc) = insert (fst row) (fst ` set acc)" "distinct (map fst acc) \<Longrightarrow> distinct (map fst (add_booked row acc))"
proof -
  have "map fst (add_booked row acc) = (if fst row \<in> fst ` set acc then map fst acc else map fst acc @ [fst row])"
    by (simp add: add_booked_def dict_put_keys)
  then show "fst ` set (add_booked row acc) = insert (fst row) (fst ` set acc)" "distinct (map fst acc) \<Longrightarrow> distinct (map fst (add_booked row acc))"
    by (auto simp: set_map [symmetric] simp del: set_map split: if_splits)
qed

lemma booked_fold:
  assumes "distinct (map fst acc)"
  shows "distinct (map fst (fold add_booked rows acc)) \<and> fst ` set (fold add_booked rows acc) = fst ` set acc \<union> fst ` set rows
    \<and> ranges_at (fold add_booked rows acc) c = ranges_at acc c \<union> ranges_at rows c"
  using assms
proof (induction rows arbitrary: acc)
  case Nil
  then show ?case by (simp add: ranges_at_def)
next
  case (Cons row rows)
  note d = add_booked_keys(2) [OF Cons.prems, of row]
  have "ranges_at (add_booked row acc) c = ranges_at acc c \<union> (if fst row = c then set (snd row) else {})"
    unfolding ranges_at_map_of [OF d] ranges_at_map_of [OF Cons.prems] by (auto simp: add_booked_def split: option.splits)
  then show ?case using Cons.IH [OF d] by (simp add: add_booked_keys(1) ranges_at_Cons Un_ac)
qed

text \<open>A booked range that can be read, within the day, that starts no later than the court closes.\<close>

definition sane_range :: "int \<Rightarrow> time_range \<Rightarrow> bool" where
  [py_eval]: "sane_range until r \<longleftrightarrow> (case range_to_minutes r of Inl _ \<Rightarrow> False | Inr p \<Rightarrow> in_day p \<and> fst p \<le> until)"

lemma covers_read: "emap range_to_minutes rs = Inr ms \<Longrightarrow> (\<exists>r \<in> set rs. covers r m) \<longleftrightarrow> m \<in> minute_set ms"
  unfolding emap_Inr_iff by (induction rs ms rule: list_all2_induct) (auto simp: covers_def)

lemma sane_read:
  assumes "list_all (sane_range until) bs"
  obtains rs where "emap range_to_minutes bs = Inr rs" "list_all in_day rs" "list_all (\<lambda>r. fst r \<le> until) rs"
proof -
  have "\<exists>rs. emap range_to_minutes bs = Inr rs \<and> list_all in_day rs \<and> list_all (\<lambda>r. fst r \<le> until) rs"
    using assms by (induction bs) (auto simp: sane_range_def split: sum.splits)
  then show ?thesis using that by blast
qed

lemma free_court_exact:
  assumes "list_all (sane_range until) bs" "range_to_minutes window = Inr (first, until)" "in_day (first, until)" "first < until"
  obtains out where "free_court window (c, bs) = Inr (c, out)"
    "\<And>m. (\<exists>r \<in> set out. covers r m) \<longleftrightarrow> first \<le> m \<and> m < until \<and> \<not> (\<exists>r \<in> set bs. covers r m)"
proof -
  obtain rs where rs: "emap range_to_minutes bs = Inr rs" "list_all in_day rs" "list_all (\<lambda>r. fst r \<le> until) rs"
    using sane_read [OF assms(1)] .
  then obtain out ms where o: "find_available_slots bs window = Inr out" "emap range_to_minutes out = Inr ms"
    "minute_set ms = {first..<until} - minute_set rs"
    using free_time_complements_bookings [OF rs(1) assms(2) rs(2) assms(3,4) rs(3)] by blast
  show ?thesis
  proof (rule that [of out])
    show "free_court window (c, bs) = Inr (c, out)" using o(1) by (simp add: free_court_def)
    show "(\<exists>r \<in> set out. covers r m) \<longleftrightarrow> first \<le> m \<and> m < until \<and> \<not> (\<exists>r \<in> set bs. covers r m)" for m
      using o(3) by (auto simp: covers_read [OF o(2)] covers_read [OF rs(1)])
  qed
qed

lemma free_courts_exact:
  assumes "distinct (map fst booked)" "list_all (\<lambda>c. list_all (sane_range until) (snd c)) booked"
    and "range_to_minutes window = Inr (first, until)" "in_day (first, until)" "first < until"
  shows "\<exists>cs. emap (free_court window) booked = Inr cs \<and> map fst cs = map fst booked
    \<and> (\<forall>c \<in> fst ` set booked. \<forall>m. court_minute cs c m \<longleftrightarrow> first \<le> m \<and> m < until \<and> \<not> court_minute booked c m)"
  using assms(1,2)
proof (induction booked)
  case (Cons b booked)
  obtain c bs where b: "b = (c, bs)" by (cases b)
  obtain out where out: "free_court window (c, bs) = Inr (c, out)"
    "\<And>m. (\<exists>r \<in> set out. covers r m) \<longleftrightarrow> first \<le> m \<and> m < until \<and> \<not> (\<exists>r \<in> set bs. covers r m)"
    using free_court_exact [of until bs window first c] Cons.prems assms(3-5) b by auto
  obtain cs where cs: "emap (free_court window) booked = Inr cs" "map fst cs = map fst booked"
    "\<forall>c \<in> fst ` set booked. \<forall>m. court_minute cs c m \<longleftrightarrow> first \<le> m \<and> m < until \<and> \<not> court_minute booked c m"
    using Cons.IH Cons.prems by auto
  have new: "c \<notin> fst ` set booked" "c \<notin> fst ` set cs" using Cons.prems b cs(2) by (auto simp flip: set_map)
  have none: "\<not> court_minute cs c m" "\<not> court_minute booked c m" for m using new by (force simp: court_minute_def)+
  have step: "court_minute ((c, xs) # courts) c' m \<longleftrightarrow> c = c' \<and> (\<exists>r \<in> set xs. covers r m) \<or> court_minute courts c' m" for xs courts c' m
    by (auto simp: court_minute_def)
  show ?case
    using cs out(1) b new none by (intro exI [of _ "(c, out) # cs"]) (auto simp: step out(2))
qed simp

text \<open>The courts that are found, from the booked ranges read off the rows.\<close>

lemma free_courts_listed:
  assumes "field_names E pre result = Inr names" "get_or result (u ''matrix'') (PList []) = Inr matrix" "iterate matrix = Inr rows"
    and "emap (booked_row E names) rows = Inr xs" "list_all (\<lambda>c. list_all (sane_range until) (snd c)) (somes xs)"
    and "range_to_minutes window = Inr (first, until)" "in_day (first, until)" "first < until"
  shows "\<exists>free. free_courts E pre window result = Inr free \<and> fst ` set free \<subseteq> fst ` set (somes xs)
    \<and> (\<forall>c \<in> fst ` set (somes xs). \<forall>m. court_minute free c m \<longleftrightarrow> first \<le> m \<and> m < until \<and> \<not> court_minute (somes xs) c m)"
proof -
  let ?booked = "fold add_booked (somes xs) []"
  have b: "distinct (map fst ?booked)" "fst ` set ?booked = fst ` set (somes xs)" "ranges_at ?booked c = ranges_at (somes xs) c" for c
    using booked_fold [of "[]" "somes xs" c] by (simp_all add: ranges_at_def)
  have "sane_range until r" if "(c, rs) \<in> set ?booked" "r \<in> set rs" for c rs r
  proof -
    have "r \<in> ranges_at (somes xs) c" using that b(3) [of c] by (auto simp: ranges_at_def)
    then show ?thesis using assms(5) by (auto simp: ranges_at_def list_all_iff)
  qed
  then have "list_all (\<lambda>c. list_all (sane_range until) (snd c)) ?booked" by (auto simp: list_all_iff)
  from free_courts_exact [OF b(1) this assms(6-8)] obtain cs where cs: "emap (free_court window) ?booked = Inr cs" "map fst cs = map fst ?booked"
    "\<forall>c \<in> fst ` set (somes xs). \<forall>m. court_minute cs c m \<longleftrightarrow> first \<le> m \<and> m < until \<and> \<not> court_minute (somes xs) c m"
    by (auto simp: court_minute_ranges b(2,3))
  have "court_minute (filter (\<lambda>c. snd c \<noteq> []) cs) c m = court_minute cs c m" for c m by (auto simp: court_minute_def)
  moreover have "fst ` set cs = fst ` set (somes xs)" using cs(2) b(2) by (metis set_map)
  moreover have "free_courts E pre window result = Inr (filter (\<lambda>c. snd c \<noteq> []) cs)"
    using assms(1-4) cs(1) by (simp add: free_courts_def booked_courts_def)
  ultimately show ?thesis using cs(3) by (intro exI [of _ "filter (\<lambda>c. snd c \<noteq> []) cs"]) auto
qed

section \<open>Cells of an answer\<close>

text \<open>
  The answer itself: a field has an identifier and a name, a row of the matrix the identifier of its field and its cells. The last field
  with the identifier of a row names the court of the row.
\<close>

abbreviation field_at :: "pyval \<Rightarrow> string \<Rightarrow> pyval" where
  "field_at v k \<equiv> dget (as_mapping v) (u k)"

definition proper_field :: "pyval \<Rightarrow> bool" where
  "proper_field f \<longleftrightarrow> (\<exists>d uuid name. f = PDict d \<and> map_of d (u ''fieldUuid'') = Some (PStr uuid) \<and> map_of d (u ''fieldName'') = Some name)"

definition proper_row :: "pyval \<Rightarrow> bool" where
  "proper_row row \<longleftrightarrow> (\<exists>d uuid cells. row = PDict d \<and> map_of d (u ''fieldUuid'') = Some (PStr uuid) \<and> map_of d (u ''matrix'') = Some (PList cells)
     \<and> (\<forall>cell \<in> set cells. \<exists>cd. cell = PDict cd))"

definition row_court :: "pyenv \<Rightarrow> pystr \<Rightarrow> pyval list \<Rightarrow> pyval \<Rightarrow> pystr option" where
  "row_court E pre flds row = map_option (\<lambda>f. pre @ py_str E (field_at f ''fieldName''))
     (List.find (\<lambda>f. field_at f ''fieldUuid'' = field_at row ''fieldUuid'') (rev flds))"

definition row_cells :: "pyval \<Rightarrow> pyval list" where
  "row_cells row = (case field_at row ''matrix'' of PList cells \<Rightarrow> cells | _ \<Rightarrow> [])"

definition cell_times :: "pyenv \<Rightarrow> pyval \<Rightarrow> time_range" where
  "cell_times E cell = (extract_time_hhmm E (field_at cell ''startTime''), extract_time_hhmm E (field_at cell ''endTime''))"

text \<open>Minute \<open>m\<close> lies in a cell of court \<open>c\<close> that cannot be reserved.\<close>

definition taken_minute :: "pyenv \<Rightarrow> pystr \<Rightarrow> pyval list \<Rightarrow> pyval list \<Rightarrow> pystr \<Rightarrow> int \<Rightarrow> bool" where
  "taken_minute E pre flds rows c m \<longleftrightarrow> (\<exists>row \<in> set rows. row_court E pre flds row = Some c
     \<and> (\<exists>cell \<in> set (row_cells row). \<not> truthy (field_at cell ''isAbleReserve'') \<and> covers (cell_times E cell) m))"

text \<open>A cell that cannot be reserved has times of the day that start no later than the court closes, or none that can be read.\<close>

definition proper_cell :: "pyenv \<Rightarrow> int \<Rightarrow> pyval \<Rightarrow> bool" where
  "proper_cell E until cell \<longleftrightarrow> truthy (field_at cell ''isAbleReserve'') \<or> fst (cell_times E cell) = [] \<or> snd (cell_times E cell) = []
     \<or> sane_range until (cell_times E cell)"

lemma map_of_dict_of: "map_of (dict_of kvs) k = map_of (rev kvs) k"
proof (induction kvs rule: rev_induct)
  case (snoc kv kvs)
  then show ?case by (cases kv) (simp add: dict_of_snoc)
qed simp

lemma map_of_key: "map_of (map (\<lambda>x. (g x, h x)) xs) k = map_option h (List.find (\<lambda>x. g x = k) xs)"
  by (induction xs) auto

lemma emap_total: "(\<And>x. x \<in> set xs \<Longrightarrow> f x = Inr (g x)) \<Longrightarrow> emap f xs = Inr (map g xs)"
  by (induction xs) auto

lemma names_read:
  assumes "result = PDict r" "map_of r (u ''fieldList'') = Some (PList flds)" "list_all proper_field flds"
  obtains names where "field_names E pre result = Inr names"
    "\<And>row. proper_row row \<Longrightarrow> map_of names (field_at row ''fieldUuid'') = row_court E pre flds row"
proof -
  let ?g = "\<lambda>f. field_at f ''fieldUuid''" and ?h = "\<lambda>f. pre @ py_str E (field_at f ''fieldName'')"
  let ?item = "\<lambda>item. ebind (item_of item (u ''fieldUuid'')) (\<lambda>uuid. ebind (item_of item (u ''fieldName'')) (\<lambda>name. ebind (dict_key uuid) (\<lambda>key. Inr (key, pre @ py_str E name))))"
  have "?item f = Inr (?g f, ?h f)" if "f \<in> set flds" for f
    using that assms(3) by (auto simp: list_all_iff proper_field_def item_of_def dict_key_def as_mapping_def dget_def)
  then have "emap ?item flds = Inr (map (\<lambda>f. (?g f, ?h f)) flds)" by (rule emap_total)
  then have n: "field_names E pre result = Inr (dict_of (map (\<lambda>f. (?g f, ?h f)) flds))"
    using assms(1,2) by (simp add: field_names_def get_or_def iterate_def)
  have "map_of (dict_of (map (\<lambda>f. (?g f, ?h f)) flds)) k = map_option ?h (List.find (\<lambda>f. ?g f = k) (rev flds))" for k
    by (simp add: map_of_dict_of rev_map map_of_key)
  then show ?thesis using that [OF n] by (simp add: row_court_def)
qed

lemma find_clock_shape: "find_clock s = [] \<or> length (find_clock s) = 5"
  by (induction s rule: find_clock.induct) auto

lemma extract_shape: "extract_time_hhmm E v = [] \<or> length (extract_time_hhmm E v) = 5"
  using find_clock_shape by (simp add: extract_time_hhmm_def)

definition taken_range :: "pyenv \<Rightarrow> pyval \<Rightarrow> time_range option" where
  "taken_range E cell = (if truthy (field_at cell ''isAbleReserve'') \<or> fst (cell_times E cell) = [] \<or> snd (cell_times E cell) = [] then None
     else Some (cell_times E cell))"

lemma booked_cell_read: "booked_cell E (PDict cd) = Inr (taken_range E (PDict cd))"
proof -
  have e: "extract_time_hhmm E (case map_of cd k of None \<Rightarrow> PStr [] | Some x \<Rightarrow> x) = extract_time_hhmm E (dget cd k)" for k
    by (cases "map_of cd k") (simp_all add: dget_def extract_time_hhmm_def)
  have t: "truthy (case map_of cd k of None \<Rightarrow> PNone | Some x \<Rightarrow> x) = truthy (dget cd k)" for k
    by (cases "map_of cd k") (simp_all add: dget_def)
  have n: "length (extract_time_hhmm E v) \<noteq> 5 \<longleftrightarrow> extract_time_hhmm E v = []" for v using extract_shape [of E v] by auto
  show ?thesis by (simp add: booked_cell_def get_or_def taken_range_def cell_times_def as_mapping_def e t n)
qed

definition read_row :: "pyenv \<Rightarrow> pystr \<Rightarrow> pyval list \<Rightarrow> pyval \<Rightarrow> (pystr \<times> time_range list) option" where
  "read_row E pre flds row = (case row_court E pre flds row of None \<Rightarrow> None
     | Some c \<Rightarrow> if c = [] then None else Some (c, somes (map (taken_range E) (row_cells row))))"

lemma booked_row_read:
  assumes "proper_row row" "map_of names (field_at row ''fieldUuid'') = row_court E pre flds row"
  shows "booked_row E names row = Inr (read_row E pre flds row)"
proof -
  obtain d uuid cells where d: "row = PDict d" "map_of d (u ''fieldUuid'') = Some (PStr uuid)" "map_of d (u ''matrix'') = Some (PList cells)"
    "\<And>cell. cell \<in> set cells \<Longrightarrow> \<exists>cd. cell = PDict cd" using assms(1) by (auto simp: proper_row_def)
  have "booked_cell E cell = Inr (taken_range E cell)" if "cell \<in> set cells" for cell using booked_cell_read d(4) [OF that] by metis
  then have "emap (booked_cell E) cells = Inr (map (taken_range E) cells)" by (rule emap_total)
  moreover have "field_at row ''fieldUuid'' = PStr uuid" "row_cells row = cells" using d(1-3) by (simp_all add: as_mapping_def dget_def row_cells_def)
  ultimately show ?thesis using assms(2) d(1-3)
    by (cases "row_court E pre flds row") (simp_all add: booked_row_def get_or_def iterate_def dict_key_def read_row_def)
qed

lemma unread_covers: "covers ([], e) m = False" "covers (s, []) m = False"
  by (simp_all add: covers_def range_to_minutes_def time_to_minutes_def py_int_of_str_def ebind_def split: sum.splits option.splits)

lemma taken_range_covers:
  "(\<exists>r \<in> set (somes (map (taken_range E) cells)). covers r m) \<longleftrightarrow> (\<exists>cell \<in> set cells. \<not> truthy (field_at cell ''isAbleReserve'') \<and> covers (cell_times E cell) m)"
proof -
  have "(\<exists>r. taken_range E cell = Some r \<and> covers r m) \<longleftrightarrow> \<not> truthy (field_at cell ''isAbleReserve'') \<and> covers (cell_times E cell) m" for cell
    using unread_covers by (cases "cell_times E cell") (auto simp: taken_range_def)
  moreover have "(\<exists>r \<in> set (somes (map (taken_range E) cells)). covers r m) \<longleftrightarrow> (\<exists>cell \<in> set cells. \<exists>r. taken_range E cell = Some r \<and> covers r m)"
    by (force simp: somes_def List.map_filter_def)
  ultimately show ?thesis by simp
qed

lemma in_read_rows: "(c, rs) \<in> set (somes (map (read_row E pre flds) rows)) \<longleftrightarrow>
    c \<noteq> [] \<and> (\<exists>row \<in> set rows. row_court E pre flds row = Some c \<and> rs = somes (map (taken_range E) (row_cells row)))"
  by (force simp: somes_def List.map_filter_def read_row_def split: option.splits if_splits)

lemma court_read: "c \<in> fst ` set (somes (map (read_row E pre flds) rows)) \<longleftrightarrow> c \<noteq> [] \<and> (\<exists>row \<in> set rows. row_court E pre flds row = Some c)"
proof -
  have "c \<in> fst ` set (somes (map (read_row E pre flds) rows)) \<longleftrightarrow> (\<exists>rs. (c, rs) \<in> set (somes (map (read_row E pre flds) rows)))" by force
  then show ?thesis unfolding in_read_rows by blast
qed

lemma minute_read:
  assumes "c \<noteq> []"
  shows "court_minute (somes (map (read_row E pre flds) rows)) c m \<longleftrightarrow> taken_minute E pre flds rows c m"
proof -
  have "court_minute (somes (map (read_row E pre flds) rows)) c m \<longleftrightarrow>
      (\<exists>rs. (c, rs) \<in> set (somes (map (read_row E pre flds) rows)) \<and> (\<exists>x \<in> set rs. covers x m))" by (auto simp: court_minute_def)
  then show ?thesis unfolding in_read_rows taken_minute_def taken_range_covers [symmetric] using assms by blast
qed

lemma rows_sane:
  assumes "list_all (\<lambda>row. list_all (proper_cell E until) (row_cells row)) rows"
  shows "list_all (\<lambda>c. list_all (sane_range until) (snd c)) (somes (map (read_row E pre flds) rows))"
proof -
  have "sane_range until x" if x: "(c, rs) \<in> set (somes (map (read_row E pre flds) rows))" "x \<in> set rs" for c rs x
  proof -
    obtain row where row: "row \<in> set rows" "rs = somes (map (taken_range E) (row_cells row))" using x(1) unfolding in_read_rows by blast
    obtain cell where cell: "cell \<in> set (row_cells row)" "taken_range E cell = Some x"
      using x(2) row(2) by (auto simp: somes_def List.map_filter_def)
    then have "proper_cell E until cell" using assms row(1) by (auto simp: list_all_iff)
    then show ?thesis using cell(2) by (auto simp: proper_cell_def taken_range_def split: if_splits)
  qed
  then show ?thesis by (auto simp: list_all_iff)
qed

text \<open>C12: What is read from an answer is exact. When the fields and rows of an answer have the expected shape and every cell that cannot be reserved
  starts within the day and no later than the court closes, the free courts are found, and a minute is reported free for a court exactly when the
  answer has a row for that court, the minute lies in the opening hours of the area, and no cell of that court, in whichever row, that cannot be
  reserved covers it. A cell whose times cannot be read covers nothing.\<close>

theorem crland_free_time_exact:
  assumes "result = PDict r" "map_of r (u ''fieldList'') = Some (PList flds)" "map_of r (u ''matrix'') = Some (PList rows)"
    and "list_all proper_field flds" "list_all proper_row rows" "list_all (\<lambda>row. list_all (proper_cell E until) (row_cells row)) rows"
    and "range_to_minutes window = Inr (first, until)" "in_day (first, until)" "first < until"
  shows "\<exists>free. free_courts E pre window result = Inr free
    \<and> (\<forall>c m. court_minute free c m \<longleftrightarrow> c \<noteq> [] \<and> (\<exists>row \<in> set rows. row_court E pre flds row = Some c)
          \<and> first \<le> m \<and> m < until \<and> \<not> taken_minute E pre flds rows c m)"
proof -
  obtain names where names: "field_names E pre result = Inr names"
    "\<And>row. proper_row row \<Longrightarrow> map_of names (field_at row ''fieldUuid'') = row_court E pre flds row"
    using names_read [OF assms(1,2,4)] by blast
  let ?booked = "somes (map (read_row E pre flds) rows)"
  have rows: "emap (booked_row E names) rows = Inr (map (read_row E pre flds) rows)"
    using booked_row_read [OF _ names(2)] assms(5) by (intro emap_total) (auto simp: list_all_iff)
  have "get_or result (u ''matrix'') (PList []) = Inr (PList rows)" "iterate (PList rows) = Inr rows"
    using assms(1,3) by (simp_all add: get_or_def iterate_def)
  then obtain free where free: "free_courts E pre window result = Inr free" "fst ` set free \<subseteq> fst ` set ?booked"
    "\<forall>c \<in> fst ` set ?booked. \<forall>m. court_minute free c m \<longleftrightarrow> first \<le> m \<and> m < until \<and> \<not> court_minute ?booked c m"
    using free_courts_listed [OF names(1) _ _ rows rows_sane [OF assms(6)] assms(7-9)] by blast
  have "court_minute free c m \<longleftrightarrow> c \<noteq> [] \<and> (\<exists>row \<in> set rows. row_court E pre flds row = Some c)
      \<and> first \<le> m \<and> m < until \<and> \<not> taken_minute E pre flds rows c m" for c m
  proof (cases "c \<in> fst ` set ?booked")
    case True
    then have "c \<noteq> [] \<and> (\<exists>row \<in> set rows. row_court E pre flds row = Some c)" unfolding court_read .
    moreover have "court_minute free c m \<longleftrightarrow> first \<le> m \<and> m < until \<and> \<not> court_minute ?booked c m" using free(3) True by blast
    ultimately show ?thesis using minute_read by blast
  next
    case False
    then have "c \<notin> fst ` set free" using free(2) by blast
    then have "\<not> court_minute free c m" by (force simp: court_minute_def)
    then show ?thesis using False unfolding court_read by blast
  qed
  then show ?thesis using free(1) by blast
qed

section \<open>A concrete venue\<close>

definition demo_token :: "pystr \<Rightarrow> pystr" where
  "demo_token who = u ''h.'' @ who @ u ''.'' @ replicate 43 65"

definition demo_segments :: segment_decoder where
  "demo_segments s = (if s = u ''h'' then Some (PDict [(u ''alg'', PStr (u ''HS256''))])
     else Some (PDict [(u ''sub'', PStr s), (u ''exp'', PInt 100)]))"

abbreviation demo_account :: "pystr \<Rightarrow> pystr" where
  "demo_account who \<equiv> u ''Wechat '' @ demo_token who"

lemma demo_token_split:
  assumes "list_all token_char who"
  shows "split_char 46 (demo_token who) = [u ''h'', who, replicate 43 65]"
    and "split_char 46 (demo_account who) = [u ''Wechat h'', who, replicate 43 65]"
proof -
  have w: "46 \<notin> set who" using assms by (auto simp: list_all_iff token_char_def is_ascii_digit_def)
  have s: "split_char 46 (who @ 46 # replicate 43 65) = [who, replicate 43 65]"
    using split_char_one [OF w] split_char_none [of 46 "replicate 43 65"] by simp
  show "split_char 46 (demo_token who) = [u ''h'', who, replicate 43 65]"
    "split_char 46 (demo_account who) = [u ''Wechat h'', who, replicate 43 65]"
    using split_char_one [of 46 "u ''h''" "who @ 46 # replicate 43 65"] split_char_one [of 46 "u ''Wechat h''" "who @ 46 # replicate 43 65"] s
    by (simp_all add: demo_token_def u_def)
qed

lemma demo_token_valid:
  assumes "list_all token_char who" "who \<noteq> []" "who \<noteq> u ''h''"
  shows "validate_szw_authorization demo_segments (PStr (demo_token who)) 0 = Inr (demo_account who)"
    and "validate_szw_authorization demo_segments (PStr (demo_account who)) 0 = Inr (demo_account who)"
proof -
  have c: "c \<notin> set (demo_token who)" if "c \<in> {10, 13, 32}" for c
    using assms(1) that by (auto simp: demo_token_def u_def list_all_iff token_char_def is_ascii_digit_def)
  have st: "strip (demo_token who) = demo_token who" "strip (demo_account who) = demo_account who"
    by (intro strip_fixed disjI2; simp add: demo_token_def u_def is_space_def)+
  have j: "jwt_shape (demo_token who)"
    using assms by (simp add: jwt_shape_def demo_token_split u_def token_char_def list_all_iff [of _ "replicate 43 65"])
  have e: "token_expiry demo_segments (demo_token who) = Some 100"
    using assms by (simp add: token_expiry_def demo_token_split demo_segments_def dget_def numeric_def u_def)
  have p: "\<not> startswith (demo_token who) (u ''Wechat '')" "startswith (demo_account who) (u ''Wechat '')" "drop 7 (demo_account who) = demo_token who"
    by (simp_all add: startswith_def demo_token_def u_def)
  have n: "demo_token who \<noteq> []" by (simp add: demo_token_def u_def)
  show "validate_szw_authorization demo_segments (PStr (demo_token who)) 0 = Inr (demo_account who)"
    using c p(1) j e n by (simp add: validate_szw_authorization_def st Let_def)
  have "10 \<notin> set (demo_account who)" "13 \<notin> set (demo_account who)" using c by (simp_all add: u_def)
  then show "validate_szw_authorization demo_segments (PStr (demo_account who)) 0 = Inr (demo_account who)"
    using p(2,3) j e n by (simp add: validate_szw_authorization_def st Let_def)
qed

lemma demo_identifiers:
  assumes "list_all token_char who" "who \<noteq> []" "who \<noteq> u ''h''"
  shows "identifiers demo_segments (demo_account who) = [who]"
proof -
  have "\<not> is_space c" if "token_char c" for c using that by (auto simp: token_char_def is_ascii_digit_def is_space_def)
  then have "\<not> is_space (hd who)" "\<not> is_space (last who)" using assms(1,2) by (auto simp: list_all_iff)
  then have "strip who = who" by (intro strip_fixed) simp
  then show ?thesis using assms by (simp add: identifiers_def demo_token_split demo_segments_def dget_def as_mapping_def Let_def u_def)
qed

lemma demo_pool:
  "validate_szw_authorization_pool demo_segments (\<lambda>_. None)
     (PList [PStr (demo_token (u ''ann'')), PStr (demo_account (u ''bob'')), PStr (demo_token (u ''cid''))]) 0
   = Inr [demo_account (u ''ann''), demo_account (u ''bob''), demo_account (u ''cid'')]"
proof -
  have n: "list_all token_char (u ''ann'')" "list_all token_char (u ''bob'')" "list_all token_char (u ''cid'')"
    "u ''ann'' \<noteq> []" "u ''bob'' \<noteq> []" "u ''cid'' \<noteq> []" "u ''ann'' \<noteq> u ''h''" "u ''bob'' \<noteq> u ''h''" "u ''cid'' \<noteq> u ''h''"
    "u ''ann'' \<noteq> u ''bob''" "u ''ann'' \<noteq> u ''cid''" "u ''bob'' \<noteq> u ''cid''"
    by (simp_all add: u_def token_char_def)
  have "demo_token x = demo_token y \<longleftrightarrow> x = y" for x y by (simp add: demo_token_def)
  then show ?thesis
    using n by (simp add: validate_szw_authorization_pool_def CRLAND_AUTHORIZATION_POOL_SIZE_def demo_token_valid demo_identifiers)
qed

theorem crland_accounts_rotate_witness:
  "let account = (\<lambda>t. select_crland_authorization demo_segments (\<lambda>_. None)
       (Some (PList [PStr (demo_token (u ''ann'')), PStr (demo_account (u ''bob'')), PStr (demo_token (u ''cid''))])) PNone 2 (ScheduledAt t) 0) in
   account (minutes 7) = account (minutes 6 + seconds 5)
   \<and> {account (minutes 7), account (minutes 7 + minutes 2), account (minutes 7 + 2 * minutes 2)}
     = Inr ` {demo_account (u ''ann''), demo_account (u ''bob''), demo_account (u ''cid'')}"
proof -
  have "minutes 7 div minutes 2 = (minutes 6 + seconds 5) div minutes 2" by (simp add: minutes_def seconds_def)
  then show ?thesis
    using crland_accounts_rotate [OF demo_pool zero_less_numeral [of "num.Bit0 num.One"], where t = "minutes 7" and t' = "minutes 6 + seconds 5" and single = PNone]
    unfolding Let_def list.set by blast
qed

text \<open>An answer that lists one court in two rows: two cells are booked, one is not.\<close>

definition demo_cell :: "bool \<Rightarrow> pystr \<Rightarrow> pystr \<Rightarrow> pyval" where
  [py_eval]: "demo_cell able s e = PDict [(u ''isAbleReserve'', PBool able), (u ''startTime'', PStr s), (u ''endTime'', PStr e)]"

definition demo_rows :: "pyval list" where
  [py_eval]: "demo_rows =
     [PDict [(u ''fieldUuid'', PStr (u ''f'')), (u ''matrix'', PList [demo_cell False (u ''09:00'') (u ''10:00''), demo_cell True (u ''10:00'') (u ''11:00'')])],
      PDict [(u ''fieldUuid'', PStr (u ''f'')), (u ''matrix'', PList [demo_cell False (u ''20:00'') (u ''21:00'')])]]"

definition demo_answer :: pyval where
  [py_eval]: "demo_answer = PDict [(u ''fieldList'', PList [PDict [(u ''fieldUuid'', PStr (u ''f'')), (u ''fieldName'', PStr (u ''1''))]]),
     (u ''matrix'', PList demo_rows)]"

lemma demo_booked:
  "field_names plain_env [] demo_answer = Inr [(PStr (u ''f''), u ''1'')]"
  "emap (booked_row plain_env [(PStr (u ''f''), u ''1'')]) demo_rows
   = Inr [Some (u ''1'', [(u ''09:00'', u ''10:00'')]), Some (u ''1'', [(u ''20:00'', u ''21:00'')])]"
  by (simp_all add: py_eval u_def field_names_def booked_row_def booked_cell_def digit_value_ascii)

lemma demo_times:
  "range_to_minutes (u ''09:00'', u ''10:00'') = Inr (540, 600)" "range_to_minutes (u ''20:00'', u ''21:00'') = Inr (1200, 1260)"
  "range_to_minutes (u ''09:00'', u ''21:00'') = Inr (540, 1260)"
proof -
  have "u ''09:00'' = clock_text 540" "u ''10:00'' = clock_text 600" "u ''20:00'' = clock_text 1200" "u ''21:00'' = clock_text 1260"
    by (simp_all add: clock_text_def zpad2_digits u_def)
  then show "range_to_minutes (u ''09:00'', u ''10:00'') = Inr (540, 600)" "range_to_minutes (u ''20:00'', u ''21:00'') = Inr (1200, 1260)"
    "range_to_minutes (u ''09:00'', u ''21:00'') = Inr (540, 1260)" by (simp_all add: range_to_minutes_def clock_text_read)
qed

theorem crland_free_time_exact_witness:
  "\<exists>free. free_courts plain_env [] (u ''09:00'', u ''21:00'') demo_answer = Inr free
    \<and> court_minute free (u ''1'') 600 \<and> court_minute free (u ''1'') 1199 \<and> \<not> court_minute free (u ''1'') 599 \<and> \<not> court_minute free (u ''1'') 1200"
proof -
  let ?flds = "[PDict [(u ''fieldUuid'', PStr (u ''f'')), (u ''fieldName'', PStr (u ''1''))]]"
  have k: "u ''fieldUuid'' \<noteq> u ''fieldName''" "u ''fieldUuid'' \<noteq> u ''matrix''" "u ''fieldList'' \<noteq> u ''matrix''" "u ''isAbleReserve'' \<noteq> u ''startTime''"
    "u ''isAbleReserve'' \<noteq> u ''endTime''" "u ''startTime'' \<noteq> u ''endTime''" by (simp_all add: u_def)
  note k' = k k [symmetric]
  have x: "extract_time_hhmm plain_env (PStr (u ''09:00'')) = u ''09:00''" "extract_time_hhmm plain_env (PStr (u ''10:00'')) = u ''10:00''"
    "extract_time_hhmm plain_env (PStr (u ''11:00'')) = u ''11:00''" "extract_time_hhmm plain_env (PStr (u ''20:00'')) = u ''20:00''"
    "extract_time_hhmm plain_env (PStr (u ''21:00'')) = u ''21:00''" by (simp_all add: py_eval u_def digit_value_ascii)
  have ct: "cell_times plain_env (demo_cell b s e) = (extract_time_hhmm plain_env (PStr s), extract_time_hhmm plain_env (PStr e))"
    "field_at (demo_cell b s e) ''isAbleReserve'' = PBool b" for b s e
    by (simp_all add: cell_times_def demo_cell_def as_mapping_def dget_def k')
  have cells: "map row_cells demo_rows = [[demo_cell False (u ''09:00'') (u ''10:00''), demo_cell True (u ''10:00'') (u ''11:00'')], [demo_cell False (u ''20:00'') (u ''21:00'')]]"
    by (simp add: row_cells_def demo_rows_def as_mapping_def dget_def k')
  have court: "row \<in> set demo_rows \<Longrightarrow> row_court plain_env [] ?flds row = Some (u ''1'')" for row
    by (auto simp: row_court_def demo_rows_def as_mapping_def dget_def k')
  have "taken_minute plain_env [] ?flds demo_rows (u ''1'') m \<longleftrightarrow> (\<exists>cells \<in> set (map row_cells demo_rows). \<exists>cell \<in> set cells.
      \<not> truthy (field_at cell ''isAbleReserve'') \<and> covers (cell_times plain_env cell) m)" for m
    using court by (auto simp: taken_minute_def)
  then have taken: "taken_minute plain_env [] ?flds demo_rows (u ''1'') m \<longleftrightarrow> 540 \<le> m \<and> m < 600 \<or> 1200 \<le> m \<and> m < 1260" for m
    unfolding cells by (simp add: ct x covers_def demo_times)
  have "list_all (\<lambda>cells. list_all (proper_cell plain_env 1260) cells) (map row_cells demo_rows)"
    unfolding cells by (simp add: proper_cell_def ct x sane_range_def demo_times in_day_def)
  then have p: "list_all (\<lambda>row. list_all (proper_cell plain_env 1260) (row_cells row)) demo_rows" by (simp add: list.pred_map comp_def)
  have f: "list_all proper_field ?flds" "list_all proper_row demo_rows"
    by (auto simp: proper_field_def proper_row_def demo_rows_def demo_cell_def k')
  have a: "map_of [(u ''fieldList'', PList ?flds), (u ''matrix'', PList demo_rows)] (u ''fieldList'') = Some (PList ?flds)"
    "map_of [(u ''fieldList'', PList ?flds), (u ''matrix'', PList demo_rows)] (u ''matrix'') = Some (PList demo_rows)" by (simp_all add: k')
  have w: "in_day (540, 1260)" "(540 :: int) < 1260" by (simp_all add: in_day_def)
  have "hd demo_rows \<in> set demo_rows" by (simp add: demo_rows_def)
  with court have "\<exists>row \<in> set demo_rows. row_court plain_env [] ?flds row = Some (u ''1'')" by blast
  moreover have "u ''1'' \<noteq> []" by (simp add: u_def)
  ultimately show ?thesis
    using crland_free_time_exact [OF demo_answer_def a f p demo_times(3) w, of "[]"] taken by auto
qed

text \<open>A run at nine in the morning: the host fails once and then answers.\<close>

definition demo_crland_world :: crland_world where
  "demo_crland_world = \<lparr>cw_now = hours 1, cw_seconds = (\<lambda>_. 0), cw_schedule = Unscheduled, cw_pool = None,
     cw_single = PStr (demo_token (u ''ann'')), cw_clock = (\<lambda>_ n. hours 1 + minutes (int n)),
     cw_reply = (\<lambda>_ n. if n = 0 then CrReply 503 None else CrReply 200 (Some (PDict [(u ''code'', PInt 200), (u ''result'', demo_answer)]))),
     cw_end = hours 1 + minutes 5, cw_year = 1970, cw_chat_names = PStr [], cw_device = [], cw_host = (\<lambda>_. None)\<rparr>"

lemma demo_free: "free_courts plain_env [] (u ''09:00'', u ''21:00'') demo_answer = Inr [(u ''1'', [range_text (600, 1200)])]"
proof -
  have m: "get_or demo_answer (u ''matrix'') (PList []) = Inr (PList demo_rows)" "iterate (PList demo_rows) = Inr demo_rows"
    by (simp_all add: get_or_def demo_answer_def iterate_def u_def)
  have "booked_courts plain_env [] demo_answer = Inr [(u ''1'', [(u ''09:00'', u ''10:00''), (u ''20:00'', u ''21:00'')])]"
    by (simp add: booked_courts_def demo_booked m somes_def List.map_filter_def add_booked_def)
  then show ?thesis by (simp add: free_courts_def free_court_def find_available_slots_def demo_times)
qed

lemma demo_area:
  assumes "area \<in> set (cl_booking_areas GBA_VENUE)"
  shows "get_free_tennis_court_infos_for_szw plain_env demo_segments demo_crland_world (demo_account (u ''ann'')) 0 area
    = ([hours 1 + minutes 1, hours 1 + minutes 2], Inr [(u ''1'', [range_text (600, 1200)])])"
proof -
  have v: "validate_szw_authorization demo_segments (PStr (demo_account (u ''ann''))) 0 = Inr (demo_account (u ''ann''))"
    by (rule demo_token_valid(2)) (simp_all add: u_def token_char_def)
  have hrs: "crland_inspection_is_open (hours 1)" "crland_inspection_is_open (hours 1 + minutes 1)" "crland_inspection_is_open (hours 1 + minutes 2)"
    by (simp_all add: py_eval)
  have t: "truthy demo_answer" by (simp add: demo_answer_def)
  have "ba_start_time area = u ''09:00''" "ba_end_time area = u ''21:00''" "ba_court_name_prefix area = []"
    using assms by (simp_all add: GBA_VENUE_def)
  then show ?thesis
    using t by (simp add: get_free_tennis_court_infos_for_szw_def demo_crland_world_def hrs v CRLAND_REQUEST_ATTEMPTS_def numeral_3_eq_3
        read_attempt_def dget_def demo_free u_def [of "''code''"] u_def [of "''result''"] minutes_def [of 0] seconds_def [of 0])
qed

lemma demo_inspection:
  "inspect_day plain_env demo_segments (\<lambda>_. None) GBA_VENUE demo_crland_world d
   = ([hours 1 + minutes 1, hours 1 + minutes 2],
      Inr (flatten_court_slots (isoformat d) [(u ''1'', [range_text (600, 1200)])], []), flatten_court_slots (isoformat d) [(u ''1'', [range_text (600, 1200)])])"
proof -
  have s: "select_crland_authorization demo_segments (\<lambda>_. None) (cw_pool demo_crland_world) (cw_single demo_crland_world)
      (cl_inspection_interval_minutes GBA_VENUE) (cw_schedule demo_crland_world) (cw_seconds demo_crland_world 0) = Inr (demo_account (u ''ann''))"
    using demo_token_valid(1) [of "u ''ann''"] by (simp add: select_crland_authorization_def demo_crland_world_def GBA_VENUE_def u_def token_char_def)
  obtain area where area: "cl_booking_areas GBA_VENUE = [area]" by (simp add: GBA_VENUE_def)
  have n: "58 \<notin> set (zpad 2 10)" "py_int_of_str (zpad 2 10) = Some 10"
    using py_int_two_ascii [of 1 0] by (simp_all add: zpad2_digits)
  have "split_char 58 (clock_text 600) = zpad 2 10 # split_char 58 (zpad 2 0)"
    using split_char_one [OF n(1), of "zpad 2 0"] by (simp add: clock_text_def u_def)
  then have "announce_court GBA_VENUE d (u ''1'', [range_text (600, 1200)]) = Inr None"
    using n by (simp add: announce_court_def slot_in_wechat_window_def range_text_def GBA_VENUE_def Let_def)
  moreover have "crland_inspection_is_open (cw_end demo_crland_world)" by (simp add: demo_crland_world_def py_eval)
  ultimately show ?thesis
    using s demo_area [of area] by (simp add: inspect_day_def area Let_def somes_def List.map_filter_def)
qed

theorem crland_requests_in_hours_witness:
  "\<exists>stored' effects raised. check_and_notify_for_day plain_env demo_segments (\<lambda>_. None) (u ''gba'') demo_crland_world 0 (PList []) = Some (stored', effects, raised)
    \<and> ce_requests effects = [hours 1 + minutes 1, hours 1 + minutes 2] \<and> ce_slots effects \<noteq> [] \<and> ce_healthy effects
    \<and> length (ce_requests effects) \<le> 3 \<and> list_all crland_inspection_is_open (ce_requests effects) \<and> crland_inspection_is_open (cw_end demo_crland_world)"
proof -
  let ?d = "shanghai_date (cw_now demo_crland_world) + 0"
  let ?slots = "flatten_court_slots (isoformat ?d) [(u ''1'', [range_text (600, 1200)])]"
  have hrs: "crland_inspection_is_open (cw_now demo_crland_world)" by (simp add: demo_crland_world_def py_eval)
  have venue: "map_of CRLAND_VENUES (u ''gba'') = Some GBA_VENUE" by (simp add: CRLAND_VENUES_def u_def)
  have run: "check_and_notify_for_day plain_env demo_segments (\<lambda>_. None) (u ''gba'') demo_crland_world 0 (PList [])
    = Some (PList [], \<lparr>ce_requests = [hours 1 + minutes 1, hours 1 + minutes 2], ce_slots = ?slots, ce_healthy = True, ce_error = None, ce_message = None\<rparr>, False)"
    using hrs demo_inspection [of ?d] by (simp add: check_and_notify_for_day_def check_venue_for_day_def venue)
  have t: "clock_text 600 = u ''10:00''" "clock_text 1200 = u ''20:00''" by (simp_all add: clock_text_def zpad2_digits u_def)
  have "strip (u ''1'') = u ''1''" "strip (u ''10:00'') = u ''10:00''" "strip (u ''20:00'') = u ''20:00''"
    by (intro strip_fixed; simp add: u_def is_space_def)+
  then have "?slots \<noteq> []" by (simp add: flatten_court_slots_def flatten_range_def range_text_def t u_def List.map_filter_def Let_def)
  then show ?thesis using crland_requests_in_hours [OF run venue] run by (auto simp: GBA_VENUE_def)
qed

end
