(* ===== verification/DirectSend.thy ===== *)
theory DirectSend
  imports Handover
begin

text \<open>
  The direct way to the sender (\<open>notifications/wechat.py\<close>): one request, the reading of its answer, and
  the loop that repeats it. The loop is a \<open>while True\<close>; that it ends, and after how many requests, is
  proved here.
\<close>

section \<open>One request\<close>

record send_error =
  se_text :: pystr
  se_code :: "pystr option"

text \<open>The request raises (its text), or a status, the body as text, and the decoded body if it is JSON.\<close>

datatype send_reply = SendRaises pystr | SendReply int pystr "pyval option"

definition DEVICE_BUSY_ERROR :: pystr where
  [py_eval]: "DEVICE_BUSY_ERROR = u ''device_busy''"

definition DEVICE_BUSY_RETRY_LIMIT :: nat where
  [py_eval]: "DEVICE_BUSY_RETRY_LIMIT = 4"

definition is_device_busy_error :: "send_error \<Rightarrow> bool" where
  [py_eval]: "is_device_busy_error e \<longleftrightarrow> se_code e = Some DEVICE_BUSY_ERROR \<or> contains (se_text e) DEVICE_BUSY_ERROR"

definition request_once :: "pyenv \<Rightarrow> send_reply \<Rightarrow> send_error + (pystr \<times> pyval) list" where
  "request_once E reply = (case reply of
     SendRaises reason \<Rightarrow> Inl \<lparr>se_text = u ''wechat send api request failed: '' @ reason, se_code = None\<rparr>
   | SendReply status body json \<Rightarrow>
       (case json of
          None \<Rightarrow> Inl \<lparr>se_text = u ''wechat send api returned non-json response: status='' @ dec status @ u '', body='' @ take 200 body, se_code = None\<rparr>
        | Some (PDict result) \<Rightarrow>
            if 400 \<le> status \<or> \<not> truthy (dget result (u ''success'')) then
              (let error = py_str E (py_or (dget result (u ''error'')) (PStr (u ''http_'' @ dec status)));
                   message = py_str E (py_or (dget result (u ''message'')) (PStr (take 200 body)))
               in Inl \<lparr>se_text = u ''wechat send api failed: '' @ error @ u '': '' @ message, se_code = Some error\<rparr>)
            else Inr result
        | Some _ \<Rightarrow> Inl \<lparr>se_text = u ''wechat send api returned invalid JSON shape: status='' @ dec status, se_code = None\<rparr>))"

section \<open>The loop\<close>

text \<open>
  The number of requests made and what the loop ends with; \<open>attempt i\<close> is what request \<open>i\<close> comes
  back with. \<open>other\<close> counts failures that are not a busy device.
\<close>

function (sequential) send_attempts :: "(nat \<Rightarrow> send_error + 'a) \<Rightarrow> nat \<Rightarrow> nat \<Rightarrow> nat \<Rightarrow> nat \<Rightarrow> nat \<times> (send_error + 'a)" where
  "send_attempts attempt retry_count n busy other = (case attempt n of
     Inr result \<Rightarrow> (Suc n, Inr result)
   | Inl e \<Rightarrow>
       if is_device_busy_error e then
         (if DEVICE_BUSY_RETRY_LIMIT \<le> Suc busy then (Suc n, Inl e) else send_attempts attempt retry_count (Suc n) (Suc busy) other)
       else
         (if retry_count \<le> Suc other then (Suc n, Inl e) else send_attempts attempt retry_count (Suc n) busy (Suc other)))"
  by pat_completeness auto
termination
  by (relation "measure (\<lambda>(attempt, retry_count, n, busy, other). (DEVICE_BUSY_RETRY_LIMIT - busy) + (retry_count - other))") auto

declare send_attempts.simps [simp del]

section \<open>The configured send\<close>

text \<open>\<open>int(value)\<close> of a stored variable, with the default for what is no number.\<close>

definition int_variable :: "pyval \<Rightarrow> int \<Rightarrow> int" where
  [py_eval]: "int_variable v fallback = (case v of
     PStr s \<Rightarrow> (case py_int_of_str s of None \<Rightarrow> fallback | Some i \<Rightarrow> i)
   | PInt i \<Rightarrow> i
   | PBool b \<Rightarrow> if b then 1 else 0
   | PFloat r \<Rightarrow> if 0 \<le> r then \<lfloor>r\<rfloor> else \<lceil>r\<rceil>
   | _ \<Rightarrow> fallback)"

text \<open>\<open>_normalize_messages\<close>: iterating a dict gives its keys, and anything that cannot be iterated raises as an empty list does.\<close>

definition normalize_messages :: "pyval \<Rightarrow> pystr list option" where
  [py_eval]: "normalize_messages messages =
     (let ms = filter (\<lambda>m. strip m \<noteq> []) (case messages of PStr s \<Rightarrow> [s] | PList vs \<Rightarrow> map the_PStr (filter is_PStr vs) | PDict d \<Rightarrow> map fst d | _ \<Rightarrow> [])
      in if ms = [] then None else Some ms)"

text \<open>The stored configuration of the sender.\<close>

record sender_vars =
  sv_api_url :: pyval
  sv_device_name :: pyval
  sv_retry_count :: pyval

definition send_payload :: "pyenv \<Rightarrow> pystr \<Rightarrow> pystr \<Rightarrow> pystr list \<Rightarrow> (pystr \<times> pyval) list" where
  "send_payload E receiver device messages =
     [(u ''receiver'', PStr receiver), (u ''messages'', PList (map PStr messages)), (u ''device_name'', PStr device),
      (u ''idempotency_key'', PStr (sha256_hex E (join [0] (receiver # device # messages))))]"

definition config_error :: "char list \<Rightarrow> send_error" where
  "config_error t = \<lparr>se_text = u t, se_code = None\<rparr>"

text \<open>\<open>api i payload\<close> is what request \<open>i\<close> with the payload meets. The number of requests, and the outcome.\<close>

definition send_wechat_text ::
    "pyenv \<Rightarrow> sender_vars \<Rightarrow> (nat \<Rightarrow> (pystr \<times> pyval) list \<Rightarrow> send_reply) \<Rightarrow> pystr \<Rightarrow> pyval \<Rightarrow> pystr option \<Rightarrow> nat \<times> (send_error + (pystr \<times> pyval) list)" where
  "send_wechat_text E vars api receiver messages device_name =
     (let url = strip (py_str E (sv_api_url vars));
          device = strip (case device_name of Some d \<Rightarrow> if d = [] then py_str E (sv_device_name vars) else d | None \<Rightarrow> py_str E (sv_device_name vars));
          to = strip receiver
      in if url = [] then (0, Inl (config_error ''Airflow Variable WECHAT_SEND_API_URL is required''))
         else if device = [] then (0, Inl (config_error ''device_name is required or Airflow Variable WECHAT_SEND_DEVICE_NAME must be set''))
         else if to = [] then (0, Inl (config_error ''receiver is required''))
         else case normalize_messages messages of
           None \<Rightarrow> (0, Inl (config_error ''messages must contain at least one non-empty string''))
         | Some ms \<Rightarrow> send_attempts (\<lambda>i. request_once E (api i (send_payload E to device ms))) (nat (max (int_variable (sv_retry_count vars) 4) 1)) 0 0 0)"

text \<open>To several rooms in turn: the first failure raises out of the loop.\<close>

fun send_to_rooms ::
    "pyenv \<Rightarrow> sender_vars \<Rightarrow> (pystr \<Rightarrow> nat \<Rightarrow> (pystr \<times> pyval) list \<Rightarrow> send_reply) \<Rightarrow> pystr list \<Rightarrow> pystr \<Rightarrow> pystr option \<Rightarrow> send_error + (pystr \<times> pyval) list list" where
  "send_to_rooms E vars api [] message device_name = Inr []"
| "send_to_rooms E vars api (room # rooms) message device_name =
     ebind (snd (send_wechat_text E vars (api room) room (PList [PStr message]) device_name)) (\<lambda>r.
       ebind (send_to_rooms E vars api rooms message device_name) (\<lambda>rs. Inr (r # rs)))"

definition send_wechat_text_to_chatrooms ::
    "pyenv \<Rightarrow> sender_vars \<Rightarrow> (pystr \<Rightarrow> nat \<Rightarrow> (pystr \<times> pyval) list \<Rightarrow> send_reply) \<Rightarrow> pyval \<Rightarrow> pystr \<Rightarrow> pystr option \<Rightarrow> send_error + (pystr \<times> pyval) list list" where
  "send_wechat_text_to_chatrooms E vars api chatrooms message device_name = send_to_rooms E vars api (normalize_chatrooms E chatrooms) message device_name"

section \<open>The loop ends\<close>

text \<open>How many of the requests before \<open>n\<close> failed with a busy device, and how many otherwise.\<close>

definition busy_failures :: "(nat \<Rightarrow> send_error + 'a) \<Rightarrow> nat \<Rightarrow> nat" where
  "busy_failures attempt n = length (filter (\<lambda>i. case attempt i of Inl e \<Rightarrow> is_device_busy_error e | Inr _ \<Rightarrow> False) [0..<n])"

definition other_failures :: "(nat \<Rightarrow> send_error + 'a) \<Rightarrow> nat \<Rightarrow> nat" where
  "other_failures attempt n = length (filter (\<lambda>i. case attempt i of Inl e \<Rightarrow> \<not> is_device_busy_error e | Inr _ \<Rightarrow> False) [0..<n])"

lemma failures_Suc:
  "busy_failures attempt (Suc n) = busy_failures attempt n + (case attempt n of Inl e \<Rightarrow> if is_device_busy_error e then 1 else 0 | Inr _ \<Rightarrow> 0)"
  "other_failures attempt (Suc n) = other_failures attempt n + (case attempt n of Inl e \<Rightarrow> if is_device_busy_error e then 0 else 1 | Inr _ \<Rightarrow> 0)"
  by (auto simp: busy_failures_def other_failures_def split: sum.split)

lemma all_failed_count: "\<forall>i < n. \<exists>e. attempt i = Inl e \<Longrightarrow> n = busy_failures attempt n + other_failures attempt n"
proof (induction n)
  case (Suc n)
  then obtain e where "attempt n = Inl e" by blast
  then show ?case using Suc by (simp add: failures_Suc)
qed (simp add: busy_failures_def other_failures_def)

lemma send_attempts_ends:
  assumes "busy = busy_failures attempt n" "other = other_failures attempt n" "busy < DEVICE_BUSY_RETRY_LIMIT" "other < retry_count"
    and "\<forall>i < n. \<exists>e. attempt i = Inl e"
  shows "\<exists>k. send_attempts attempt retry_count n busy other = (Suc k, attempt k) \<and> n \<le> k \<and> (\<forall>i < k. \<exists>e. attempt i = Inl e)
    \<and> busy_failures attempt k < DEVICE_BUSY_RETRY_LIMIT \<and> other_failures attempt k < retry_count
    \<and> (\<forall>e. attempt k = Inl e \<longrightarrow> busy_failures attempt (Suc k) = DEVICE_BUSY_RETRY_LIMIT \<or> other_failures attempt (Suc k) = retry_count)"
  using assms
proof (induction attempt retry_count n busy other rule: send_attempts.induct)
  case (1 attempt retry_count n busy other)
  show ?case
  proof (cases "attempt n")
    case (Inr result)
    then show ?thesis using 1 by (intro exI [of _ n]) (simp add: send_attempts.simps)
  next
    case (Inl e)
    show ?thesis
    proof (cases "(if is_device_busy_error e then DEVICE_BUSY_RETRY_LIMIT \<le> Suc busy else retry_count \<le> Suc other)")
      case True
      then show ?thesis using 1 Inl
        by (intro exI [of _ n]) (auto simp: send_attempts.simps [of _ _ n] failures_Suc split: if_split_asm)
    next
      case False
      have fails: "\<forall>i < Suc n. \<exists>e. attempt i = Inl e" using 1(7) Inl by (auto simp: less_Suc_eq)
      show ?thesis
      proof (cases "is_device_busy_error e")
        case True
        then have "send_attempts attempt retry_count n busy other = send_attempts attempt retry_count (Suc n) (Suc busy) other"
          using False Inl by (simp add: send_attempts.simps [of _ _ n])
        then show ?thesis using 1(1) [OF Inl True] False True 1(3-6) fails Inl by (fastforce simp: failures_Suc)
      next
        case busy: False
        then have "send_attempts attempt retry_count n busy other = send_attempts attempt retry_count (Suc n) busy (Suc other)"
          using False Inl by (simp add: send_attempts.simps [of _ _ n])
        then show ?thesis using 1(2) [OF Inl busy] False busy 1(3-6) fails Inl by (fastforce simp: failures_Suc)
      qed
    qed
  qed
qed

lemma send_wechat_text_cases:
  obtains (refused) e where "send_wechat_text E vars api receiver messages device_name = (0, Inl e)"
  | (sent) receiver' device ms where "send_wechat_text E vars api receiver messages device_name
      = send_attempts (\<lambda>i. request_once E (api i (send_payload E receiver' device ms))) (nat (max (int_variable (sv_retry_count vars) 4) 1)) 0 0 0"
proof -
  let ?device = "strip (case device_name of Some d \<Rightarrow> if d = [] then py_str E (sv_device_name vars) else d | None \<Rightarrow> py_str E (sv_device_name vars))"
  consider (bad) "strip (py_str E (sv_api_url vars)) = [] \<or> ?device = [] \<or> strip receiver = [] \<or> normalize_messages messages = None"
    | (good) ms where "strip (py_str E (sv_api_url vars)) \<noteq> []" "?device \<noteq> []" "strip receiver \<noteq> []" "normalize_messages messages = Some ms" by blast
  then show ?thesis
  proof cases
    case bad
    then have "\<exists>e. send_wechat_text E vars api receiver messages device_name = (0, Inl e)" by (auto simp: send_wechat_text_def Let_def)
    then show ?thesis using refused by blast
  next
    case good
    show ?thesis by (rule sent [of "strip receiver" ?device ms]) (use good in \<open>simp add: send_wechat_text_def Let_def\<close>)
  qed
qed

text \<open>C39: A direct send ends: whatever the sender answers, \<open>send_wechat_text\<close> returns, without a request when it is not configured, and
  otherwise after at most three requests more than the configured number of tries (at least one). All requests carry
  the same payload, hence the same idempotency key; every one before the last failed, its outcome is
  that of the last, and it fails only when the device was busy four times or the configured tries are used up.\<close>

theorem direct_send_ends:
  "\<exists>n r tries. send_wechat_text E vars api receiver messages device_name = (n, r) \<and> tries = nat (max (int_variable (sv_retry_count vars) 4) 1)
    \<and> n \<le> tries + 3
    \<and> (n = 0 \<and> (\<exists>e. r = Inl e) \<or>
       (\<exists>k payload attempt. attempt = (\<lambda>i. request_once E (api i payload)) \<and> n = Suc k \<and> r = attempt k \<and> list_all (\<lambda>i. \<exists>e. attempt i = Inl e) [0..<k]
          \<and> ((\<exists>result. r = Inr result) \<or> busy_failures attempt n = 4 \<or> other_failures attempt n = tries)))"
proof (cases rule: send_wechat_text_cases [of E vars api receiver messages device_name])
  case (sent receiver' device ms)
  define attempt where "attempt = (\<lambda>i. request_once E (api i (send_payload E receiver' device ms)))"
  define tries where "tries = nat (max (int_variable (sv_retry_count vars) 4) 1)"
  have "0 < tries" by (simp add: tries_def)
  then obtain k where k: "send_attempts attempt tries 0 0 0 = (Suc k, attempt k)" "\<forall>i < k. \<exists>e. attempt i = Inl e"
      "busy_failures attempt k < DEVICE_BUSY_RETRY_LIMIT" "other_failures attempt k < tries"
      "\<forall>e. attempt k = Inl e \<longrightarrow> busy_failures attempt (Suc k) = DEVICE_BUSY_RETRY_LIMIT \<or> other_failures attempt (Suc k) = tries"
    using send_attempts_ends [of 0 attempt 0 0 tries] by (auto simp: busy_failures_def other_failures_def DEVICE_BUSY_RETRY_LIMIT_def)
  have "Suc k \<le> tries + 3" using all_failed_count [OF k(2)] k(3,4) by (simp add: DEVICE_BUSY_RETRY_LIMIT_def)
  moreover have "(\<exists>result. attempt k = Inr result) \<or> busy_failures attempt (Suc k) = 4 \<or> other_failures attempt (Suc k) = tries"
    using k(5) by (cases "attempt k") (auto simp: DEVICE_BUSY_RETRY_LIMIT_def)
  moreover have "list_all (\<lambda>i. \<exists>e. attempt i = Inl e) [0..<k]" using k(2) by (simp add: list_all_iff)
  moreover have "send_wechat_text E vars api receiver messages device_name = (Suc k, attempt k)" using sent k(1) by (simp add: attempt_def tries_def)
  ultimately have "send_wechat_text E vars api receiver messages device_name = (Suc k, attempt k) \<and> tries = nat (max (int_variable (sv_retry_count vars) 4) 1)
    \<and> Suc k \<le> tries + 3 \<and> attempt = (\<lambda>i. request_once E (api i (send_payload E receiver' device ms))) \<and> list_all (\<lambda>i. \<exists>e. attempt i = Inl e) [0..<k]
    \<and> ((\<exists>result. attempt k = Inr result) \<or> busy_failures attempt (Suc k) = 4 \<or> other_failures attempt (Suc k) = tries)"
    using attempt_def tries_def by blast
  then show ?thesis by blast
next
  case (refused e)
  then show ?thesis by simp
qed

end
