(* ===== verification/Weather.thy ===== *)
theory Weather
  imports EmailQueue BookingLinks
begin

text \<open>
  The weather gate (\<open>host_core/weather.py\<close>): whether the forecast for the booked day lets a reminder go
  out, the cache of its decisions, and that only a forecast of rain for that very day holds a reminder back.
\<close>

section \<open>Reading a forecast\<close>

record weather_settings =
  weather_gate_enabled :: bool
  weather_latitude :: rat
  weather_longitude :: rat
  weather_threshold_mm :: rat

text \<open>An exception is the name of its class, which is all that is kept of it.\<close>

type_synonym exception = pystr

text \<open>The answer of the forecast service: the request raises, or a decoded body.\<close>

datatype forecast = ForecastRaises exception | ForecastBody pyval

text \<open>\<open>value[key]\<close> for a key that is a string, and for an index that is not negative.\<close>

definition item_at :: "pyval \<Rightarrow> pystr \<Rightarrow> exception + pyval" where
  [py_eval]: "item_at v k = (case v of
     PDict d \<Rightarrow> (case map_of d k of None \<Rightarrow> Inl (u ''KeyError'') | Some x \<Rightarrow> Inr x)
   | _ \<Rightarrow> Inl (u ''TypeError''))"

definition element_at :: "pyval \<Rightarrow> nat \<Rightarrow> exception + pyval" where
  [py_eval]: "element_at v i = (case v of
     PList xs \<Rightarrow> if i < length xs then Inr (xs ! i) else Inl (u ''IndexError'')
   | PStr s \<Rightarrow> if i < length s then Inr (PStr [s ! i]) else Inl (u ''IndexError'')
   | PDict d \<Rightarrow> Inl (u ''KeyError'')
   | _ \<Rightarrow> Inl (u ''TypeError''))"

text \<open>\<open>value.index(x)\<close> of a list or a string.\<close>

definition index_of :: "pyval \<Rightarrow> pystr \<Rightarrow> exception + nat" where
  [py_eval]: "index_of v x = (case v of
     PList xs \<Rightarrow> (case List.find (\<lambda>i. xs ! i = PStr x) [0..<length xs] of None \<Rightarrow> Inl (u ''ValueError'') | Some i \<Rightarrow> Inr i)
   | PStr s \<Rightarrow> (case List.find (\<lambda>i. take (length x) (drop i s) = x) [0..<Suc (length s)] of None \<Rightarrow> Inl (u ''ValueError'') | Some i \<Rightarrow> Inr i)
   | _ \<Rightarrow> Inl (u ''AttributeError''))"

text \<open>
  The precipitation forecast for a day. \<open>to_float\<close> is \<open>float(value)\<close>: an exception, or a number,
  \<open>None\<close> for one that is not finite.
\<close>

definition read_precipitation :: "(pyval \<Rightarrow> exception + rat option) \<Rightarrow> pystr \<Rightarrow> forecast \<Rightarrow> exception + rat" where
  [py_eval]: "read_precipitation to_float target forecast = (case forecast of
     ForecastRaises e \<Rightarrow> Inl e
   | ForecastBody body \<Rightarrow>
       ebind (item_at body (u ''daily'')) (\<lambda>daily.
       ebind (item_at daily (u ''time'')) (\<lambda>time.
       ebind (index_of time target) (\<lambda>index.
       ebind (item_at daily (u ''precipitation_sum'')) (\<lambda>amounts.
       ebind (element_at amounts index) (\<lambda>value.
       ebind (to_float value) (\<lambda>mm.
         case mm of None \<Rightarrow> Inl (u ''ValueError'') | Some p \<Rightarrow> if p < 0 then Inl (u ''ValueError'') else Inr p)))))))"

section \<open>The decision and its cache\<close>

text \<open>A call: the settings, the current time, the booked day, the monotonic clock in seconds and what the service would answer.\<close>

record weather_call =
  wq_settings :: weather_settings
  wq_now :: instant
  wq_booking_date :: "pystr option"
  wq_epoch :: rat
  wq_forecast :: forecast

type_synonym weather_key = "pystr \<times> rat \<times> rat \<times> rat"
type_synonym weather_cache = "(weather_key \<times> (rat \<times> weather_decision)) list"

definition CACHE_SECONDS :: rat where
  [py_eval]: "CACHE_SECONDS = 3600"

text \<open>The day asked about; a text that is no date raises ValueError out of the call.\<close>

definition target_day :: "weather_call \<Rightarrow> exception + pydate" where
  [py_eval]: "target_day q = (case wq_booking_date q of
     None \<Rightarrow> Inr (shanghai_date (wq_now q))
   | Some s \<Rightarrow> if s = [] then Inr (shanghai_date (wq_now q))
       else (case date_fromisoformat s of None \<Rightarrow> Inl (u ''ValueError'') | Some d \<Rightarrow> Inr d))"

definition weather_key_of :: "weather_call \<Rightarrow> pydate \<Rightarrow> weather_key" where
  [py_eval]: "weather_key_of q target = (isoformat target, weather_latitude (wq_settings q), weather_longitude (wq_settings q), weather_threshold_mm (wq_settings q))"

definition forecast_mm :: "(pyval \<Rightarrow> exception + rat option) \<Rightarrow> weather_call \<Rightarrow> pydate \<Rightarrow> exception + rat" where
  [py_eval]: "forecast_mm to_float q target =
     (let offset = target - shanghai_date (wq_now q) in
      if 0 \<le> offset \<and> offset < 16 then read_precipitation to_float (isoformat target) (wq_forecast q) else Inl (u ''ValueError''))"

definition fresh_decision :: "(pyval \<Rightarrow> exception + rat option) \<Rightarrow> weather_call \<Rightarrow> pydate \<Rightarrow> weather_decision" where
  [py_eval]: "fresh_decision to_float q target =
     (let threshold = weather_threshold_mm (wq_settings q) in
      case forecast_mm to_float q target of
        Inr p \<Rightarrow> \<lparr>wd_send_email = (p < threshold), wd_forecast_date = Some (isoformat target), wd_precipitation_mm = Some p,
            wd_threshold_mm = threshold, wd_reason = (if p < threshold then u ''forecast'' else u ''precipitation_threshold_met''), wd_error = None\<rparr>
      | Inl e \<Rightarrow> \<lparr>wd_send_email = True, wd_forecast_date = Some (isoformat target), wd_precipitation_mm = None,
            wd_threshold_mm = threshold, wd_reason = u ''weather_unavailable'', wd_error = Some e\<rparr>)"

definition cache_hit :: "weather_call \<Rightarrow> weather_key \<Rightarrow> weather_cache \<Rightarrow> weather_decision option" where
  [py_eval]: "cache_hit q key cache = (case map_of cache key of
     None \<Rightarrow> None
   | Some (t, d) \<Rightarrow> if wq_epoch q - t < (if wd_error d = None then CACHE_SECONDS else 60) then Some d else None)"

definition cache_store :: "weather_call \<Rightarrow> weather_key \<Rightarrow> weather_decision \<Rightarrow> weather_cache \<Rightarrow> weather_cache" where
  [py_eval]: "cache_store q key d cache = dict_put key (wq_epoch q, d) (if 64 \<le> length cache then [] else cache)"

definition evaluate_weather ::
    "(pyval \<Rightarrow> exception + rat option) \<Rightarrow> weather_call \<Rightarrow> weather_cache \<Rightarrow> weather_cache \<times> (exception + weather_decision)" where
  "evaluate_weather to_float q cache =
     (if \<not> weather_gate_enabled (wq_settings q)
      then (cache, Inr \<lparr>wd_send_email = True, wd_forecast_date = wq_booking_date q, wd_precipitation_mm = None,
              wd_threshold_mm = weather_threshold_mm (wq_settings q), wd_reason = u ''disabled'', wd_error = None\<rparr>)
      else case target_day q of
        Inl e \<Rightarrow> (cache, Inl e)
      | Inr target \<Rightarrow>
          (case cache_hit q (weather_key_of q target) cache of
             Some d \<Rightarrow> (cache, Inr d)
           | None \<Rightarrow>
               let d = fresh_decision to_float q target in
               (cache_store q (weather_key_of q target) d cache, Inr d)))"

text \<open>The calls of a process one after the other: the decisions, and the cache at the end.\<close>

fun weather_calls ::
    "(pyval \<Rightarrow> exception + rat option) \<Rightarrow> weather_call list \<Rightarrow> weather_cache \<Rightarrow> weather_cache \<times> (exception + weather_decision) list" where
  "weather_calls to_float [] cache = (cache, [])"
| "weather_calls to_float (q # qs) cache =
     (case evaluate_weather to_float q cache of (cache', r) \<Rightarrow>
      case weather_calls to_float qs cache' of (cache'', rs) \<Rightarrow> (cache'', r # rs))"

section \<open>Only rain holds a reminder back\<close>

text \<open>Every decision in the cache was taken in an earlier call with the same key, at the time noted.\<close>

definition cache_founded :: "(pyval \<Rightarrow> exception + rat option) \<Rightarrow> weather_call set \<Rightarrow> weather_cache \<Rightarrow> bool" where
  "cache_founded to_float calls cache \<longleftrightarrow> (\<forall>key t d. map_of cache key = Some (t, d) \<longrightarrow>
     (\<exists>q target. q \<in> calls \<and> target_day q = Inr target \<and> weather_key_of q target = key \<and> wq_epoch q = t \<and> d = fresh_decision to_float q target))"

text \<open>A call whose forecast says that at least the threshold falls on the day.\<close>

definition rain_forecast :: "(pyval \<Rightarrow> exception + rat option) \<Rightarrow> weather_call \<Rightarrow> pydate \<Rightarrow> bool" where
  "rain_forecast to_float q target \<longleftrightarrow> (\<exists>p. forecast_mm to_float q target = Inr p \<and> weather_threshold_mm (wq_settings q) \<le> p)"

lemma suppressing_decision:
  assumes "\<not> wd_send_email (fresh_decision to_float q target)"
  shows "rain_forecast to_float q target" "wd_error (fresh_decision to_float q target) = None"
  using assms by (auto simp: fresh_decision_def rain_forecast_def Let_def not_less split: sum.split_asm)

lemma founded_mono: "cache_founded to_float calls cache \<Longrightarrow> calls \<subseteq> calls' \<Longrightarrow> cache_founded to_float calls' cache"
  unfolding cache_founded_def by blast

lemma evaluate_founded:
  assumes "evaluate_weather to_float q cache = (cache', r)" "cache_founded to_float calls cache"
  shows "cache_founded to_float (insert q calls) cache'"
proof (cases "cache' = cache")
  case True
  then show ?thesis using assms(2) founded_mono by blast
next
  case False
  then obtain target where t: "target_day q = Inr target" and c: "cache' = cache_store q (weather_key_of q target) (fresh_decision to_float q target) cache"
    using assms(1) by (auto simp: evaluate_weather_def Let_def split: if_split_asm sum.split_asm option.split_asm)
  have old: "cache_founded to_float calls (if 64 \<le> length cache then [] else cache)" using assms(2) by (simp add: cache_founded_def)
  show ?thesis unfolding cache_founded_def
  proof (intro allI impI)
    fix key since d assume m: "map_of cache' key = Some (since, d)"
    show "\<exists>q' target. q' \<in> insert q calls \<and> target_day q' = Inr target \<and> weather_key_of q' target = key \<and> wq_epoch q' = since \<and> d = fresh_decision to_float q' target"
    proof (cases "key = weather_key_of q target")
      case True
      then show ?thesis using m t by (auto simp: c cache_store_def map_of_dict_put)
    next
      case False
      then have "map_of (if 64 \<le> length cache then [] else cache) key = Some (since, d)" using m by (simp add: c cache_store_def map_of_dict_put)
      then show ?thesis using old unfolding cache_founded_def by blast
    qed
  qed
qed

lemma evaluate_suppresses:
  assumes "evaluate_weather to_float q cache = (cache', Inr d)" "cache_founded to_float calls cache" "\<not> wd_send_email d"
  shows "weather_gate_enabled (wq_settings q) \<and> (\<exists>q' target target'. q' \<in> insert q calls \<and> target_day q = Inr target \<and> target_day q' = Inr target'
    \<and> weather_key_of q' target' = weather_key_of q target \<and> rain_forecast to_float q' target' \<and> (q' = q \<or> wq_epoch q - wq_epoch q' < CACHE_SECONDS))"
proof -
  have on: "weather_gate_enabled (wq_settings q)" using assms(1,3) by (auto simp: evaluate_weather_def split: if_split_asm)
  obtain target where t: "target_day q = Inr target" using assms(1) on by (auto simp: evaluate_weather_def split: sum.split_asm)
  show ?thesis
  proof (cases "cache_hit q (weather_key_of q target) cache")
    case None
    then have "d = fresh_decision to_float q target" using assms(1) on t by (simp add: evaluate_weather_def Let_def)
    then show ?thesis using suppressing_decision(1) assms(3) on t by blast
  next
    case (Some d')
    then have d': "d' = d" using assms(1) on t by (simp add: evaluate_weather_def)
    obtain since where hit: "map_of cache (weather_key_of q target) = Some (since, d)" "wq_epoch q - since < (if wd_error d = None then CACHE_SECONDS else 60)"
      using Some d' by (auto simp: cache_hit_def split: option.split_asm if_split_asm)
    obtain q' target' where q': "q' \<in> calls" "target_day q' = Inr target'" "weather_key_of q' target' = weather_key_of q target" "wq_epoch q' = since"
      "d = fresh_decision to_float q' target'" using assms(2) hit(1) unfolding cache_founded_def by blast
    then show ?thesis using hit(2) suppressing_decision [of to_float q' target'] assms(3) on t by auto
  qed
qed

lemma calls_suppress:
  assumes "weather_calls to_float qs cache = (cache', rs)" "cache_founded to_float calls cache" "i < length qs" "rs ! i = Inr d" "\<not> wd_send_email d"
  shows "weather_gate_enabled (wq_settings (qs ! i)) \<and> (\<exists>q' target target'. q' \<in> calls \<union> set (take (Suc i) qs) \<and> target_day (qs ! i) = Inr target
    \<and> target_day q' = Inr target' \<and> weather_key_of q' target' = weather_key_of (qs ! i) target \<and> rain_forecast to_float q' target'
    \<and> (q' = qs ! i \<or> wq_epoch (qs ! i) - wq_epoch q' < CACHE_SECONDS))"
  using assms
proof (induction qs arbitrary: cache calls i rs)
  case (Cons q qs)
  obtain cache1 r where e: "evaluate_weather to_float q cache = (cache1, r)" by fastforce
  obtain rs1 where c: "weather_calls to_float qs cache1 = (cache', rs1)" and rs: "rs = r # rs1" using Cons.prems(1) e by (auto split: prod.split_asm)
  show ?case
  proof (cases i)
    case 0
    then show ?thesis using evaluate_suppresses [OF _ Cons.prems(2,5), of q cache1] e rs Cons.prems(4) by simp
  next
    case (Suc j)
    show ?thesis using Cons.IH [OF c evaluate_founded [OF e Cons.prems(2)], of j] Cons.prems(3,4,5) Suc rs by (auto simp: insert_commute)
  qed
qed simp

text \<open>C24: Weather fails open: in any sequence of calls, a decision not to send is due to a forecast, received in this call or less
  than an hour earlier for the same day, place and threshold, that at least the threshold falls on that day. A service that is
  down, a body that cannot be read, a number that is no amount of rain or a day beyond the forecast never hold a reminder back.\<close>

theorem only_rain_suppresses:
  assumes "weather_calls to_float qs [] = (cache, rs)" "i < length qs" "rs ! i = Inr d" "\<not> wd_send_email d"
  shows "weather_gate_enabled (wq_settings (qs ! i)) \<and> (\<exists>q' target target'. q' \<in> set (take (Suc i) qs) \<and> target_day (qs ! i) = Inr target
    \<and> target_day q' = Inr target' \<and> weather_key_of q' target' = weather_key_of (qs ! i) target \<and> rain_forecast to_float q' target'
    \<and> (q' = qs ! i \<or> wq_epoch (qs ! i) - wq_epoch q' < CACHE_SECONDS))"
proof -
  have "cache_founded to_float {} []" by (simp add: cache_founded_def)
  from calls_suppress [OF assms(1) this assms(2-4)] show ?thesis by simp
qed

definition rainy_call :: "rat \<Rightarrow> forecast \<Rightarrow> weather_call" where
  "rainy_call epoch forecast = \<lparr>wq_settings = \<lparr>weather_gate_enabled = True, weather_latitude = 22, weather_longitude = 114, weather_threshold_mm = 5\<rparr>,
     wq_now = 18 * days 1, wq_booking_date = None, wq_epoch = epoch, wq_forecast = forecast\<rparr>"

definition rainy_body :: pyval where
  "rainy_body = PDict [(u ''daily'', PDict [(u ''time'', PList [PStr (u ''1970-01-19'')]), (u ''precipitation_sum'', PList [PInt 7])])]"

theorem only_rain_suppresses_witness:
  "\<exists>q' \<in> set [rainy_call 0 (ForecastBody rainy_body), rainy_call 100 (ForecastRaises [])]. \<exists>target. rain_forecast (\<lambda>v. Inr (Some 7)) q' target"
proof -
  let ?f = "\<lambda>v. Inr (Some 7) :: exception + rat option" and ?q = "rainy_call 0 (ForecastBody rainy_body)" and ?r = "rainy_call 100 (ForecastRaises [])"
  have d: "isoformat 18 = u ''1970-01-19''" by code_simp
  have t: "target_day ?q = Inr 18" "target_day ?r = Inr 18" "shanghai_date (wq_now ?q) = 18" by (simp_all add: target_day_def rainy_call_def shanghai_date_def shanghai_offset_def duration_defs)
  have "forecast_mm ?f ?q 18 = Inr 7"
    by (simp add: forecast_mm_def t(3) d Let_def) (simp add: rainy_call_def read_precipitation_def rainy_body_def item_at_def index_of_def element_at_def u_def)
  then have f: "fresh_decision ?f ?q 18 = \<lparr>wd_send_email = False, wd_forecast_date = Some (isoformat 18), wd_precipitation_mm = Some 7,
      wd_threshold_mm = 5, wd_reason = u ''precipitation_threshold_met'', wd_error = None\<rparr>"
    by (simp add: fresh_decision_def Let_def) (simp add: rainy_call_def)
  have k: "weather_key_of ?r 18 = weather_key_of ?q 18" "weather_gate_enabled (wq_settings ?q)" "weather_gate_enabled (wq_settings ?r)" "wq_epoch ?q = 0" "wq_epoch ?r = 100"
    by (simp_all add: weather_key_of_def rainy_call_def)
  have e: "evaluate_weather ?f ?q [] = ([(weather_key_of ?q 18, (0, fresh_decision ?f ?q 18))], Inr (fresh_decision ?f ?q 18))"
    by (simp add: evaluate_weather_def t k cache_hit_def cache_store_def Let_def)
  have "evaluate_weather ?f ?r [(weather_key_of ?q 18, (0, fresh_decision ?f ?q 18))] = ([(weather_key_of ?q 18, (0, fresh_decision ?f ?q 18))], Inr (fresh_decision ?f ?q 18))"
    by (simp add: evaluate_weather_def t k cache_hit_def CACHE_SECONDS_def f)
  then have c: "weather_calls ?f [?q, ?r] [] = ([(weather_key_of ?q 18, (0, fresh_decision ?f ?q 18))], [Inr (fresh_decision ?f ?q 18), Inr (fresh_decision ?f ?q 18)])"
    using e by simp
  show ?thesis using only_rain_suppresses [OF c, of 1 "fresh_decision ?f ?q 18"] f by auto
qed

end
