(* ===== verification/Spec2Isabelle.thy ===== *)
theory Spec2Isabelle
  imports Dispatch PauseLaws ApiLaws SenderLaws WechatQueueLaws WechatDelivery CollectorTimes CrlandLaws DirectSend Weather
begin

text \<open>
  \<^bold>\<open>Court reminders: collector, host core and the two delivery paths.\<close>

  The program watches booking sites of tennis venues, stores which courts are free, and tells people:
  subscribers by e-mail, groups by WeChat. Collectors post \<^emph>\<open>observations\<close> (the free slots of
  a venue) to the host core. \<^verbatim>\<open>service.py\<close> stores them and queues one notification per
  subscription and event; \<^verbatim>\<open>worker.py\<close> sends the queue through a mail provider under
  daily quotas; \<^verbatim>\<open>wechat_queue.py\<close> queues digests for chats, which
  \<^verbatim>\<open>wechat_worker.py\<close> hands to the sender agent next to the phone
  (\<^verbatim>\<open>sender_agent\<close>, \<^verbatim>\<open>wechat_sender\<close>). Users verify an address, subscribe, pause days and
  redeem invitations through \<^verbatim>\<open>api.py\<close>. All state is in one PostgreSQL database, apart from the
  sender's own SQLite ledger.

  \<^bold>\<open>How the code is modelled.\<close> A table is a list of records (\<open>Tables\<close>, from \<^verbatim>\<open>schema.py\<close> and
  \<^verbatim>\<open>schema_extensions.py\<close>), the database one record \<open>db\<close>. A transaction is a function on \<open>db\<close>; a
  raised exception is the left side of a sum, and a transaction that raises leaves the database as it
  was. Text is a list of code points (\<open>pystr\<close>), a decoded JSON value a \<open>pyval\<close>, a time the number of
  microseconds since the epoch (\<open>instant\<close>), a date its day number. Python integers are unbounded, as in
  the source. The clock of Python and \<open>now()\<close> of the database are separate arguments, and so are random
  draws, new identifiers, rows other transactions have locked, and the answers of the mail provider, the
  weather service, the phone and the network. SHA-256, HMAC, \<open>repr\<close> and case mapping are fields of
  \<open>pyenv\<close>; where a property relies on more of them it says so, and nothing is assumed of SHA-256.
  The functions are total and there is no fuel: the loops of the modelled code run over finite lists, but
  for the retry loop of \<^verbatim>\<open>send_wechat_text\<close>, which has a termination proof of its own (\<open>DirectSend\<close>).

  \<^bold>\<open>Theories.\<close>

  \<^item> \<open>Prelude\<close>: tables as lists with the SQL statements on them (update, insert or ignore, upsert, lookup
    by key), error sums, reachability, and the locales \<open>transition_system\<close> (an invariant kept by steps)
    and \<open>status_lifecycle\<close> (entries follow a relation and final ones stay), which the components interpret.
  \<^item> \<open>PyDate\<close>, \<open>PyJson\<close>: what the source uses of \<open>datetime\<close>, \<open>zoneinfo\<close>, \<open>str\<close> and \<open>json\<close>.
  \<^item> \<open>Domain\<close>, \<open>Invites\<close> (\<^verbatim>\<open>domain.py\<close>, \<^verbatim>\<open>venue_catalog.py\<close>): validation, matching, terms, keys,
    invitation codes. \<open>DomainLaws\<close>: validated values are well formed, matching is overlap in time,
    the text behind an event key identifies the slot, masks and codes round trip.
  \<^item> \<open>Service\<close> (\<^verbatim>\<open>service.py\<close>): ingesting an observation. \<open>ServiceLaws\<close>: no reminder is missed, none is
    unfounded, none is doubled; availability is replaced; a repeated observation is skipped exactly when
    no subscription changed and no resumed day waits for it; older observations do nothing.
  \<^item> \<open>Pauses\<close> (\<^verbatim>\<open>date_pauses.py\<close>), \<open>PauseLaws\<close>: a pause withdraws what is queued, is idempotent and can
    be lifted.
  \<^item> \<open>EmailQueue\<close>, \<open>Worker\<close> (\<^verbatim>\<open>worker.py\<close>): lease recovery, claims under quotas, the transactions
    before and after a send, provider checks, maintenance. \<open>Lifecycle\<close> and \<open>Delivery\<close>: the
    system of all transactions interleaved, a worker's crash between its two transactions included, its
    invariant and the statuses a row passes through. \<open>Dispatch\<close>: what the claims and sends guarantee.
    \<open>Scenario\<close>: a concrete run.
  \<^item> \<open>Api\<close> (\<^verbatim>\<open>api.py\<close>), \<open>ApiLaws\<close>: identity, verification, subscriptions, invitations; each handler with
    its error answers. The histories of observations and subscription changes are the interpretation \<open>service\<close> of
    \<open>transition_system\<close>, which shows that no recorded observation is ahead of the generation of its venue.
  \<^item> \<open>BookingLinks\<close> (\<^verbatim>\<open>booking_links.py\<close>): links, footers and the cache of send times.
  \<^item> \<open>WechatQueue\<close>, \<open>WechatWorker\<close> (\<^verbatim>\<open>wechat_queue.py\<close>, \<^verbatim>\<open>wechat_worker.py\<close>); \<open>WechatQueueLaws\<close>: a digest
    keeps a line exactly when its interval is covered by available slots of its day and court.
  \<^item> \<open>Ledger\<close>, \<open>Sender\<close> (\<^verbatim>\<open>sender_agent/ledger.py\<close>, \<^verbatim>\<open>sender_agent/app.py\<close>, the send loops of
    \<^verbatim>\<open>appium_text_sender.py\<close>); \<open>SenderLaws\<close>: the locale \<open>one_way_boundary\<close> and its interpretations
    show that a key is tapped in at most one request.
  \<^item> \<open>WechatDelivery\<close>: consumer, sender, network and crashes as one step relation; a digest is
    tapped in at most one post.
  \<^item> \<open>TimeRanges\<close> (\<^verbatim>\<open>ydmap_ranges.py\<close>, \<open>find_available_slots\<close> of \<^verbatim>\<open>szw_watcher.py\<close>): merged free ranges
    and the complement of booked ones, both against the set of minutes they stand for.
  \<^item> \<open>Collector\<close> (\<^verbatim>\<open>notifications/webapp.py\<close>, digest lines), \<open>Handover\<close> (\<^verbatim>\<open>notifications/wechat.py\<close>: the request
    to the host and the release of lines it did not take), \<open>PosPal\<close> (\<^verbatim>\<open>pospal_slots.py\<close>,
    \<^verbatim>\<open>pospal_venue.py\<close>: cells, free ranges, proxies, the run of a venue). The locale \<open>digest_host\<close> is what a
    collector relies on of the host; it is interpreted on the host's own \<open>enqueue\<close>.
    \<open>CollectorLaws\<close>, \<open>CollectorRuns\<close>, \<open>CollectorTimes\<close>: every line of a run is of a court, day and range the run
    published and the host reads it back as such, a line the host took is announced once, published time is
    bookable, and the weekday of a line. A run reads the clock again for each day and for the lines, so it may pass midnight.
  \<^item> \<open>Crland\<close> (\<^verbatim>\<open>szw_watcher.py\<close>: accounts, hours, requests and their retries, the run for a day);
    \<open>CrlandLaws\<close>: requests are sent within the hours and at most three per booking area, the accounts are
    used in turn, and the free time read from an answer is exactly the opening time less the cells the answer
    marks as not reservable.
    Decoding a token is an argument, as are the clock between the steps and the answers of the service.
  \<^item> \<open>Weather\<close> (\<^verbatim>\<open>weather.py\<close>): the weather gate with its cache; only a forecast of rain holds a reminder back.
  \<^item> \<open>DirectSend\<close> (\<^verbatim>\<open>notifications/wechat.py\<close>): the direct send and its retry loop.
  \<^item> This theory: properties of the running e-mail system.

  \<^bold>\<open>Interleaving.\<close> A step of the e-mail system is one committed transaction (isolation between
  transactions is the database's), and what a worker holds between its two transactions is part of the
  state, so a crash is a step that forgets it. A step of the WeChat system is one transaction of the
  consumer or one request to the sender, which the sender's device lock makes exclusive; a request may
  end in the death of the sender's process at any point of the send loop, and its answer may be lost.

  \<^bold>\<open>Not modelled.\<close> The collectors for the remaining booking sites (their own page formats; they share the steps
  modelled for PosPal and CRLand), the hosts near the phones (user interface automation over devices that are not
  part of the repository), the installation, deployment and diagnosis scripts (ssh, git, docker), the
  one-off migration, the health pages, settings read from the environment, and the web front end. Of the
  modelled files: advisory locks (transactions are already atomic here), the sleeping loops of the workers
  (any order of their steps is covered), logging, TLS sessions and request headers, the read-only pages of the API, navigation and image
  recognition on the phone, and database failures inside a handler other than the ones named by a
  constructor. The observation cache (\<^verbatim>\<open>observation_cache.py\<close>) and the gate caches of \<^verbatim>\<open>webapp.py\<close> are no
  longer asked by the publishing code.
\<close>

section \<open>The running system\<close>

lemma one_live_count:
  assumes "one_live c atts" "distinct (map a_id atts)"
  shows "length (filter (live_attempt c i) atts) \<le> 1"
proof (rule ccontr)
  let ?l = "filter (live_attempt c i) atts"
  assume "\<not> length ?l \<le> 1"
  then obtain a b rest where l: "?l = a # b # rest" by (cases ?l; cases "tl ?l") auto
  then have ab: "a \<in> set ?l" "b \<in> set ?l" by simp_all
  have "distinct (a # b # rest)" using assms(2) l by (metis distinct_filter distinct_map)
  then show False using assms(1) ab by (auto simp: one_live_def)
qed

text \<open>C1: Whatever transactions of workers, API requests and observations are interleaved, and wherever a
  worker crashes between its two transactions, a queued e-mail never has more than one delivery
  attempt that may have reached the provider.\<close>

theorem at_most_one_live_attempt:
  assumes "reachable world_init world_step w"
  shows "length (filter (live_attempt c i) (delivery_attempts (world_db w))) \<le> 1"
proof -
  have "world_inv w" using assms by (rule delivery.reachable_inv)
  then have "one_live c (delivery_attempts (world_db w))" "distinct (map a_id (delivery_attempts (world_db w)))"
    by (cases c; simp add: world_inv_def Let_def outbox_inv_def flights_inv_def)+
  then show ?thesis by (rule one_live_count)
qed

theorem at_most_one_live_attempt_witness:
  "length (filter (live_attempt SubscriberEmail (u ''n'')) (delivery_attempts (world_db demo_sending))) = 1"
  using at_most_one_live_attempt [OF demo_reachable(2), of SubscriberEmail "u ''n''"]
  by (simp add: demo_sending_live live_attempt_def new_attempt_def)

text \<open>C5: A notification that can still be claimed, or that was cancelled, expired or suppressed, was never
  handed to the provider: it has no submission time, no message identifier and no attempt that may have
  reached the provider. So withdrawing such a row never hides a delivered mail.\<close>

theorem unsent_rows_never_submitted:
  assumes "reachable world_init world_step w" "n \<in> set (notification_outbox (world_db w))" "unsent (o_status n)"
  shows "o_submitted_at n = None \<and> o_message_id n = None
    \<and> \<not> list_ex (live_attempt SubscriberEmail (o_id n)) (delivery_attempts (world_db w))"
  using delivery.reachable_inv [OF assms(1)] assms(2,3)
  by (auto simp: world_inv_def Let_def outbox_inv_def clean_def list_ex_iff)

theorem unsent_rows_never_submitted_witness:
  "\<not> list_ex (live_attempt SubscriberEmail (o_id demo_note)) (delivery_attempts (world_db demo_world))"
  using unsent_rows_never_submitted [OF demo_reachable(1), of demo_note]
  by (simp add: demo_world_def demo_db_def demo_note_def new_notification_def unsent_def)

text \<open>C15: The outcome of a notification is never rewritten: once a row is delivered, failed, expired,
  suppressed or of unknown submission or delivery, it keeps that status in every later state.\<close>

theorem final_outcome_stays:
  assumes "reachable world_init world_step w" "world_step\<^sup>*\<^sup>* w w'" "note_entry w i s" "final s"
  shows "note_entry w' i s"
  using note_life.final_run [OF assms(2) delivery.reachable_inv [OF assms(1)] assms(3,4)] .

theorem final_outcome_stays_witness: "note_entry (demo_delivered\<lparr>world_db := release_expired_leases (days 1) (world_db demo_delivered)\<rparr>) (u ''n'') Delivered"
proof (rule final_outcome_stays [OF demo_reachable_delivered r_into_rtranclp [of world_step] demo_delivered_note])
  have "demo_delivered = \<lparr>world_db = world_db demo_delivered, world_flights = []\<rparr>" by (simp add: demo_delivered_def)
  then show "world_step demo_delivered (demo_delivered\<lparr>world_db := release_expired_leases (days 1) (world_db demo_delivered)\<rparr>)"
    using ws_release [of "world_db demo_delivered" "[]" "days 1"] by (metis world.update_convs(1))
qed (simp add: final_def)

lemma submitted_path:
  "may_follow\<^sup>*\<^sup>* s s' \<Longrightarrow> s \<in> {Submitted, Delivered, Failed, DeliveryUnknown} \<Longrightarrow> s' \<in> {Submitted, Delivered, Failed, DeliveryUnknown}"
  by (induction rule: rtranclp_induct) (auto simp: may_follow_def calm_def)

text \<open>C8: A submitted mail is never claimed or sent again: in every later state its row is still there and is
  submitted, delivered, failed or of unknown delivery.\<close>

theorem submitted_never_sent_again:
  assumes "reachable world_init world_step w" "world_step\<^sup>*\<^sup>* w w'" "note_entry w i Submitted"
  shows "\<exists>s. note_entry w' i s \<and> s \<in> {Submitted, Delivered, Failed, DeliveryUnknown}"
  using note_life.entry_run [OF assms(2) delivery.reachable_inv [OF assms(1)] assms(3)] submitted_path by blast

theorem submitted_never_sent_again_witness: "\<exists>s. note_entry demo_delivered (u ''n'') s \<and> s \<in> {Submitted, Delivered, Failed, DeliveryUnknown}"
  by (rule submitted_never_sent_again [OF demo_reachable(3) r_into_rtranclp [of world_step, OF demo_step_delivered] demo_submitted_note])

end
